(* ===== verification/Prelude.thy ===== *)
theory Prelude
  imports Main "HOL-Library.Word" "HOL-Library.List_Lexorder" "HOL-Library.Char_ord"
    "HOL-Library.Product_Lexorder" "HOL-Library.Multiset"
begin

text \<open>
  Shared vocabulary of the development: the machine types, errors as values and their
  propagation (Rust's \<open>?\<close> operator and its panics), the primitive integer operations of a
  build with \<open>overflow-checks = true\<close> (\<^verbatim>\<open>src/Cargo.toml\<close>), checked indexing, and the
  ordered key-value lists that stand for a contract's storage namespaces, with the
  interface \<open>ordered_store\<close> they implement.
\<close>

section \<open>Types\<close>

type_synonym u8 = "8 word"
type_synonym u32 = "32 word"
type_synonym u64 = "64 word"
type_synonym u128 = "128 word"
type_synonym u256 = "256 word"
type_synonym bytes = "u8 list"
type_synonym addr = string

named_theorems result_simps \<open>rules that take a successful computation apart\<close>
named_theorems load_defs \<open>definitions of the storage accessors\<close>

section \<open>Errors as values\<close>

text \<open>
  \<open>StdError\<close> of the contracts, as far as they build or match on it; a \<open>failure\<close> is an \<open>Err\<close>
  result, a panic (the VM aborts the transaction) or the exhaustion of gas by a loop that
  does not end. In each case the transaction is rolled back, so a failing handler has no
  resulting storage.
\<close>

datatype std_error =
    GenericErr string
  | NotFound
  | OverflowErr
  | ParseErr
  | InvalidUtf8

datatype failure = StdErr std_error | Panic | OutOfGas

type_synonym 'a result = "failure + 'a"

abbreviation generic_err :: "string \<Rightarrow> 'a result" where
  "generic_err msg \<equiv> Inl (StdErr (GenericErr msg))"

text \<open>The \<open>?\<close> operator: go on with the value, or return the failure.\<close>

fun and_then :: "'a result \<Rightarrow> ('a \<Rightarrow> 'b result) \<Rightarrow> 'b result" where
  "and_then (Inl e) f = Inl e"
| "and_then (Inr x) f = f x"

lemma and_then_Inr_iff [result_simps]:
  "and_then r f = Inr y \<longleftrightarrow> (\<exists>x. r = Inr x \<and> f x = Inr y)"
  by (cases r) auto

lemma and_then_Inl_iff:
  "and_then r f = Inl e \<longleftrightarrow> r = Inl e \<or> (\<exists>x. r = Inr x \<and> f x = Inl e)"
  by (cases r) auto

lemma and_then_assoc: "and_then (and_then r f) g = and_then r (\<lambda>x. and_then (f x) g)"
  by (cases r) auto

lemma and_then_cong [fundef_cong]:
  "r = r' \<Longrightarrow> (\<And>x. r' = Inr x \<Longrightarrow> f x = g x) \<Longrightarrow> and_then r f = and_then r' g"
  by (cases r') auto

lemma if_Inr_iff [result_simps]:
  "(if b then Inl e else r) = Inr y \<longleftrightarrow> \<not> b \<and> r = Inr y"
  "(if b then r else Inl e) = Inr y \<longleftrightarrow> b \<and> r = Inr y"
  by auto

text \<open>\<open>Option::ok_or_else\<close>.\<close>

fun ok_or :: "'a option \<Rightarrow> failure \<Rightarrow> 'a result" where
  "ok_or None e = Inl e"
| "ok_or (Some x) e = Inr x"

lemma ok_or_Inr_iff [result_simps]: "ok_or x e = Inr y \<longleftrightarrow> x = Some y"
  by (cases x) auto

text \<open>\<open>Result::unwrap\<close>: an \<open>Err\<close> value becomes a panic.\<close>

fun unwrap :: "'a result \<Rightarrow> 'a result" where
  "unwrap (Inl (StdErr e)) = Inl Panic"
| "unwrap r = r"

lemma unwrap_Inr_iff [result_simps]: "unwrap r = Inr x \<longleftrightarrow> r = Inr x"
  by (cases r rule: unwrap.cases) auto

section \<open>Primitive integers with overflow checks\<close>

text \<open>\<open>+\<close> and \<open>-\<close> on \<open>u64\<close> and \<open>u128\<close> in a build with overflow checks: panic out of range.\<close>

definition prim_add :: "'w::len word \<Rightarrow> 'w word \<Rightarrow> 'w word result" where
  "prim_add a b = (if uint a + uint b < 2 ^ LENGTH('w) then Inr (a + b) else Inl Panic)"

definition prim_sub :: "'w::len word \<Rightarrow> 'w word \<Rightarrow> 'w word result" where
  "prim_sub a b = (if b \<le> a then Inr (a - b) else Inl Panic)"

lemma uint_add_bound_iff:
  "uint a + uint b < 2 ^ n \<longleftrightarrow> unat a + unat b < 2 ^ n"
proof -
  have "uint a + uint b = int (unat a + unat b)" by simp
  also have "\<dots> < 2 ^ n \<longleftrightarrow> unat a + unat b < 2 ^ n"
    by (metis of_nat_less_iff of_nat_numeral of_nat_power)
  finally show ?thesis .
qed

lemma unat_eq_add_iff:
  fixes a b c :: "'w::len word"
  shows "unat c = unat a + unat b \<longleftrightarrow> unat a + unat b < 2 ^ LENGTH('w) \<and> c = a + b"
  by (metis unat_add_lem unsigned_less word_unat_eq_iff)

lemma unat_eq_sub_iff:
  fixes a b c :: "'w::len word"
  shows "unat a = unat b + unat c \<longleftrightarrow> b \<le> a \<and> c = a - b"
proof
  assume *: "unat a = unat b + unat c"
  then have "a = b + c" by (simp add: unat_eq_add_iff)
  moreover from * have "b \<le> a" by (simp add: word_le_nat_alt)
  ultimately show "b \<le> a \<and> c = a - b" by simp
next
  assume "b \<le> a \<and> c = a - b"
  then show "unat a = unat b + unat c"
    by (simp add: unat_sub word_le_nat_alt)
qed

lemma prim_add_Inr_iff [result_simps]: "prim_add a b = Inr c \<longleftrightarrow> unat c = unat a + unat b"
  by (auto simp: prim_add_def uint_add_bound_iff unat_eq_add_iff)

lemma prim_sub_Inr_iff [result_simps]: "prim_sub a b = Inr c \<longleftrightarrow> unat a = unat b + unat c"
  by (auto simp: prim_sub_def unat_eq_sub_iff)

text \<open>\<open>xs[i]\<close> on a \<open>Vec\<close> or slice: panics when out of range.\<close>

definition index_vec :: "'a list \<Rightarrow> nat \<Rightarrow> 'a result" where
  "index_vec xs i = (if i < length xs then Inr (xs ! i) else Inl Panic)"

lemma index_vec_Inr_iff [result_simps]:
  "index_vec xs i = Inr x \<longleftrightarrow> i < length xs \<and> x = xs ! i"
  by (auto simp: index_vec_def)

section \<open>Big-endian keys\<close>

text \<open>\<open>u64::to_be_bytes\<close>: the eight bytes, most significant first.\<close>

definition u64_be_bytes :: "u64 \<Rightarrow> bytes" where
  "u64_be_bytes x = map (\<lambda>k. ucast (drop_bit (8 * k) x)) [7, 6, 5, 4, 3, 2, 1, 0]"

text \<open>The value of a big-endian byte string, to relate byte order and numeric order.\<close>

fun be_value :: "bytes \<Rightarrow> nat" where
  "be_value [] = 0"
| "be_value (b # bs) = unat b * 256 ^ length bs + be_value bs"

lemma be_value_bound: "be_value bs < 256 ^ length bs"
proof (induction bs)
  case (Cons b bs)
  have "unat b \<le> 255" using unsigned_less[where 'a = nat, of b] by simp
  then have "unat b * 256 ^ length bs \<le> 255 * 256 ^ length bs" by (rule mult_right_mono) simp
  moreover have "256 ^ length (b # bs) = 256 * (256 ^ length bs :: nat)" by simp
  ultimately show ?case using Cons.IH by (simp only: be_value.simps)
qed simp

lemma be_value_less_iff:
  "length xs = length ys \<Longrightarrow> xs < ys \<longleftrightarrow> be_value xs < be_value ys"
proof (induction xs ys rule: list_induct2)
  case (Cons x xs y ys)
  let ?n = "256 ^ length ys :: nat"
  note bounds = be_value_bound[of xs] be_value_bound[of ys]
  consider "unat x < unat y" | "unat x = unat y" | "unat y < unat x" by linarith
  then show ?case
  proof cases
    case 1
    then have "Suc (unat x) * ?n \<le> unat y * ?n" by (intro mult_right_mono) auto
    then show ?thesis using 1 bounds Cons.hyps by (simp add: word_less_nat_alt)
  next
    case 2
    then have "x = y" by (simp add: word_unat_eq_iff)
    then show ?thesis using Cons by simp
  next
    case 3
    then have "Suc (unat y) * ?n \<le> unat x * ?n" by (intro mult_right_mono) auto
    then show ?thesis using 3 bounds Cons.hyps
      by (auto simp: word_less_nat_alt)
  qed
qed simp

lemma unat_drop_bit: "unat (drop_bit n x) = unat x div 2 ^ n" for x :: u64
proof -
  have "unat x mod 2 ^ 64 = unat x" using unsigned_less[where 'a = nat, of x] by simp
  then show ?thesis by (simp add: unsigned_drop_bit_eq take_bit_eq_mod drop_bit_eq_div [where 'a = nat])
qed

lemma unat_byte: "unat (ucast x :: u8) = unat x mod 256" for x :: u64
  by (simp add: unsigned_ucast_eq take_bit_eq_mod)

lemma byte_step: "n div a mod 256 * a + n mod a = n mod (a * 256)" for n a :: nat
  by (simp add: mod_mult2_eq)

lemma be_value_u64: "be_value (u64_be_bytes x) = unat x"
proof -
  have "be_value (u64_be_bytes x) = unat x mod 256 ^ 8"
    using byte_step[of "unat x" "256 ^ 7"] byte_step[of "unat x" "256 ^ 6"]
      byte_step[of "unat x" "256 ^ 5"] byte_step[of "unat x" "256 ^ 4"]
      byte_step[of "unat x" "256 ^ 3"] byte_step[of "unat x" "256 ^ 2"]
      byte_step[of "unat x" "256"]
    by (simp add: u64_be_bytes_def unat_byte unat_drop_bit)
  then show ?thesis using unsigned_less[where 'a = nat, of x] by simp
qed

lemma length_u64_be_bytes [simp]: "length (u64_be_bytes x) = 8"
  by (simp add: u64_be_bytes_def)

lemma u64_be_bytes_less_iff: "u64_be_bytes x < u64_be_bytes y \<longleftrightarrow> x < y"
  by (simp add: be_value_less_iff be_value_u64 word_less_nat_alt)

lemma u64_be_bytes_eq_iff [simp]: "u64_be_bytes x = u64_be_bytes y \<longleftrightarrow> x = y"
  by (metis be_value_u64 word_unat_eq_iff)

section \<open>Ordered key-value lists\<close>

text \<open>
  A storage namespace is an ordered map from keys to values: iteration in ascending order
  follows the keys. It is an association list kept strictly sorted by key.
\<close>

fun kv_set :: "'k::linorder \<Rightarrow> 'v \<Rightarrow> ('k \<times> 'v) list \<Rightarrow> ('k \<times> 'v) list" where
  "kv_set k v [] = [(k, v)]"
| "kv_set k v (e # m) =
     (if fst e < k then e # kv_set k v m
      else if k < fst e then (k, v) # e # m
      else (k, v) # m)"

definition kv_get :: "('k \<times> 'v) list \<Rightarrow> 'k \<Rightarrow> 'v option" where
  "kv_get m k = map_of m k"

definition kv_remove :: "'k \<Rightarrow> ('k \<times> 'v) list \<Rightarrow> ('k \<times> 'v) list" where
  "kv_remove k m = filter (\<lambda>e. fst e \<noteq> k) m"

definition kv_wf :: "('k::linorder \<times> 'v) list \<Rightarrow> bool" where
  "kv_wf m = sorted_wrt (<) (map fst m)"

definition weight :: "('k \<Rightarrow> 'v \<Rightarrow> nat) \<Rightarrow> ('k \<times> 'v) list \<Rightarrow> nat" where
  "weight f m = sum_list (map (\<lambda>e. f (fst e) (snd e)) m)"

lemma kv_wf_distinct: "kv_wf m \<Longrightarrow> distinct (map fst m)"
  unfolding kv_wf_def by (metis strict_sorted_iff)

lemma set_kv_set: "fst ` set (kv_set k v m) = insert k (fst ` set m)"
  by (induction m) (auto simp: not_less_iff_gr_or_eq)

lemma set_kv_set_subset: "set (kv_set k v m) \<subseteq> insert (k, v) (set m)"
  by (induction m) auto

lemma kv_wf_Cons: "kv_wf (e # m) \<longleftrightarrow> (\<forall>x \<in> fst ` set m. fst e < x) \<and> kv_wf m"
  by (auto simp: kv_wf_def)

lemma kv_wf_set [simp]: "kv_wf m \<Longrightarrow> kv_wf (kv_set k v m)"
  by (induction m) (auto simp: kv_wf_Cons set_kv_set kv_wf_def[of "[]"] not_less_iff_gr_or_eq)

lemma kv_wf_remove [simp]: "kv_wf m \<Longrightarrow> kv_wf (kv_remove k m)"
  by (simp add: kv_wf_def kv_remove_def sorted_wrt_map sorted_wrt_filter)

lemma kv_wf_Nil [simp]: "kv_wf []"
  by (simp add: kv_wf_def)

lemma kv_get_Nil [simp]: "kv_get [] k = None"
  by (simp add: kv_get_def)

lemma map_of_above: "\<forall>x \<in> fst ` set m. k < x \<Longrightarrow> map_of m k = None"
  for k :: "'k::linorder"
  by (auto simp: map_of_eq_None_iff)

lemma kv_get_set [simp]: "kv_wf m \<Longrightarrow> kv_get (kv_set k v m) = (kv_get m)(k \<mapsto> v)"
proof (induction m)
  case (Cons e m)
  then show ?case
    by (cases e) (auto simp: fun_eq_iff kv_get_def kv_wf_Cons not_less_iff_gr_or_eq map_of_above)
qed (auto simp: fun_eq_iff kv_get_def)

lemma kv_get_remove [simp]: "kv_get (kv_remove k m) = (kv_get m)(k := None)"
  unfolding kv_get_def kv_remove_def by (induction m) (auto simp: fun_eq_iff)

text \<open>
  The interface a storage namespace offers its clients: point reads and writes, and an
  enumeration of its entries without repetition.
\<close>

locale ordered_store =
  fixes get :: "'m \<Rightarrow> 'k::linorder \<Rightarrow> 'v option"
    and put :: "'k \<Rightarrow> 'v \<Rightarrow> 'm \<Rightarrow> 'm"
    and del :: "'k \<Rightarrow> 'm \<Rightarrow> 'm"
    and entries :: "'m \<Rightarrow> ('k \<times> 'v) list"
    and wf :: "'m \<Rightarrow> bool"
  assumes get_put: "wf m \<Longrightarrow> get (put k v m) = (get m)(k \<mapsto> v)"
    and get_del: "wf m \<Longrightarrow> get (del k m) = (get m)(k := None)"
    and wf_put: "wf m \<Longrightarrow> wf (put k v m)"
    and wf_del: "wf m \<Longrightarrow> wf (del k m)"
    and get_entries: "wf m \<Longrightarrow> get m = map_of (entries m)"
    and entries_sorted: "wf m \<Longrightarrow> sorted_wrt (<) (map fst (entries m))"
begin

lemma entries_distinct: "wf m \<Longrightarrow> distinct (map fst (entries m))"
  using entries_sorted by (metis strict_sorted_iff)

lemma entries_iff: "wf m \<Longrightarrow> (k, v) \<in> set (entries m) \<longleftrightarrow> get m k = Some v"
  by (simp add: get_entries entries_distinct)

lemma dom_entries: "wf m \<Longrightarrow> dom (get m) = fst ` set (entries m)"
  by (simp add: get_entries dom_map_of_conv_image_fst)

lemma weight_as_sum:
  assumes "wf m"
  shows "weight f (entries m) = (\<Sum>k \<in> dom (get m). f k (the (get m k)))"
proof -
  have "weight f (entries m) = (\<Sum>e \<in> set (entries m). f (fst e) (snd e))"
    unfolding weight_def using entries_distinct[OF assms]
    by (simp add: distinct_map sum_list_distinct_conv_sum_set)
  also have "\<dots> = (\<Sum>e \<in> set (entries m). f (fst e) (the (get m (fst e))))"
    by (rule sum.cong) (auto simp: entries_iff[OF assms])
  also have "\<dots> = (\<Sum>k \<in> fst ` set (entries m). f k (the (get m k)))"
    using entries_distinct[OF assms] by (simp add: distinct_map sum.reindex)
  finally show ?thesis by (simp add: dom_entries[OF assms])
qed

lemma finite_dom: "wf m \<Longrightarrow> finite (dom (get m))"
  by (simp add: dom_entries)

lemma weight_del:
  assumes "wf m"
  shows "weight f (entries (del k m)) + (case get m k of None \<Rightarrow> 0 | Some w \<Rightarrow> f k w)
    = weight f (entries m)"
proof (cases "get m k")
  case None
  then have "(get m)(k := None) = get m" by auto
  with None assms show ?thesis by (simp add: weight_as_sum wf_del get_del)
next
  case (Some w)
  have "(\<Sum>x \<in> dom (get m). f x (the (get m x)))
      = f k w + (\<Sum>x \<in> dom (get m) - {k}. f x (the (get m x)))"
    using Some by (subst sum.remove[of _ k]) (auto simp: finite_dom[OF assms])
  also have "(\<Sum>x \<in> dom (get m) - {k}. f x (the (get m x)))
      = (\<Sum>x \<in> dom (get m) - {k}. f x (the (((get m)(k := None)) x)))"
    by (rule sum.cong) auto
  finally show ?thesis
    using Some assms by (simp add: weight_as_sum wf_del get_del)
qed

lemma weight_put:
  assumes "wf m"
  shows "weight f (entries (put k v m)) + (case get m k of None \<Rightarrow> 0 | Some w \<Rightarrow> f k w)
    = weight f (entries m) + f k v"
proof -
  have "weight f (entries (del k (put k v m))) = weight f (entries (del k m))"
    by (simp add: weight_as_sum wf_put wf_del get_put get_del assms)
  then show ?thesis
    using weight_del[OF wf_put[OF assms], of f k k v] weight_del[OF assms, of f k]
    by (simp add: get_put assms)
qed

end

interpretation kv: ordered_store kv_get kv_set kv_remove "\<lambda>m. m" kv_wf
  by unfold_locales (simp_all add: kv_wf_def[symmetric], simp add: fun_eq_iff kv_get_def)

end
