(* ===== verification/Numbers.thy ===== *)
theory Numbers
  imports Prelude
begin

text \<open>
  The interface to the number types of the crates \<^verbatim>\<open>cosmwasm_std\<close> (\<open>Uint128\<close>, \<open>Decimal\<close>) and
  \<^verbatim>\<open>cosmwasm_bignumber\<close> (\<open>Uint256\<close>, \<open>Decimal256\<close>). Their code is not part of the repository:
  the operations the contracts call are the fields of the record \<open>num_lib\<close>, an argument of
  every definition that calculates, and what the contracts rely on are the assumptions of the
  locales below. They state the documented behaviour in its weakest form: an operation that
  returns, returns the exact (rounded down) result, and it does return where no
  intermediate value can leave the type. What a library does beyond that (where exactly a
  multiplication with a wide intermediate result panics) is left open.
  \<open>reference_num\<close> is one implementation, and the locales are interpreted on it.
\<close>

section \<open>Operations\<close>

text \<open>
  \<open>Uint128\<close> wraps a \<open>u128\<close>, \<open>Uint256\<close> a 256-bit integer. \<open>Decimal\<close> and \<open>Decimal256\<close> are fixed-point
  numbers with 18 fractional digits, held as a number of atomic units.
\<close>

datatype decimal = Decimal (atomics: u128)

datatype decimal256 = Decimal256 (atomics256: u256)

text \<open>\<open>Decimal\<close> derives its order from the atomic units.\<close>

instantiation decimal :: linorder
begin

definition less_eq_decimal :: "decimal \<Rightarrow> decimal \<Rightarrow> bool" where
  "x \<le> y \<longleftrightarrow> atomics x \<le> atomics y"

definition less_decimal :: "decimal \<Rightarrow> decimal \<Rightarrow> bool" where
  "x < y \<longleftrightarrow> atomics x < atomics y"

instance
  by standard (auto simp: less_eq_decimal_def less_decimal_def decimal.expand)

end

abbreviation fractional :: nat where
  "fractional \<equiv> 1000000000000000000"

definition decimal_one :: decimal where
  "decimal_one = Decimal 1000000000000000000"

definition decimal256_zero :: decimal256 where
  "decimal256_zero = Decimal256 0"

record num_lib =
  uint_add :: "u128 \<Rightarrow> u128 \<Rightarrow> u128 result"
  uint_sub :: "u128 \<Rightarrow> u128 \<Rightarrow> u128 result"
  uint_checked_sub :: "u128 \<Rightarrow> u128 \<Rightarrow> u128 result"
  uint_mul_decimal :: "u128 \<Rightarrow> decimal \<Rightarrow> u128 result"
  decimal_from_ratio :: "u128 \<Rightarrow> u128 \<Rightarrow> decimal result"
  uint256_from :: "u128 \<Rightarrow> u256"
  uint128_from :: "u256 \<Rightarrow> u128 result"
  decimal256_from :: "decimal \<Rightarrow> decimal256"
  uint256_add :: "u256 \<Rightarrow> u256 \<Rightarrow> u256 result"
  uint256_sub :: "u256 \<Rightarrow> u256 \<Rightarrow> u256 result"
  uint256_mul_decimal :: "u256 \<Rightarrow> decimal256 \<Rightarrow> u256 result"
  decimal256_from_ratio :: "u256 \<Rightarrow> u256 \<Rightarrow> decimal256 result"

text \<open>\<open>Iterator::sum\<close> over \<open>Uint128\<close> values: addition from zero, left to right.\<close>

fun uint_sum_from :: "num_lib \<Rightarrow> u128 \<Rightarrow> u128 list \<Rightarrow> u128 result" where
  "uint_sum_from L acc [] = Inr acc"
| "uint_sum_from L acc (x # xs) = and_then (uint_add L acc x) (\<lambda>acc'. uint_sum_from L acc' xs)"

definition uint_sum :: "num_lib \<Rightarrow> u128 list \<Rightarrow> u128 result" where
  "uint_sum L xs = uint_sum_from L 0 xs"

text \<open>\<open>Iterator::sum\<close> over primitive \<open>u128\<close> values, with overflow checks.\<close>

fun prim_sum_from :: "u128 \<Rightarrow> u128 list \<Rightarrow> u128 result" where
  "prim_sum_from acc [] = Inr acc"
| "prim_sum_from acc (x # xs) = and_then (prim_add acc x) (\<lambda>acc'. prim_sum_from acc' xs)"

definition prim_sum :: "u128 list \<Rightarrow> u128 result" where
  "prim_sum xs = prim_sum_from 0 xs"

abbreviation total :: "u128 list \<Rightarrow> nat" where
  "total xs \<equiv> sum_list (map unat xs)"

lemma prim_sum_from_Inr_iff: "prim_sum_from acc xs = Inr s \<longleftrightarrow> unat s = unat acc + total xs"
proof (induction xs arbitrary: acc)
  case (Cons x xs)
  show ?case
  proof
    assume "prim_sum_from acc (x # xs) = Inr s"
    with Cons show "unat s = unat acc + total (x # xs)" by (auto simp: result_simps)
  next
    assume s: "unat s = unat acc + total (x # xs)"
    then have "unat (acc + x) = unat acc + unat x"
      using unsigned_less[where 'a = nat, of s] by (intro unat_add_lem[THEN iffD1]) simp
    with s show "prim_sum_from acc (x # xs) = Inr s"
      by (auto simp: result_simps Cons intro!: exI[of _ "acc + x"])
  qed
qed (auto simp: word_unat_eq_iff)

lemma prim_sum_Inr_iff [result_simps]: "prim_sum xs = Inr s \<longleftrightarrow> unat s = total xs"
  by (simp add: prim_sum_def prim_sum_from_Inr_iff)

lemma prim_sum_from_panics: "prim_sum_from acc xs = Inl e \<Longrightarrow> e = Panic"
  by (induction xs arbitrary: acc) (auto simp: and_then_Inl_iff prim_add_def split: if_splits)

lemma prim_sum_overflow: "2 ^ 128 \<le> total xs \<Longrightarrow> prim_sum xs = Inl Panic"
proof (cases "prim_sum xs")
  case (Inl e)
  then show ?thesis by (auto simp: prim_sum_def dest: prim_sum_from_panics)
next
  case (Inr s)
  moreover assume "2 ^ 128 \<le> total xs"
  ultimately show ?thesis using unsigned_less[where 'a = nat, of s] by (simp add: prim_sum_Inr_iff)
qed

section \<open>What the contracts rely on\<close>

locale uint128_laws =
  fixes L :: num_lib
  assumes uint_add_Inr: "uint_add L a b = Inr c \<longleftrightarrow> unat c = unat a + unat b"
    and uint_add_panics: "uint_add L a b = Inl e \<Longrightarrow> e = Panic"
    and uint_sub_Inr: "uint_sub L a b = Inr c \<longleftrightarrow> unat a = unat b + unat c"
    and uint_checked_sub_eq:
      "uint_checked_sub L a b = (if b \<le> a then Inr (a - b) else Inl (StdErr OverflowErr))"
begin

lemma uint_checked_sub_Inr: "uint_checked_sub L a b = Inr c \<longleftrightarrow> unat a = unat b + unat c"
  by (auto simp: uint_checked_sub_eq unat_eq_sub_iff)

lemmas uint128_simps = result_simps uint_add_Inr uint_sub_Inr uint_checked_sub_Inr

lemma uint_add_ok: "unat a + unat b < 2 ^ 128 \<Longrightarrow> uint_add L a b = Inr (a + b)"
  by (simp add: uint_add_Inr unat_eq_add_iff)

lemma uint_sub_ok: "b \<le> a \<Longrightarrow> uint_sub L a b = Inr (a - b)"
  by (simp add: uint_sub_Inr unat_eq_sub_iff)

lemma uint_checked_sub_ok: "b \<le> a \<Longrightarrow> uint_checked_sub L a b = Inr (a - b)"
  by (simp add: uint_checked_sub_eq)

lemma uint_sum_from_eq: "uint_sum_from L acc xs = Inr s \<longleftrightarrow> prim_sum_from acc xs = Inr s"
  by (induction xs arbitrary: acc) (simp_all add: result_simps uint_add_Inr)

lemma uint_sum_Inr: "uint_sum L xs = Inr s \<longleftrightarrow> unat s = total xs"
  by (simp add: uint_sum_def uint_sum_from_eq prim_sum_from_Inr_iff)

lemma uint_sum_from_panics: "uint_sum_from L acc xs = Inl e \<Longrightarrow> e = Panic"
  by (induction xs arbitrary: acc) (auto simp: and_then_Inl_iff dest: uint_add_panics)

lemma uint_sum_overflow: "2 ^ 128 \<le> total xs \<Longrightarrow> uint_sum L xs = Inl Panic"
proof (cases "uint_sum L xs")
  case (Inl e)
  then show ?thesis by (auto simp: uint_sum_def dest: uint_sum_from_panics)
next
  case (Inr s)
  moreover assume "2 ^ 128 \<le> total xs"
  ultimately show ?thesis using unsigned_less[where 'a = nat, of s] by (simp add: uint_sum_Inr)
qed

lemma uint_add_overflow: "2 ^ 128 \<le> unat a + unat b \<Longrightarrow> uint_add L a b = Inl Panic"
proof (cases "uint_add L a b")
  case (Inr s)
  moreover assume "2 ^ 128 \<le> unat a + unat b"
  ultimately show ?thesis using unsigned_less[where 'a = nat, of s] by (simp add: uint_add_Inr)
qed (auto dest: uint_add_panics)

lemma uint_sum_ok:
  assumes "total xs < 2 ^ 128"
  obtains s where "uint_sum L xs = Inr s" and "unat s = total xs"
proof -
  have "unat (word_of_nat (total xs) :: u128) = total xs"
    using assms by (simp add: unat_of_nat)
  then show ?thesis using that uint_sum_Inr by blast
qed

end

locale decimal_laws = uint128_laws +
  assumes mul_decimal_sound:
      "uint_mul_decimal L a d = Inr c \<Longrightarrow> unat c = unat a * unat (atomics d) div fractional"
    and mul_decimal_total:
      "unat a * unat (atomics d) < 2 ^ 128 \<Longrightarrow> \<exists>c. uint_mul_decimal L a d = Inr c"
    and from_ratio_sound:
      "decimal_from_ratio L n m = Inr d \<Longrightarrow>
        unat m \<noteq> 0 \<and> unat (atomics d) = unat n * fractional div unat m"
    and from_ratio_total:
      "m \<noteq> 0 \<Longrightarrow> unat n * fractional < 2 ^ 128 \<Longrightarrow> \<exists>d. decimal_from_ratio L n m = Inr d"

locale bignum_laws = decimal_laws +
  assumes uint256_from_value: "unat (uint256_from L a) = unat a"
    and uint128_from_sound: "uint128_from L x = Inr a \<Longrightarrow> unat a = unat x"
    and uint128_from_total: "unat x < 2 ^ 128 \<Longrightarrow> \<exists>a. uint128_from L x = Inr a"
    and decimal256_from_value: "unat (atomics256 (decimal256_from L d)) = unat (atomics d)"
    and uint256_add_sound: "uint256_add L x y = Inr z \<Longrightarrow> unat z = unat x + unat y"
    and uint256_add_total: "unat x + unat y < 2 ^ 256 \<Longrightarrow> \<exists>z. uint256_add L x y = Inr z"
    and uint256_sub_sound: "uint256_sub L x y = Inr z \<Longrightarrow> unat x = unat y + unat z"
    and uint256_sub_total: "y \<le> x \<Longrightarrow> \<exists>z. uint256_sub L x y = Inr z"
    and uint256_mul_sound:
      "uint256_mul_decimal L x w = Inr z \<Longrightarrow> unat z = unat x * unat (atomics256 w) div fractional"
    and uint256_mul_total:
      "unat x * unat (atomics256 w) < 2 ^ 256 \<Longrightarrow> \<exists>z. uint256_mul_decimal L x w = Inr z"
    and from_ratio256_sound:
      "decimal256_from_ratio L x y = Inr w \<Longrightarrow>
        unat y \<noteq> 0 \<and> unat (atomics256 w) = unat x * fractional div unat y"
    and from_ratio256_total:
      "y \<noteq> 0 \<Longrightarrow> unat x * fractional < 2 ^ 256 \<Longrightarrow> \<exists>w. decimal256_from_ratio L x y = Inr w"

section \<open>A reference implementation\<close>

definition fit :: "int \<Rightarrow> 'w::len word result" where
  "fit n = (if n < 2 ^ LENGTH('w) then Inr (word_of_int n) else Inl Panic)"

definition reference_num :: num_lib where
  "reference_num = \<lparr>
     uint_add = prim_add,
     uint_sub = prim_sub,
     uint_checked_sub = (\<lambda>a b. if b \<le> a then Inr (a - b) else Inl (StdErr OverflowErr)),
     uint_mul_decimal = (\<lambda>a d. fit (uint a * uint (atomics d) div 1000000000000000000)),
     decimal_from_ratio = (\<lambda>n m. if m = 0 then Inl Panic
       else and_then (fit (uint n * 1000000000000000000 div uint m)) (\<lambda>x. Inr (Decimal x))),
     uint256_from = ucast,
     uint128_from = (\<lambda>x. fit (uint x)),
     decimal256_from = (\<lambda>d. Decimal256 (ucast (atomics d))),
     uint256_add = prim_add,
     uint256_sub = prim_sub,
     uint256_mul_decimal = (\<lambda>x w. fit (uint x * uint (atomics256 w) div 1000000000000000000)),
     decimal256_from_ratio = (\<lambda>x y. if y = 0 then Inl Panic
       else and_then (fit (uint x * 1000000000000000000 div uint y)) (\<lambda>z. Inr (Decimal256 z)))\<rparr>"

lemma fit_Inr_iff: "fit (int n) = Inr (w :: 'w::len word) \<longleftrightarrow> unat w = n"
proof
  assume "fit (int n) = Inr w"
  then have "n < 2 ^ LENGTH('w)" and "w = word_of_nat n"
    by (auto simp: fit_def result_simps split: if_splits)
  then show "unat w = n" by (simp add: unat_of_nat)
next
  assume "unat w = n"
  then show "fit (int n) = Inr w"
    using unsigned_less[where 'a = nat, of w] by (auto simp: fit_def)
qed

lemma fit_total: "n < 2 ^ LENGTH('w) \<Longrightarrow> \<exists>w :: 'w::len word. fit (int n) = Inr w"
  by (auto simp: fit_Inr_iff intro!: exI[of _ "word_of_nat n"] simp: unat_of_nat)

lemma fit_scaled_mul:
  "fit (uint a * uint b div 1000000000000000000) = Inr (w :: 'w::len word)
    \<longleftrightarrow> unat w = unat a * unat b div fractional"
proof -
  have "uint a * uint b div 1000000000000000000 = int (unat a * unat b div fractional)"
    by (simp add: zdiv_int)
  then show ?thesis by (simp only: fit_Inr_iff)
qed

lemma fit_scaled_ratio:
  "fit (uint a * 1000000000000000000 div uint b) = Inr (w :: 'w::len word)
    \<longleftrightarrow> unat w = unat a * fractional div unat b"
proof -
  have "uint a * 1000000000000000000 div uint b = int (unat a * fractional div unat b)"
    by (simp add: zdiv_int)
  then show ?thesis by (simp only: fit_Inr_iff)
qed

lemma fit_uint: "fit (uint a) = Inr (w :: 'w::len word) \<longleftrightarrow> unat w = unat a"
  using fit_Inr_iff[of "unat a" w] by simp

lemma ex_unat: "n < 2 ^ LENGTH('w) \<Longrightarrow> \<exists>w :: 'w::len word. unat w = n"
  by (rule exI[of _ "word_of_nat n"]) (simp add: unat_of_nat)

lemma ex_scaled_mul: "n < 2 ^ LENGTH('w) \<Longrightarrow> \<exists>w :: 'w::len word. unat w = n div fractional"
  by (rule ex_unat) (meson div_le_dividend order_le_less_trans)

lemma ex_ratio: "n < 2 ^ LENGTH('w) \<Longrightarrow> \<exists>w :: 'w::len word. unat w = n div m"
  by (rule ex_unat) (meson div_le_dividend order_le_less_trans)

lemma unat_ucast_256: "unat (ucast x :: u256) = unat x" for x :: u128
proof -
  have "unat x < 2 ^ 256" by (rule order_less_trans[OF unsigned_less]) simp
  then show ?thesis by (simp add: unsigned_ucast_eq take_bit_nat_eq_self)
qed

interpretation reference: bignum_laws reference_num
proof unfold_locales
  fix n m :: u128
  assume "m \<noteq> 0" and "unat n * fractional < 2 ^ 128"
  then show "\<exists>d. decimal_from_ratio reference_num n m = Inr d"
    using ex_ratio[where 'w = 128, of "unat n * fractional" "unat m"]
    by (auto simp: reference_num_def result_simps fit_scaled_ratio)
next
  fix x y :: u256
  assume "y \<noteq> 0" and "unat x * fractional < 2 ^ 256"
  then show "\<exists>w. decimal256_from_ratio reference_num x y = Inr w"
    using ex_ratio[where 'w = 256, of "unat x * fractional" "unat y"]
    by (auto simp: reference_num_def result_simps fit_scaled_ratio)
next
  fix a :: u128 and d
  assume "unat a * unat (atomics d) < 2 ^ 128"
  then show "\<exists>c. uint_mul_decimal reference_num a d = Inr c"
    using ex_scaled_mul[where 'w = 128, of "unat a * unat (atomics d)"]
    by (auto simp: reference_num_def fit_scaled_mul)
next
  fix a :: u256 and d
  assume "unat a * unat (atomics256 d) < 2 ^ 256"
  then show "\<exists>c. uint256_mul_decimal reference_num a d = Inr c"
    using ex_scaled_mul[where 'w = 256, of "unat a * unat (atomics256 d)"]
    by (auto simp: reference_num_def fit_scaled_mul)
next
  fix x :: u256
  assume "unat x < 2 ^ 128"
  then show "\<exists>a. uint128_from reference_num x = Inr a"
    using ex_unat[where 'w = 128, of "unat x"] by (auto simp: reference_num_def fit_uint)
next
  fix x y :: u256
  assume "unat x + unat y < 2 ^ 256"
  then show "\<exists>z. uint256_add reference_num x y = Inr z"
    using ex_unat[where 'w = 256, of "unat x + unat y"]
    by (auto simp: reference_num_def result_simps)
next
  fix a b :: u128 and e
  assume "uint_add reference_num a b = Inl e"
  then show "e = Panic" by (auto simp: reference_num_def prim_add_def split: if_splits)
qed (auto simp: reference_num_def result_simps fit_scaled_mul fit_scaled_ratio fit_uint
       unat_ucast_256 unat_eq_sub_iff unat_gt_0)

end
