(* ===== verification/Cosmwasm.thy ===== *)
theory Cosmwasm
  imports Numbers
begin

text \<open>
  The data of \<^verbatim>\<open>cosmwasm_std\<close> and \<^verbatim>\<open>cw20\<close> that the contracts read and build: coins, the
  call environment, delegations as the staking module reports them, the messages a handler
  returns for the chain to execute, and the response that carries them. A message to
  another contract holds the typed message value, before its JSON serialization; an
  attribute holds the value that the source formats into a string.
\<close>

section \<open>Call context\<close>

record coin =
  coin_denom :: string
  coin_amount :: u128

record env =
  block_seconds :: u64
  contract_address :: addr

record message_info =
  info_sender :: addr
  info_funds :: "coin list"

section \<open>Staking data\<close>

record delegation =
  delegation_validator :: string
  delegation_coin :: coin

record full_delegation =
  full_validator :: string
  full_amount :: coin
  full_can_redelegate :: coin

section \<open>Messages and responses\<close>

datatype 'p cosmos_msg =
    WasmExecute (wasm_contract: addr) (wasm_payload: 'p) (wasm_funds: "coin list")
  | Delegate string coin
  | Undelegate string coin
  | Redelegate string string coin
  | BankSend string "coin list"
  | WithdrawDelegatorReward string
  | SetWithdrawAddress string

datatype attr_value = AttrStr string | AttrUint u128 | AttrDecimal decimal | AttrCoin coin

record 'p response =
  messages :: "'p cosmos_msg list"
  attributes :: "(string \<times> attr_value) list"

definition new_response :: "'p response" where
  "new_response = \<lparr>messages = [], attributes = []\<rparr>"

definition add_messages :: "'p cosmos_msg list \<Rightarrow> 'p response \<Rightarrow> 'p response" where
  "add_messages ms r = r\<lparr>messages := messages r @ ms\<rparr>"

definition add_attributes :: "(string \<times> attr_value) list \<Rightarrow> 'p response \<Rightarrow> 'p response" where
  "add_attributes xs r = r\<lparr>attributes := attributes r @ xs\<rparr>"

lemma response_simps [simp]:
  "messages (new_response :: 'p response) = []"
  "attributes (new_response :: 'p response) = []"
  "messages (add_messages ms r) = messages r @ ms"
  "attributes (add_messages ms r) = attributes r"
  "messages (add_attributes xs r) = messages r"
  "attributes (add_attributes xs r) = attributes r @ xs"
  by (simp_all add: new_response_def add_messages_def add_attributes_def)

end
