(* ===== verification/Basset.thy ===== *)
theory Basset
  imports Cosmwasm
begin

text \<open>
  The shared package \<^verbatim>\<open>packages/basset\<close> (\<open>hub.rs\<close>): the hub's stored data, its messages and the
  exchange-rate rule; the message types of the rewards dispatcher, the token and the
  registry, so that each contract can address the others; and \<open>deps\<close>, what a handler is
  given besides its own storage.
\<close>

section \<open>Validators, as the registry reports them\<close>

record validator_response =
  total_delegated :: u128
  validator_address :: string

datatype validator = Validator (registered_address: string)

section \<open>Data of the hub\<close>

datatype bond_type = StAtom | BondRewards

record hub_state =
  total_statom_issued :: u128
  statom_exchange_rate :: decimal
  total_bond_statom_amount :: u128
  prev_hub_balance :: u128
  last_unbonded_time :: u64
  last_processed_batch :: u64

record hub_config =
  creator :: addr
  reward_dispatcher_contract :: "addr option"
  validators_registry_contract :: "addr option"
  statom_token_contract :: "addr option"

record parameters =
  epoch_period :: u64
  underlying_coin_denom :: string
  unbonding_period :: u64
  paused :: "bool option"

record current_batch =
  current_id :: u64
  requested_statom :: u128

record unbond_history =
  batch_id :: u64
  history_time :: u64
  statom_amount :: u128
  statom_applied_exchange_rate :: decimal
  statom_withdraw_rate :: decimal
  released :: bool

record unbond_wait_entity =
  wait_amount :: u128

section \<open>Messages\<close>

record hub_instantiate_msg =
  init_epoch_period :: u64
  init_underlying_coin_denom :: string
  init_unbonding_period :: u64

datatype cw20_hook_msg = Unbond

record cw20_receive_msg =
  cw20_sender :: string
  cw20_amount :: u128
  cw20_msg :: bytes

datatype hub_execute_msg =
    UpdateConfig "string option" "string option" "string option" "string option"
  | UpdateParams "u64 option" "u64 option"
  | PauseContracts
  | UnpauseContracts
  | BondForStAtom
  | BondRewards
  | DispatchRewards
  | WithdrawUnbonded
  | CheckSlashing
  | Receive cw20_receive_msg
  | RedelegateProxy string "(string \<times> coin) list"
  | AddGuardians "string list"
  | RemoveGuardians "string list"

datatype hub_query_msg =
    QueryConfig
  | QueryState
  | QueryCurrentBatch
  | QueryWithdrawableUnbonded string
  | QueryParameters
  | QueryUnbondRequests string
  | QueryAllHistory "u64 option" "u32 option"
  | QueryGuardians

datatype dispatcher_execute_msg =
    DispatcherUpdateConfig "string option" "string option" "string option" "string option"
      "decimal option"
  | DispatcherDispatchRewards

datatype registry_execute_msg =
    AddValidator validator
  | RemoveValidator string
  | RegistryUpdateConfig "string option" "string option"

datatype expiration = AtHeight u64 | AtTime u64 | Never

datatype embedded_logo = Svg bytes | Png bytes

datatype logo = Url string | Embedded embedded_logo

datatype cw20_execute =
    Transfer string u128
  | Burn u128
  | Send string u128 bytes
  | Mint string u128
  | IncreaseAllowance string u128 "expiration option"
  | DecreaseAllowance string u128 "expiration option"
  | TransferFrom string string u128
  | BurnFrom string u128
  | SendFrom string string u128 bytes
  | UpdateMarketing "string option" "string option" "string option"
  | UploadLogo logo

datatype payload =
    HubMsg hub_execute_msg
  | DispatcherMsg dispatcher_execute_msg
  | RegistryMsg registry_execute_msg
  | TokenMsg cw20_execute

section \<open>What a handler is given\<close>

text \<open>
  \<open>api\<close>: address validation and the decoding of bytes the contracts receive or store: the
  hook message inside a cw20 \<open>Receive\<close>, and the JSON form of a batch number, which keys the
  wait list. \<open>querier\<close>: the answers of the chain and of other contracts at the time of the call.
\<close>

record api_lib =
  addr_validate :: "string \<Rightarrow> addr result"
  hook_from_binary :: "bytes \<Rightarrow> cw20_hook_msg result"
  batch_to_vec :: "u64 \<Rightarrow> bytes"
  batch_from_slice :: "bytes \<Rightarrow> u64 result"

record querier_lib =
  query_all_delegations :: "addr \<Rightarrow> delegation list result"
  query_delegation :: "addr \<Rightarrow> string \<Rightarrow> full_delegation option result"
  query_balance :: "addr \<Rightarrow> string \<Rightarrow> coin result"
  query_token_supply :: "addr \<Rightarrow> u128 result"
  query_validators_for_delegation :: "addr \<Rightarrow> validator_response list result"
  query_hub_parameters :: "addr \<Rightarrow> parameters result"

record deps =
  numbers :: num_lib
  api :: api_lib
  querier :: querier_lib

text \<open>What the wait list relies on: a stored batch number is read back unchanged.\<close>

locale codec_laws =
  fixes A :: api_lib
  assumes batch_roundtrip: "batch_from_slice A (batch_to_vec A b) = Inr b"
begin

lemma batch_to_vec_inject [simp]: "batch_to_vec A b = batch_to_vec A b' \<longleftrightarrow> b = b'"
  by (metis batch_roundtrip sum.inject(2))

end

section \<open>Operations of the package\<close>

definition update_statom_exchange_rate ::
  "num_lib \<Rightarrow> u128 \<Rightarrow> u128 \<Rightarrow> hub_state \<Rightarrow> hub_state result" where
  "update_statom_exchange_rate L total_issued requested st =
     and_then (uint_add L total_issued requested) (\<lambda>actual_supply.
     if total_bond_statom_amount st = 0 \<or> actual_supply = 0
     then Inr (st\<lparr>statom_exchange_rate := decimal_one\<rparr>)
     else and_then (decimal_from_ratio L (total_bond_statom_amount st) actual_supply) (\<lambda>r.
       Inr (st\<lparr>statom_exchange_rate := r\<rparr>)))"

definition is_paused :: "deps \<Rightarrow> addr \<Rightarrow> bool result" where
  "is_paused D hub_addr =
     and_then (query_hub_parameters (querier D) hub_addr) (\<lambda>params.
     Inr (case paused params of None \<Rightarrow> False | Some b \<Rightarrow> b))"

text \<open>What the rate is: one while nothing is bonded or issued, else the bonded amount per token.\<close>

definition rate_spec :: "nat \<Rightarrow> nat \<Rightarrow> nat" where
  "rate_spec bonded supply =
     (if bonded = 0 \<or> supply = 0 then fractional else bonded * fractional div supply)"

context decimal_laws
begin

lemma update_rate:
  assumes "update_statom_exchange_rate L issued requested st = Inr st'"
  obtains r where "st' = st\<lparr>statom_exchange_rate := r\<rparr>"
    and "unat (atomics r) = rate_spec (unat (total_bond_statom_amount st)) (unat issued + unat requested)"
proof -
  obtain actual where actual: "unat actual = unat issued + unat requested"
    and upd: "(if total_bond_statom_amount st = 0 \<or> actual = 0
      then Inr (st\<lparr>statom_exchange_rate := decimal_one\<rparr>)
      else and_then (decimal_from_ratio L (total_bond_statom_amount st) actual) (\<lambda>r.
        Inr (st\<lparr>statom_exchange_rate := r\<rparr>))) = Inr st'"
    using assms by (auto simp: update_statom_exchange_rate_def result_simps uint_add_Inr)
  show thesis
  proof (cases "total_bond_statom_amount st = 0 \<or> actual = 0")
    case True
    then have "unat (total_bond_statom_amount st) = 0 \<or> unat issued + unat requested = 0"
      using actual by (auto simp: unsigned_eq_0_iff)
    with True upd that[of decimal_one] show ?thesis
      by (auto simp: rate_spec_def decimal_one_def)
  next
    case False
    then obtain r where r: "decimal_from_ratio L (total_bond_statom_amount st) actual = Inr r"
      and st': "st' = st\<lparr>statom_exchange_rate := r\<rparr>"
      using upd by (auto simp: result_simps)
    from False have "unat (total_bond_statom_amount st) \<noteq> 0" "unat actual \<noteq> 0"
      by (auto simp: unsigned_eq_0_iff)
    then show ?thesis
      using that[OF st'] from_ratio_sound[OF r] actual by (simp add: rate_spec_def)
  qed
qed

end

section \<open>A reference codec\<close>

text \<open>
  JSON numbers are decimal digits. \<open>reference_api\<close> renders a batch number so, and reads it
  back; a \<open>u64\<close> has at most 20 digits.
\<close>

definition digit_byte :: "int \<Rightarrow> u8" where
  "digit_byte d = word_of_int (48 + d)"

fun decimal_digits :: "nat \<Rightarrow> int \<Rightarrow> bytes" where
  "decimal_digits 0 n = []"
| "decimal_digits (Suc k) n =
     (if n < 10 then [digit_byte n]
      else decimal_digits k (n div 10) @ [digit_byte (n mod 10)])"

definition digits_value :: "bytes \<Rightarrow> int" where
  "digits_value bs = foldl (\<lambda>acc b. acc * 10 + (uint b - 48)) 0 bs"

definition reference_api :: api_lib where
  "reference_api = \<lparr>
     addr_validate = Inr,
     hook_from_binary = (\<lambda>bs. if bs = [] then Inl (StdErr ParseErr) else Inr Unbond),
     batch_to_vec = (\<lambda>b. decimal_digits 20 (uint b)),
     batch_from_slice = (\<lambda>bs. if bs \<noteq> [] \<and> digits_value bs < 2 ^ 64
       then Inr (word_of_int (digits_value bs)) else Inl (StdErr ParseErr))\<rparr>"

lemma uint_digit: "0 \<le> d \<Longrightarrow> d < 10 \<Longrightarrow> uint (digit_byte d) = 48 + d"
  unfolding digit_byte_def uint_word_of_int by simp

lemma digits_value_digits:
  "0 \<le> n \<Longrightarrow> n < 10 ^ k \<Longrightarrow> digits_value (decimal_digits k n) = n"
proof (induction k n rule: decimal_digits.induct)
  case (2 k n)
  show ?case
  proof (cases "n < 10")
    case True
    with 2 show ?thesis by (simp add: digits_value_def uint_digit)
  next
    case False
    have "n < 10 * 10 ^ k" using 2 by simp
    then have "n div 10 < 10 ^ k" by linarith
    with False 2 have IH: "digits_value (decimal_digits k (n div 10)) = n div 10" by simp
    have "digits_value (decimal_digits (Suc k) n)
        = digits_value (decimal_digits k (n div 10)) * 10 + n mod 10"
      using False by (simp add: digits_value_def uint_digit)
    then show ?thesis by (simp add: IH)
  qed
qed (simp add: digits_value_def)

interpretation reference_codec: codec_laws reference_api
proof
  fix b :: u64
  have "uint b < 2 ^ 64" using uint_bounded[of b] by simp
  moreover have "uint b < 10 ^ 20" by (rule order_less_trans[OF calculation]) simp
  ultimately have "digits_value (decimal_digits 20 (uint b)) = uint b"
    by (simp add: digits_value_digits)
  moreover have "decimal_digits 20 (uint b) \<noteq> []" by (simp add: numeral_eq_Suc)
  ultimately show "batch_from_slice reference_api (batch_to_vec reference_api b) = Inr b"
    using \<open>uint b < 2 ^ 64\<close> by (simp add: reference_api_def)
qed

text \<open>
  Deps with the reference libraries, and a querier with fixed answers: delegations, the one
  delegation asked for, the balance, the token supply, the registry's list and the parameters.
\<close>

definition reference_deps :: "querier_lib \<Rightarrow> deps" where
  "reference_deps Q = \<lparr>numbers = reference_num, api = reference_api, querier = Q\<rparr>"

definition fixed_querier ::
  "delegation list \<Rightarrow> full_delegation option \<Rightarrow> coin \<Rightarrow> u128 \<Rightarrow> validator_response list \<Rightarrow> parameters
    \<Rightarrow> querier_lib" where
  "fixed_querier ds d balance supply validators params = \<lparr>
     query_all_delegations = (\<lambda>_. Inr ds),
     query_delegation = (\<lambda>_ _. Inr d),
     query_balance = (\<lambda>_ _. Inr balance),
     query_token_supply = (\<lambda>_. Inr supply),
     query_validators_for_delegation = (\<lambda>_. Inr validators),
     query_hub_parameters = (\<lambda>_. Inr params)\<rparr>"

definition uatom :: "u128 \<Rightarrow> coin" where
  "uatom n = \<lparr>coin_denom = ''uatom'', coin_amount = n\<rparr>"

definition sample_parameters :: parameters where
  "sample_parameters = \<lparr>epoch_period = 30, underlying_coin_denom = ''uatom'',
     unbonding_period = 10, paused = Some False\<rparr>"

lemma reference_deps_simps [simp]:
  "numbers (reference_deps Q) = reference_num"
  "api (reference_deps Q) = reference_api"
  "querier (reference_deps Q) = Q"
  by (simp_all add: reference_deps_def)

end
