(* ===== verification/Hub_State.thy ===== *)
theory Hub_State
  imports Basset
begin

text \<open>
  The hub's storage (\<^verbatim>\<open>lido_cosmos_hub/src/state.rs\<close>): the four items, the guardians, the wait
  list of unbond requests and the history of unbonding batches, with their access functions.
  The wait list is one namespace per user; a request is keyed by the JSON form of its batch
  number, so a user's requests are enumerated in the byte order of that form. The history is
  keyed by the big-endian batch number. Both namespaces are ordered key-value lists.
\<close>

section \<open>State\<close>

record hub_store =
  config_item :: "hub_config option"
  parameters_item :: "parameters option"
  current_batch_item :: "current_batch option"
  state_item :: "hub_state option"
  guardians :: "(string \<times> bool) list"
  wait_list :: "((string \<times> bytes) \<times> unbond_wait_entity) list"
  unbond_histories :: "(bytes \<times> unbond_history) list"

definition empty_hub :: hub_store where
  "empty_hub = \<lparr>config_item = None, parameters_item = None, current_batch_item = None,
     state_item = None, guardians = [], wait_list = [], unbond_histories = []\<rparr>"

section \<open>Items\<close>

definition load_config :: "hub_store \<Rightarrow> hub_config result" where
  "load_config s = ok_or (config_item s) (StdErr NotFound)"

definition save_config :: "hub_config \<Rightarrow> hub_store \<Rightarrow> hub_store" where
  "save_config c s = s\<lparr>config_item := Some c\<rparr>"

definition load_parameters :: "hub_store \<Rightarrow> parameters result" where
  "load_parameters s = ok_or (parameters_item s) (StdErr NotFound)"

definition save_parameters :: "parameters \<Rightarrow> hub_store \<Rightarrow> hub_store" where
  "save_parameters p s = s\<lparr>parameters_item := Some p\<rparr>"

definition load_current_batch :: "hub_store \<Rightarrow> current_batch result" where
  "load_current_batch s = ok_or (current_batch_item s) (StdErr NotFound)"

definition save_current_batch :: "current_batch \<Rightarrow> hub_store \<Rightarrow> hub_store" where
  "save_current_batch b s = s\<lparr>current_batch_item := Some b\<rparr>"

text \<open>
  \<open>total_statom_issued\<close> is marked \<open>serde(skip_serializing, skip_deserializing)\<close>: it is not stored,
  and a loaded state has the default zero.
\<close>

definition load_state :: "hub_store \<Rightarrow> hub_state result" where
  "load_state s = ok_or (state_item s) (StdErr NotFound)"

definition save_state :: "hub_state \<Rightarrow> hub_store \<Rightarrow> hub_store" where
  "save_state st s = s\<lparr>state_item := Some (st\<lparr>total_statom_issued := 0\<rparr>)\<rparr>"

definition is_hub_paused :: "parameters \<Rightarrow> bool" where
  "is_hub_paused p = (case paused p of None \<Rightarrow> False | Some b \<Rightarrow> b)"

section \<open>Unbond history\<close>

definition store_unbond_history :: "u64 \<Rightarrow> unbond_history \<Rightarrow> hub_store \<Rightarrow> hub_store" where
  "store_unbond_history i h s =
     s\<lparr>unbond_histories := kv_set (u64_be_bytes i) h (unbond_histories s)\<rparr>"

definition read_unbond_history :: "hub_store \<Rightarrow> u64 \<Rightarrow> unbond_history result" where
  "read_unbond_history s epoch_id =
     ok_or (kv_get (unbond_histories s) (u64_be_bytes epoch_id))
       (StdErr (GenericErr ''Burn requests not found for the specified time period''))"

definition max_limit :: u32 where
  "max_limit = 100"

definition default_limit :: u32 where
  "default_limit = 10"

definition convert :: "u64 option \<Rightarrow> bytes option" where
  "convert start_after = map_option (\<lambda>idx. u64_be_bytes idx @ [1]) start_after"

definition all_unbond_history :: "hub_store \<Rightarrow> u64 option \<Rightarrow> u32 option \<Rightarrow> unbond_history list" where
  "all_unbond_history s start limit =
     (let from_key = convert start;
          lim = min (case limit of None \<Rightarrow> default_limit | Some l \<Rightarrow> l) max_limit in
      take (nat (uint lim)) (map snd
        (filter (\<lambda>e. case from_key of None \<Rightarrow> True | Some k \<Rightarrow> k \<le> fst e) (unbond_histories s))))"

section \<open>Wait list\<close>

definition store_unbond_wait_list ::
  "deps \<Rightarrow> u64 \<Rightarrow> string \<Rightarrow> u128 \<Rightarrow> hub_store \<Rightarrow> hub_store result" where
  "store_unbond_wait_list D batch sender_address amount s =
     (let key = (sender_address, batch_to_vec (api D) batch);
          wl = (case kv_get (wait_list s) key of None \<Rightarrow> \<lparr>wait_amount = 0\<rparr> | Some w \<Rightarrow> w) in
      and_then (uint_add (numbers D) (wait_amount wl) amount) (\<lambda>new_amount.
      Inr (s\<lparr>wait_list := kv_set key (wl\<lparr>wait_amount := new_amount\<rparr>) (wait_list s)\<rparr>)))"

definition remove_unbond_wait_list :: "deps \<Rightarrow> u64 list \<Rightarrow> string \<Rightarrow> hub_store \<Rightarrow> hub_store" where
  "remove_unbond_wait_list D batches sender_address s =
     foldl (\<lambda>s' b. s'\<lparr>wait_list := kv_remove (sender_address, batch_to_vec (api D) b) (wait_list s')\<rparr>)
       s batches"

definition read_unbond_wait_list :: "deps \<Rightarrow> u64 \<Rightarrow> string \<Rightarrow> hub_store \<Rightarrow> unbond_wait_entity result"
  where
  "read_unbond_wait_list D batch sender_addr s =
     ok_or (kv_get (wait_list s) (sender_addr, batch_to_vec (api D) batch)) (StdErr NotFound)"

text \<open>One user's namespace, in key order.\<close>

definition wait_bucket :: "hub_store \<Rightarrow> string \<Rightarrow> (bytes \<times> unbond_wait_entity) list" where
  "wait_bucket s user =
     map (\<lambda>e. (snd (fst e), snd e)) (filter (\<lambda>e. fst (fst e) = user) (wait_list s))"

fun unbond_requests_loop ::
  "deps \<Rightarrow> (bytes \<times> unbond_wait_entity) list \<Rightarrow> (u64 \<times> u128) list \<Rightarrow> (u64 \<times> u128) list result"
  where
  "unbond_requests_loop D [] requests = Inr requests"
| "unbond_requests_loop D ((k, v) # items) requests =
     and_then (batch_from_slice (api D) k) (\<lambda>user_batch.
     unbond_requests_loop D items (requests @ [(user_batch, wait_amount v)]))"

definition get_unbond_requests :: "deps \<Rightarrow> string \<Rightarrow> hub_store \<Rightarrow> (u64 \<times> u128) list result" where
  "get_unbond_requests D sender_addr s = unbond_requests_loop D (wait_bucket s sender_addr) []"

fun finished_amount_loop ::
  "deps \<Rightarrow> hub_store \<Rightarrow> (bytes \<times> unbond_wait_entity) list \<Rightarrow> u128 \<Rightarrow> u64 list
    \<Rightarrow> (u128 \<times> u64 list) result" where
  "finished_amount_loop D s [] withdrawable_amount deprecated_batches =
     Inr (withdrawable_amount, deprecated_batches)"
| "finished_amount_loop D s ((k, v) # items) withdrawable_amount deprecated_batches =
     and_then (batch_from_slice (api D) k) (\<lambda>user_batch.
     case read_unbond_history s user_batch of
       Inl _ \<Rightarrow> finished_amount_loop D s items withdrawable_amount deprecated_batches
     | Inr h \<Rightarrow>
         if released h then
           and_then (uint_mul_decimal (numbers D) (wait_amount v) (statom_withdraw_rate h)) (\<lambda>x.
           and_then (uint_add (numbers D) withdrawable_amount x) (\<lambda>withdrawable_amount'.
           finished_amount_loop D s items withdrawable_amount' (deprecated_batches @ [user_batch])))
         else finished_amount_loop D s items withdrawable_amount deprecated_batches)"

definition get_finished_amount :: "deps \<Rightarrow> string \<Rightarrow> hub_store \<Rightarrow> (u128 \<times> u64 list) result" where
  "get_finished_amount D sender_addr s = finished_amount_loop D s (wait_bucket s sender_addr) 0 []"

fun query_finished_loop ::
  "deps \<Rightarrow> hub_store \<Rightarrow> u64 \<Rightarrow> (bytes \<times> unbond_wait_entity) list \<Rightarrow> u128 \<Rightarrow> u128 result" where
  "query_finished_loop D s block_time [] withdrawable_amount = Inr withdrawable_amount"
| "query_finished_loop D s block_time ((k, v) # items) withdrawable_amount =
     and_then (batch_from_slice (api D) k) (\<lambda>user_batch.
     case read_unbond_history s user_batch of
       Inl _ \<Rightarrow> query_finished_loop D s block_time items withdrawable_amount
     | Inr h \<Rightarrow>
         if history_time h < block_time then
           and_then (uint_mul_decimal (numbers D) (wait_amount v) (statom_withdraw_rate h)) (\<lambda>x.
           and_then (uint_add (numbers D) withdrawable_amount x) (\<lambda>withdrawable_amount'.
           query_finished_loop D s block_time items withdrawable_amount'))
         else query_finished_loop D s block_time items withdrawable_amount)"

definition query_get_finished_amount :: "deps \<Rightarrow> string \<Rightarrow> u64 \<Rightarrow> hub_store \<Rightarrow> u128 result" where
  "query_get_finished_amount D sender_addr block_time s =
     query_finished_loop D s block_time (wait_bucket s sender_addr) 0"

lemmas [load_defs] = load_config_def load_parameters_def load_current_batch_def load_state_def

lemma save_state_twice [simp]:
  "save_state x (save_state y s) = save_state x s"
  "save_state (x\<lparr>total_statom_issued := n\<rparr>) s = save_state x s"
  by (simp_all add: save_state_def)

lemma load_saved_state [simp]: "load_state (save_state st s) = Inr (st\<lparr>total_statom_issued := 0\<rparr>)"
  by (simp add: load_state_def save_state_def)

end
