(* ===== verification/Hub_Admin.thy ===== *)
theory Hub_Admin
  imports Hub_State
begin

text \<open>
  The hub's administration (\<^verbatim>\<open>lido_cosmos_hub/src/contract.rs\<close> and \<^verbatim>\<open>config.rs\<close>): instantiation,
  parameters and configuration, guardians, pausing, the redelegation proxy and the dispatch
  of staking rewards.
\<close>

section \<open>Instantiation\<close>

definition hub_instantiate ::
  "env \<Rightarrow> message_info \<Rightarrow> hub_instantiate_msg \<Rightarrow> hub_store \<Rightarrow> (payload response \<times> hub_store) result"
  where
  "hub_instantiate env info msg s =
     (let s1 = save_config \<lparr>creator = info_sender info, reward_dispatcher_contract = None,
                 validators_registry_contract = None, statom_token_contract = None\<rparr> s;
          s2 = save_state \<lparr>total_statom_issued = 0, statom_exchange_rate = decimal_one,
                 total_bond_statom_amount = 0, prev_hub_balance = 0,
                 last_unbonded_time = block_seconds env, last_processed_batch = 0\<rparr> s1;
          s3 = save_parameters \<lparr>epoch_period = init_epoch_period msg,
                 underlying_coin_denom = init_underlying_coin_denom msg,
                 unbonding_period = init_unbonding_period msg, paused = Some False\<rparr> s2;
          s4 = save_current_batch \<lparr>current_id = 1, requested_statom = 0\<rparr> s3 in
      Inr (new_response, s4))"

section \<open>Guardians and pausing\<close>

definition execute_add_guardians ::
  "message_info \<Rightarrow> string list \<Rightarrow> hub_store \<Rightarrow> (payload response \<times> hub_store) result" where
  "execute_add_guardians info addresses s =
     and_then (load_config s) (\<lambda>config.
     if info_sender info \<noteq> creator config then generic_err ''unauthorized''
     else
       let s1 = foldl (\<lambda>s' g. s'\<lparr>guardians := kv_set g True (guardians s')\<rparr>) s addresses in
       Inr (add_attributes (map (\<lambda>g. (''address'', AttrStr g)) addresses)
              (add_attributes [(''action'', AttrStr ''add_guardians'')] new_response), s1))"

definition execute_remove_guardians ::
  "message_info \<Rightarrow> string list \<Rightarrow> hub_store \<Rightarrow> (payload response \<times> hub_store) result" where
  "execute_remove_guardians info addresses s =
     and_then (load_config s) (\<lambda>config.
     if info_sender info \<noteq> creator config then generic_err ''unauthorized''
     else
       let s1 = foldl (\<lambda>s' g. s'\<lparr>guardians := kv_remove g (guardians s')\<rparr>) s addresses in
       Inr (add_attributes (map (\<lambda>g. (''value'', AttrStr g)) addresses)
              (add_attributes [(''action'', AttrStr ''remove_guardians'')] new_response), s1))"

definition execute_pause_contracts ::
  "message_info \<Rightarrow> hub_store \<Rightarrow> (payload response \<times> hub_store) result" where
  "execute_pause_contracts info s =
     and_then (load_config s) (\<lambda>config.
     if \<not> (info_sender info = creator config \<or> kv_get (guardians s) (info_sender info) \<noteq> None)
     then generic_err ''unauthorized''
     else
       and_then (load_parameters s) (\<lambda>params.
       Inr (add_attributes [(''action'', AttrStr ''pause_contracts'')] new_response,
            save_parameters (params\<lparr>paused := Some True\<rparr>) s)))"

definition execute_unpause_contracts ::
  "message_info \<Rightarrow> hub_store \<Rightarrow> (payload response \<times> hub_store) result" where
  "execute_unpause_contracts info s =
     and_then (load_config s) (\<lambda>config.
     if info_sender info \<noteq> creator config then generic_err ''unauthorized''
     else
       and_then (load_parameters s) (\<lambda>params.
       Inr (add_attributes [(''action'', AttrStr ''unpause_contracts'')] new_response,
            save_parameters (params\<lparr>paused := Some False\<rparr>) s)))"

section \<open>Parameters and configuration\<close>

definition execute_update_params ::
  "message_info \<Rightarrow> u64 option \<Rightarrow> u64 option \<Rightarrow> hub_store \<Rightarrow> (payload response \<times> hub_store) result"
  where
  "execute_update_params info new_epoch_period new_unbonding_period s =
     and_then (load_config s) (\<lambda>config.
     if info_sender info \<noteq> creator config then generic_err ''unauthorized''
     else
       and_then (load_parameters s) (\<lambda>params.
       let new_params = \<lparr>
             epoch_period = (case new_epoch_period of None \<Rightarrow> epoch_period params | Some e \<Rightarrow> e),
             underlying_coin_denom = underlying_coin_denom params,
             unbonding_period =
               (case new_unbonding_period of None \<Rightarrow> unbonding_period params | Some u \<Rightarrow> u),
             paused = paused params\<rparr> in
       Inr (add_attributes [(''action'', AttrStr ''update_params'')] new_response,
            save_parameters new_params s)))"

text \<open>
  The four optional updates in the source's order; each reads the configuration as the
  previous ones left it.
\<close>

definition update_owner :: "deps \<Rightarrow> string option \<Rightarrow> hub_store \<Rightarrow> hub_store result" where
  "update_owner D owner s =
     (case owner of
        None \<Rightarrow> Inr s
      | Some new_owner \<Rightarrow>
          and_then (addr_validate (api D) new_owner) (\<lambda>owner_raw.
          and_then (load_config s) (\<lambda>last_config.
          Inr (save_config (last_config\<lparr>creator := owner_raw\<rparr>) s))))"

definition update_dispatcher ::
  "deps \<Rightarrow> string option \<Rightarrow> hub_store \<Rightarrow> (payload cosmos_msg list \<times> hub_store) result" where
  "update_dispatcher D dispatcher s =
     (case dispatcher of
        None \<Rightarrow> Inr ([], s)
      | Some reward \<Rightarrow>
          and_then (addr_validate (api D) reward) (\<lambda>reward_raw.
          and_then (load_config s) (\<lambda>last_config.
          Inr ([SetWithdrawAddress reward],
               save_config (last_config\<lparr>reward_dispatcher_contract := Some reward_raw\<rparr>) s))))"

definition update_token :: "deps \<Rightarrow> string option \<Rightarrow> hub_store \<Rightarrow> hub_store result" where
  "update_token D token_contract s =
     (case token_contract of
        None \<Rightarrow> Inr s
      | Some token \<Rightarrow>
          and_then (addr_validate (api D) token) (\<lambda>token_raw.
          and_then (load_config s) (\<lambda>last_config.
          if statom_token_contract last_config \<noteq> None
          then generic_err ''updating stAtom token address is forbidden''
          else Inr (save_config (last_config\<lparr>statom_token_contract := Some token_raw\<rparr>) s))))"

definition update_registry :: "deps \<Rightarrow> string option \<Rightarrow> hub_store \<Rightarrow> hub_store result" where
  "update_registry D registry s =
     (case registry of
        None \<Rightarrow> Inr s
      | Some validators \<Rightarrow>
          and_then (addr_validate (api D) validators) (\<lambda>validators_raw.
          and_then (load_config s) (\<lambda>last_config.
          Inr (save_config (last_config\<lparr>validators_registry_contract := Some validators_raw\<rparr>) s))))"

definition execute_update_config ::
  "deps \<Rightarrow> message_info \<Rightarrow> string option \<Rightarrow> string option \<Rightarrow> string option \<Rightarrow> string option
    \<Rightarrow> hub_store \<Rightarrow> (payload response \<times> hub_store) result" where
  "execute_update_config D info owner dispatcher token registry s =
     and_then (load_config s) (\<lambda>conf.
     if info_sender info \<noteq> creator conf then generic_err ''unauthorized''
     else
       and_then (update_owner D owner s) (\<lambda>s1.
       and_then (update_dispatcher D dispatcher s1) (\<lambda>(ms, s2).
       and_then (update_token D token s2) (\<lambda>s3.
       and_then (update_registry D registry s3) (\<lambda>s4.
       Inr (add_attributes [(''action'', AttrStr ''update_config'')] (add_messages ms new_response),
            s4))))))"

section \<open>Redelegation proxy and rewards\<close>

definition execute_redelegate_proxy ::
  "message_info \<Rightarrow> string \<Rightarrow> (string \<times> coin) list \<Rightarrow> hub_store \<Rightarrow> (payload response \<times> hub_store) result"
  where
  "execute_redelegate_proxy info src_validator redelegations s =
     and_then (load_config s) (\<lambda>conf.
     and_then (ok_or (validators_registry_contract conf)
         (StdErr (GenericErr ''the validator registry contract must have been registered'')))
       (\<lambda>registry.
     if \<not> (info_sender info = registry \<or> info_sender info = creator conf)
     then generic_err ''unauthorized''
     else Inr (add_messages (map (\<lambda>(dst, c). Redelegate src_validator dst c) redelegations)
                 new_response, s)))"

definition withdraw_all_rewards :: "deps \<Rightarrow> addr \<Rightarrow> payload cosmos_msg list result" where
  "withdraw_all_rewards D delegator =
     and_then (query_all_delegations (querier D) delegator) (\<lambda>delegations.
     Inr (map (\<lambda>d. WithdrawDelegatorReward (delegation_validator d)) delegations))"

definition execute_dispatch_rewards ::
  "deps \<Rightarrow> env \<Rightarrow> hub_store \<Rightarrow> (payload response \<times> hub_store) result" where
  "execute_dispatch_rewards D env s =
     and_then (load_parameters s) (\<lambda>params.
     if is_hub_paused params then generic_err ''the contract is temporarily paused''
     else
       and_then (load_config s) (\<lambda>config.
       and_then (ok_or (reward_dispatcher_contract config)
           (StdErr (GenericErr ''the reward contract must have been registered''))) (\<lambda>dispatcher.
       and_then (withdraw_all_rewards D (contract_address env)) (\<lambda>withdraw_msgs.
       Inr (add_attributes [(''action'', AttrStr ''dispatch_rewards'')]
              (add_messages (withdraw_msgs @
                 [WasmExecute dispatcher (DispatcherMsg DispatcherDispatchRewards) []]) new_response),
            s)))))"

end
