(* ===== verification/Hub_Samples.thy ===== *)
theory Hub_Samples
  imports Hub_State
begin

text \<open>
  A hub in the middle of its life, on which the properties are applied at concrete inputs: one
  batch has been undelegated (10 stAtom of bob, at rate 1, at time 140), another is being
  collected (5 stAtom of ann), and 100 uatom are accounted as bonded. The chain reports 95
  of them (5 were slashed) and the token an issued total of 85.
\<close>

definition sample_config :: hub_config where
  "sample_config = \<lparr>creator = ''owner'', reward_dispatcher_contract = Some ''disp'',
     validators_registry_contract = Some ''reg'', statom_token_contract = Some ''tok''\<rparr>"

definition sample_state :: hub_state where
  "sample_state = \<lparr>total_statom_issued = 0, statom_exchange_rate = decimal_one,
     total_bond_statom_amount = 100, prev_hub_balance = 0, last_unbonded_time = 140,
     last_processed_batch = 0\<rparr>"

definition sample_history :: unbond_history where
  "sample_history = \<lparr>batch_id = 1, history_time = 140, statom_amount = 10,
     statom_applied_exchange_rate = decimal_one, statom_withdraw_rate = decimal_one,
     released = False\<rparr>"

definition sample_hub :: hub_store where
  "sample_hub = \<lparr>
     config_item = Some sample_config,
     parameters_item = Some sample_parameters,
     current_batch_item = Some \<lparr>current_id = 2, requested_statom = 5\<rparr>,
     state_item = Some sample_state,
     guardians = [(''guard'', True)],
     wait_list = [((''ann'', decimal_digits 20 2), \<lparr>wait_amount = 5\<rparr>),
                  ((''bob'', decimal_digits 20 1), \<lparr>wait_amount = 10\<rparr>)],
     unbond_histories = [(u64_be_bytes 1, sample_history)]\<rparr>"

text \<open>The chain, with a given balance of the hub's account.\<close>

definition sample_deps :: "u128 \<Rightarrow> deps" where
  "sample_deps balance = reference_deps (fixed_querier
     [\<lparr>delegation_validator = ''a'', delegation_coin = uatom 60\<rparr>,
      \<lparr>delegation_validator = ''b'', delegation_coin = uatom 35\<rparr>]
     None (uatom balance) 85
     [\<lparr>total_delegated = 35, validator_address = ''b''\<rparr>,
      \<lparr>total_delegated = 60, validator_address = ''a''\<rparr>]
     sample_parameters)"

definition at_time :: "u64 \<Rightarrow> env" where
  "at_time t = \<lparr>block_seconds = t, contract_address = ''hub''\<rparr>"

definition call_from :: "addr \<Rightarrow> coin list \<Rightarrow> message_info" where
  "call_from a funds = \<lparr>info_sender = a, info_funds = funds\<rparr>"

lemma sample_deps_simps [simp]:
  "numbers (sample_deps b) = reference_num"
  "api (sample_deps b) = reference_api"
  by (simp_all add: sample_deps_def)

lemma isl_False_Inr: "isl r = False \<Longrightarrow> r = Inr (projr r)"
  by (cases r) auto

end
