(* ===== verification/Hub_Slashing.thy ===== *)
theory Hub_Slashing
  imports Hub_Samples
begin

text \<open>
  Accounting for slashing (\<^verbatim>\<open>lido_cosmos_hub/src/contract.rs\<close>): the state as it is when the
  delegations reported by the staking module are taken into account, with the exchange rate
  that follows; bonding, unbonding and the permissionless \<open>CheckSlashing\<close> store it.
\<close>

definition query_total_statom_issued :: "deps \<Rightarrow> hub_store \<Rightarrow> u128 result" where
  "query_total_statom_issued D s =
     and_then (load_config s) (\<lambda>config.
     and_then (ok_or (statom_token_contract config)
         (StdErr (GenericErr ''token contract must have been registered''))) (\<lambda>token_address.
     query_token_supply (querier D) token_address))"

fun actual_total_bonded :: "num_lib \<Rightarrow> string \<Rightarrow> delegation list \<Rightarrow> u128 \<Rightarrow> u128 result" where
  "actual_total_bonded L coin_den [] actual = Inr actual"
| "actual_total_bonded L coin_den (d # ds) actual =
     (if coin_denom (delegation_coin d) = coin_den
      then and_then (uint_add L actual (coin_amount (delegation_coin d))) (\<lambda>actual'.
             actual_total_bonded L coin_den ds actual')
      else actual_total_bonded L coin_den ds actual)"

definition query_actual_state :: "deps \<Rightarrow> env \<Rightarrow> hub_store \<Rightarrow> hub_state result" where
  "query_actual_state D env s =
     and_then (load_state s) (\<lambda>st.
     and_then (query_all_delegations (querier D) (contract_address env)) (\<lambda>delegations.
     if delegations = [] then Inr st
     else
       and_then (load_parameters s) (\<lambda>params.
       and_then (actual_total_bonded (numbers D) (underlying_coin_denom params) delegations 0)
         (\<lambda>actual.
       if total_bond_statom_amount st = 0 then Inr st
       else
         and_then (query_total_statom_issued D s) (\<lambda>issued.
         and_then (load_current_batch s) (\<lambda>batch.
         let st1 = st\<lparr>total_statom_issued := issued\<rparr>;
             st2 = (if total_bond_statom_amount st1 > actual
                    then st1\<lparr>total_bond_statom_amount := actual\<rparr> else st1) in
         update_statom_exchange_rate (numbers D) (total_statom_issued st2)
           (requested_statom batch) st2))))))"

text \<open>The returned state still holds the issued total; the stored one does not.\<close>

definition slashing :: "deps \<Rightarrow> env \<Rightarrow> hub_store \<Rightarrow> (hub_state \<times> hub_store) result" where
  "slashing D env s =
     and_then (query_actual_state D env s) (\<lambda>st.
     Inr (st, save_state st s))"

definition execute_slashing ::
  "deps \<Rightarrow> env \<Rightarrow> hub_store \<Rightarrow> (payload response \<times> hub_store) result" where
  "execute_slashing D env s =
     and_then (load_parameters s) (\<lambda>params.
     if is_hub_paused params then generic_err ''the contract is temporarily paused''
     else
       and_then (slashing D env s) (\<lambda>(st, s1).
       Inr (add_attributes [(''action'', AttrStr ''check_slashing''),
              (''new_statom_exchange_rate'', AttrDecimal (statom_exchange_rate st))] new_response,
            s1)))"

section \<open>What is accounted for\<close>

text \<open>What the staking module holds for the hub in the staked denomination.\<close>

definition bonded_in :: "string \<Rightarrow> delegation list \<Rightarrow> nat" where
  "bonded_in denom ds =
     total (map (\<lambda>d. coin_amount (delegation_coin d))
       (filter (\<lambda>d. coin_denom (delegation_coin d) = denom) ds))"

lemma slashing_store:
  "slashing D env s = Inr (st, s') \<Longrightarrow> query_actual_state D env s = Inr st \<and> s' = save_state st s"
  by (auto simp: slashing_def result_simps)

context decimal_laws
begin

lemma actual_total_bonded_value:
  "actual_total_bonded L denom ds acc = Inr n \<Longrightarrow> unat n = unat acc + bonded_in denom ds"
  by (induction ds arbitrary: acc)
    (auto simp: bonded_in_def result_simps uint_add_Inr split: if_splits)

lemma actual_state:
  assumes "numbers D = L" and "query_actual_state D env s = Inr st"
    and "load_state s = Inr st0" and "query_all_delegations (querier D) (contract_address env) = Inr ds"
  shows "(if ds = [] \<or> total_bond_statom_amount st0 = 0 then st = st0
    else (\<exists>p b issued bonded r. load_parameters s = Inr p \<and> load_current_batch s = Inr b
      \<and> query_total_statom_issued D s = Inr issued
      \<and> st = st0\<lparr>total_statom_issued := issued, total_bond_statom_amount := bonded,
            statom_exchange_rate := r\<rparr>
      \<and> unat bonded = min (unat (total_bond_statom_amount st0))
            (bonded_in (underlying_coin_denom p) ds)
      \<and> unat (atomics r) = rate_spec (unat bonded) (unat issued + unat (requested_statom b))))"
proof (cases "ds = [] \<or> total_bond_statom_amount st0 = 0")
  case True
  with assms show ?thesis by (auto simp: query_actual_state_def result_simps split: if_splits)
next
  case False
  obtain p actual issued b where p: "load_parameters s = Inr p"
    and actual: "actual_total_bonded L (underlying_coin_denom p) ds 0 = Inr actual"
    and issued: "query_total_statom_issued D s = Inr issued" and b: "load_current_batch s = Inr b"
    and upd: "update_statom_exchange_rate L issued (requested_statom b)
        (st0\<lparr>total_statom_issued := issued, total_bond_statom_amount :=
           (if total_bond_statom_amount st0 > actual then actual
            else total_bond_statom_amount st0)\<rparr>) = Inr st"
    using assms False
    by (auto simp: query_actual_state_def result_simps Let_def if_distrib[of hub_state.total_statom_issued]
        cong: if_cong split: if_splits)
  let ?bonded = "if total_bond_statom_amount st0 > actual then actual else total_bond_statom_amount st0"
  from upd show ?thesis
  proof (rule update_rate)
    fix r
    assume r: "st = st0\<lparr>total_statom_issued := issued, total_bond_statom_amount :=
        ?bonded\<rparr>\<lparr>statom_exchange_rate := r\<rparr>"
      and v: "unat (atomics r) = rate_spec (unat (total_bond_statom_amount
        (st0\<lparr>total_statom_issued := issued, total_bond_statom_amount := ?bonded\<rparr>)))
        (unat issued + unat (requested_statom b))"
    have "unat actual = bonded_in (underlying_coin_denom p) ds"
      using actual_total_bonded_value[OF actual] by simp
    then have "unat ?bonded = min (unat (total_bond_statom_amount st0))
        (bonded_in (underlying_coin_denom p) ds)"
      by (auto simp: word_less_nat_alt)
    moreover have "unat (atomics r) = rate_spec (unat ?bonded) (unat issued + unat (requested_statom b))"
      using v by simp
    ultimately have "\<exists>bonded r. st = st0\<lparr>total_statom_issued := issued,
          total_bond_statom_amount := bonded, statom_exchange_rate := r\<rparr>
        \<and> unat bonded = min (unat (total_bond_statom_amount st0))
              (bonded_in (underlying_coin_denom p) ds)
        \<and> unat (atomics r) = rate_spec (unat bonded) (unat issued + unat (requested_statom b))"
      using r by blast
    with False p issued b show ?thesis by auto
  qed
qed

end

section \<open>Properties\<close>

text \<open>
  C20: The slashing check never raises the bonded amount. Where the chain reports delegations and
  something is accounted as bonded, that amount becomes the smaller of the two and the exchange
  rate is set to it divided by the tokens issued and requested; otherwise nothing changes. The
  balance, the times and the batches are untouched, and the result is stored.
\<close>

theorem slashing_correct:
  assumes "decimal_laws (numbers D)" and "slashing D env s = Inr (st, s')"
    and "load_state s = Inr st0"
    and "query_all_delegations (querier D) (contract_address env) = Inr ds"
  shows "total_bond_statom_amount st \<le> total_bond_statom_amount st0 \<and> s' = save_state st s
    \<and> (if ds = [] \<or> total_bond_statom_amount st0 = 0 then st = st0
       else (\<exists>p b issued bonded r. load_parameters s = Inr p \<and> load_current_batch s = Inr b
         \<and> query_total_statom_issued D s = Inr issued
         \<and> st = st0\<lparr>total_statom_issued := issued, total_bond_statom_amount := bonded,
               statom_exchange_rate := r\<rparr>
         \<and> unat bonded = min (unat (total_bond_statom_amount st0))
               (bonded_in (underlying_coin_denom p) ds)
         \<and> unat (atomics r) = rate_spec (unat bonded) (unat issued + unat (requested_statom b))))"
proof -
  have q: "query_actual_state D env s = Inr st" and s': "s' = save_state st s"
    using slashing_store[OF assms(2)] by auto
  note shape = decimal_laws.actual_state[OF assms(1) refl q assms(3,4)]
  then have "total_bond_statom_amount st \<le> total_bond_statom_amount st0"
    by (auto simp: word_le_nat_alt split: if_splits)
  with shape s' show ?thesis by blast
qed

lemma slashing_correct_witness:
  "total_bond_statom_amount (fst (projr (slashing (sample_deps 0) (at_time 150) sample_hub))) = 95
    \<and> total_bond_statom_amount (fst (projr (slashing (sample_deps 0) (at_time 150) sample_hub)))
      \<le> total_bond_statom_amount sample_state"
proof -
  let ?run = "slashing (sample_deps 0) (at_time 150) sample_hub"
  have bonded: "total_bond_statom_amount (fst (projr ?run)) = 95" by code_simp
  have "isl ?run = False" by code_simp
  then obtain st s' where run: "?run = Inr (st, s')" by (cases ?run) auto
  have laws: "decimal_laws (numbers (sample_deps 0))" by (simp add: reference.decimal_laws_axioms)
  have state: "load_state sample_hub = Inr sample_state" by (simp add: load_state_def sample_hub_def)
  have ds: "query_all_delegations (querier (sample_deps 0)) (contract_address (at_time 150))
    = Inr [\<lparr>delegation_validator = ''a'', delegation_coin = uatom 60\<rparr>,
      \<lparr>delegation_validator = ''b'', delegation_coin = uatom 35\<rparr>]"
    by (simp add: sample_deps_def fixed_querier_def)
  show ?thesis using slashing_correct[OF laws run state ds] bonded run by simp
qed

end
