(* ===== verification/Splitting.thy ===== *)
theory Splitting
  imports Main
begin

text \<open>
  What spreading an amount over validators means, on natural numbers: the even targets, the
  room each validator has below its target (or the excess above it), and the greedy
  assignment of an amount to capacities in list order. The loops of the validators registry
  are shown to compute exactly this.
\<close>

text \<open>Share \<open>i\<close> of \<open>total\<close> coins over \<open>n\<close> validators; the first ones take the remainder.\<close>

definition even_share :: "nat \<Rightarrow> nat \<Rightarrow> nat \<Rightarrow> nat" where
  "even_share tot n i = tot div n + (if i < tot mod n then 1 else 0)"

text \<open>Each capacity takes as much as is left.\<close>

fun greedy :: "nat list \<Rightarrow> nat \<Rightarrow> nat list" where
  "greedy [] a = []"
| "greedy (c # cs) a = min c a # greedy cs (a - min c a)"

text \<open>Room below, and excess above, a target per position.\<close>

fun room :: "(nat \<Rightarrow> nat) \<Rightarrow> nat \<Rightarrow> nat list \<Rightarrow> nat list" where
  "room t i [] = []"
| "room t i (d # ds) = (t i - d) # room t (Suc i) ds"

fun excess :: "(nat \<Rightarrow> nat) \<Rightarrow> nat \<Rightarrow> nat list \<Rightarrow> nat list" where
  "excess t i [] = []"
| "excess t i (d # ds) = (d - t i) # excess t (Suc i) ds"

lemma even_share_le: "even_share tot n i \<le> tot"
proof (cases "n = 0")
  case True
  then show ?thesis by (simp add: even_share_def)
next
  case False
  show ?thesis
  proof (cases "i < tot mod n")
    case True
    then have "tot div n + Suc 0 \<le> tot div n * n + tot mod n"
      using False by (intro add_mono) auto
    also have "\<dots> = tot" by (rule div_mult_mod_eq)
    finally show ?thesis using True by (simp only: even_share_def if_True One_nat_def)
  qed (simp add: even_share_def)
qed

lemma sum_indicator_below: "r \<le> n \<Longrightarrow> (\<Sum>i < n. if i < r then 1 else 0 :: nat) = r"
  by (induction n) (auto simp: le_Suc_eq)

lemma sum_even_share:
  assumes "0 < n"
  shows "(\<Sum>i < n. even_share tot n i) = tot"
proof -
  have "(\<Sum>i < n. even_share tot n i)
      = (\<Sum>i < n. tot div n) + (\<Sum>i < n. if i < tot mod n then 1 else 0)"
    unfolding even_share_def by (rule sum.distrib)
  also have "\<dots> = n * (tot div n) + tot mod n"
    using mod_le_divisor[OF assms, of tot] by (simp only: sum_indicator_below) simp
  also have "\<dots> = tot" by (rule mult_div_mod_eq)
  finally show ?thesis .
qed

lemma length_greedy [simp]: "length (greedy cs a) = length cs"
  by (induction cs arbitrary: a) auto

lemma length_room [simp]: "length (room t i ds) = length ds"
  by (induction ds arbitrary: i) auto

lemma length_excess [simp]: "length (excess t i ds) = length ds"
  by (induction ds arbitrary: i) auto

lemma greedy_0 [simp]: "greedy cs 0 = replicate (length cs) 0"
  by (induction cs) auto

lemma sum_greedy: "sum_list (greedy cs a) = min a (sum_list cs)"
  by (induction cs arbitrary: a) auto

lemma greedy_le: "j < length cs \<Longrightarrow> greedy cs a ! j \<le> cs ! j"
  by (induction cs arbitrary: a j) (auto simp: nth_Cons split: nat.splits)

lemma nth_room: "j < length ds \<Longrightarrow> room t i ds ! j = t (i + j) - ds ! j"
  by (induction ds arbitrary: i j) (auto simp: nth_Cons split: nat.splits)

lemma nth_excess: "j < length ds \<Longrightarrow> excess t i ds ! j = ds ! j - t (i + j)"
  by (induction ds arbitrary: i j) (auto simp: nth_Cons split: nat.splits)

lemma room_cong: "(\<And>j. j < i + length ds \<Longrightarrow> t j = t' j) \<Longrightarrow> room t i ds = room t' i ds"
  by (induction ds arbitrary: i) auto

lemma excess_cong: "(\<And>j. j < i + length ds \<Longrightarrow> t j = t' j) \<Longrightarrow> excess t i ds = excess t' i ds"
  by (induction ds arbitrary: i) auto

lemma sum_room: "(\<Sum>j < length ds. t (i + j)) \<le> sum_list (room t i ds) + sum_list ds"
proof (induction ds arbitrary: i)
  case (Cons d ds)
  have "(\<Sum>j < length (d # ds). t (i + j)) = t i + (\<Sum>j < length ds. t (Suc i + j))"
    by (simp add: sum.lessThan_Suc_shift del: sum.lessThan_Suc)
  then show ?case using Cons.IH[of "Suc i"] by simp
qed simp

lemma sum_excess: "sum_list ds \<le> sum_list (excess t i ds) + (\<Sum>j < length ds. t (i + j))"
proof (induction ds arbitrary: i)
  case (Cons d ds)
  have "(\<Sum>j < length (d # ds). t (i + j)) = t i + (\<Sum>j < length ds. t (Suc i + j))"
    by (simp add: sum.lessThan_Suc_shift del: sum.lessThan_Suc)
  then show ?case using Cons.IH[of "Suc i"] by simp
qed simp

text \<open>The room left by even shares of the grown total always takes the new amount.\<close>

lemma room_suffices:
  assumes "ds \<noteq> []"
  shows "a \<le> sum_list (room (even_share (sum_list ds + a) (length ds)) 0 ds)"
proof -
  have "sum_list ds + a = (\<Sum>j < length ds. even_share (sum_list ds + a) (length ds) j)"
    using assms by (simp add: sum_even_share)
  also have "\<dots> \<le> sum_list (room (even_share (sum_list ds + a) (length ds)) 0 ds) + sum_list ds"
    using sum_room[where i = 0, of "even_share (sum_list ds + a) (length ds)" ds] by simp
  finally show ?thesis by simp
qed

lemma excess_suffices:
  assumes "ds \<noteq> []" and "a \<le> sum_list ds"
  shows "a \<le> sum_list (excess (even_share (sum_list ds - a) (length ds)) 0 ds)"
proof -
  have "(\<Sum>j < length ds. even_share (sum_list ds - a) (length ds) j) = sum_list ds - a"
    using assms(1) by (simp add: sum_even_share)
  then show ?thesis
    using assms(2) sum_excess[where i = 0, of ds "even_share (sum_list ds - a) (length ds)"] by simp
qed

lemma greedy_full: "sum_list cs \<le> a \<Longrightarrow> greedy cs a = cs"
  by (induction cs arbitrary: a) (auto simp: min_def)

text \<open>
  When nobody exceeds the even share, the room is exactly the new amount, and filling it
  brings everyone to the even share; and dually for the excess.
\<close>

lemma sum_room_exact:
  "(\<And>j. j < length ds \<Longrightarrow> ds ! j \<le> t (i + j)) \<Longrightarrow>
    sum_list (room t i ds) + sum_list ds = (\<Sum>j < length ds. t (i + j))"
proof (induction ds arbitrary: i)
  case (Cons d ds)
  have "sum_list (room t (Suc i) ds) + sum_list ds = (\<Sum>j < length ds. t (Suc i + j))"
    using Cons.prems[of "Suc j" for j] by (intro Cons.IH) simp
  moreover have "d \<le> t i" using Cons.prems[of 0] by simp
  ultimately show ?case by (simp add: sum.lessThan_Suc_shift del: sum.lessThan_Suc)
qed simp

lemma sum_excess_exact:
  "(\<And>j. j < length ds \<Longrightarrow> t (i + j) \<le> ds ! j) \<Longrightarrow>
    sum_list (excess t i ds) + (\<Sum>j < length ds. t (i + j)) = sum_list ds"
proof (induction ds arbitrary: i)
  case (Cons d ds)
  have "sum_list (excess t (Suc i) ds) + (\<Sum>j < length ds. t (Suc i + j)) = sum_list ds"
    using Cons.prems[of "Suc j" for j] by (intro Cons.IH) simp
  moreover have "t i \<le> d" using Cons.prems[of 0] by simp
  ultimately show ?case by (simp add: sum.lessThan_Suc_shift del: sum.lessThan_Suc)
qed simp

end
