(* ===== verification/Registry_Common.thy ===== *)
theory Registry_Common
  imports Basset Splitting
begin

text \<open>
  \<^verbatim>\<open>lido_cosmos_validators_registry/src/common.rs\<close>: spreading a delegation, or an undelegation,
  over validators. The \<open>for\<close> loops recurse over the validators still to visit, with the index
  and the mutable locals as accumulators; an early exit is the branch of the source's \<open>break\<close>.
  The \<open>while\<close> loop of the undelegation has no bound in the code, so it is a partial function;
  not ending is the failure \<open>OutOfGas\<close>, which is proved impossible.
\<close>

section \<open>Delegations\<close>

text \<open>\<open>if (index + 1) as u128 <= remaining_coins { 1u128 } else { 0u128 }\<close>\<close>

definition extra_coin :: "u128 \<Rightarrow> nat \<Rightarrow> u128" where
  "extra_coin remaining_coins index = (if int index + 1 \<le> uint remaining_coins then 1 else 0)"

text \<open>
  \<open>x / validators.len() as u128\<close> and the remainder. The length of a vector fits a \<open>usize\<close>, so
  the cast is exact; the callers have excluded the empty vector.
\<close>

definition div_len :: "u128 \<Rightarrow> 'a list \<Rightarrow> u128" where
  "div_len x xs = word_of_int (uint x div int (length xs))"

definition mod_len :: "u128 \<Rightarrow> 'a list \<Rightarrow> u128" where
  "mod_len x xs = word_of_int (uint x mod int (length xs))"

fun delegations_loop ::
  "num_lib \<Rightarrow> u128 \<Rightarrow> u128 \<Rightarrow> nat \<Rightarrow> validator_response list \<Rightarrow> u128 list \<Rightarrow> u128
    \<Rightarrow> (u128 list \<times> u128) result" where
  "delegations_loop L coins_per_validator remaining_coins index [] delegations amount_to_delegate =
     Inr (delegations, amount_to_delegate)"
| "delegations_loop L coins_per_validator remaining_coins index (v # vs) delegations
     amount_to_delegate =
     and_then (prim_add coins_per_validator (extra_coin remaining_coins index)) (\<lambda>coins.
     if coins < total_delegated v
     then delegations_loop L coins_per_validator remaining_coins (Suc index) vs delegations
            amount_to_delegate
     else
       and_then (uint_sub L coins (total_delegated v)) (\<lambda>room_left.
       let to_delegate =
         (if room_left > amount_to_delegate then amount_to_delegate else room_left);
         delegations' = delegations[index := to_delegate] in
       and_then (uint_checked_sub L amount_to_delegate to_delegate) (\<lambda>amount'.
       if amount' = 0 then Inr (delegations', amount')
       else delegations_loop L coins_per_validator remaining_coins (Suc index) vs delegations'
              amount')))"

definition calculate_delegations ::
  "num_lib \<Rightarrow> u128 \<Rightarrow> validator_response list \<Rightarrow> u128 list result" where
  "calculate_delegations L amount_to_delegate validators =
     (if validators = [] then generic_err ''Empty validators set''
      else
        and_then (prim_sum (map total_delegated validators)) (\<lambda>sum_delegated.
        and_then (uint_add L sum_delegated amount_to_delegate) (\<lambda>total_coins.
        and_then (delegations_loop L (div_len total_coins validators)
            (mod_len total_coins validators) 0 validators (replicate (length validators) 0)
            amount_to_delegate) (\<lambda>(delegations, amount_left).
        if amount_left = 0 then Inr delegations
        else generic_err ''Failed to distribute delegated amount completely''))))"

section \<open>Undelegations\<close>

text \<open>
  One run of the \<open>for\<close> loop. It returns the validators with their remaining delegations, the
  undelegations, the amount still to undelegate and the total still delegated.
\<close>

fun undelegations_pass ::
  "num_lib \<Rightarrow> u128 \<Rightarrow> u128 \<Rightarrow> nat \<Rightarrow> validator_response list \<Rightarrow> u128 list \<Rightarrow> u128 \<Rightarrow> u128
    \<Rightarrow> (validator_response list \<times> u128 list \<times> u128 \<times> u128) result" where
  "undelegations_pass L coins_per_validator remaining_coins index [] undelegations
     undelegation_amount tot = Inr ([], undelegations, undelegation_amount, tot)"
| "undelegations_pass L coins_per_validator remaining_coins index (v # vs) undelegations
     undelegation_amount tot =
     and_then (prim_add coins_per_validator (extra_coin remaining_coins index)) (\<lambda>coins.
     and_then (uint_checked_sub L (total_delegated v) (min coins (total_delegated v))) (\<lambda>over.
     let to_undelegate = (if over > undelegation_amount then undelegation_amount else over) in
     and_then (index_vec undelegations index) (\<lambda>u.
     and_then (uint_add L u to_undelegate) (\<lambda>u'.
     let undelegations' = undelegations[index := u'] in
     and_then (uint_checked_sub L undelegation_amount to_undelegate) (\<lambda>amount'.
     and_then (uint_checked_sub L tot to_undelegate) (\<lambda>tot'.
     and_then (uint_checked_sub L (total_delegated v) to_undelegate) (\<lambda>left.
     let v' = v\<lparr>total_delegated := left\<rparr> in
     if amount' = 0 then Inr (v' # vs, undelegations', amount', tot')
     else and_then (undelegations_pass L coins_per_validator remaining_coins (Suc index) vs
                      undelegations' amount' tot') (\<lambda>(vs', rest). Inr (v' # vs', rest)))))))))"

text \<open>The \<open>while\<close> loop; \<open>None\<close> is a loop that does not end.\<close>

partial_function (option) undelegations_while ::
  "num_lib \<Rightarrow> u128 \<Rightarrow> u128 \<Rightarrow> validator_response list \<Rightarrow> u128 list \<Rightarrow> u128 list result option" where
  "undelegations_while L undelegation_amount tot validators undelegations =
     (if undelegation_amount = 0 then Some (Inr undelegations)
      else case and_then (uint_sub L tot undelegation_amount) (\<lambda>after.
             undelegations_pass L (div_len after validators) (mod_len after validators) 0
               validators undelegations undelegation_amount tot) of
          Inl e \<Rightarrow> Some (Inl e)
        | Inr (validators', undelegations', amount', tot') \<Rightarrow>
            undelegations_while L amount' tot' validators' undelegations')"

definition calculate_undelegations ::
  "num_lib \<Rightarrow> u128 \<Rightarrow> validator_response list \<Rightarrow> u128 list result" where
  "calculate_undelegations L undelegation_amount validators =
     (if validators = [] then generic_err ''Empty validators set''
      else
        and_then (uint_sum L (map total_delegated validators)) (\<lambda>tot.
        if undelegation_amount > tot
        then generic_err ''undelegate amount can't be bigger than total delegated amount''
        else case undelegations_while L undelegation_amount tot validators
                    (replicate (length validators) 0) of
            None \<Rightarrow> Inl OutOfGas
          | Some r \<Rightarrow> r))"

declare undelegations_while.simps [code]

section \<open>Messages from shares\<close>

text \<open>
  The loop all clients run on the result: \<open>for i in 0..shares.len()\<close>, skip a zero share, else
  pair \<open>validators[i].address\<close> with it (a panic if there is no such validator).
\<close>

fun nonzero_shares ::
  "validator_response list \<Rightarrow> nat \<Rightarrow> u128 list \<Rightarrow> (string \<times> u128) list result" where
  "nonzero_shares validators i [] = Inr []"
| "nonzero_shares validators i (x # xs) =
     (if x = 0 then nonzero_shares validators (Suc i) xs
      else and_then (index_vec validators i) (\<lambda>v.
           and_then (nonzero_shares validators (Suc i) xs) (\<lambda>ys.
           Inr ((validator_address v, x) # ys))))"

section \<open>The loops compute the greedy assignment\<close>

abbreviation delegated :: "validator_response list \<Rightarrow> nat list" where
  "delegated vs \<equiv> map (\<lambda>v. unat (total_delegated v)) vs"

lemma unat_div_len: "unat (div_len x xs) = unat x div length xs"
proof -
  have "unat x div length xs < 2 ^ 128"
    by (rule order_le_less_trans[OF div_le_dividend], rule unsigned_less[THEN order_less_le_trans]) simp
  moreover have "uint x div int (length xs) = int (unat x div length xs)" by (simp add: zdiv_int)
  ultimately show ?thesis by (simp add: div_len_def unat_of_nat)
qed

lemma unat_mod_len: "unat (mod_len x xs) = unat x mod length xs"
proof -
  have "unat x mod length xs < 2 ^ 128"
    by (rule order_le_less_trans[OF mod_less_eq_dividend], rule unsigned_less[THEN order_less_le_trans])
      simp
  moreover have "uint x mod int (length xs) = int (unat x mod length xs)" by (simp add: zmod_int)
  ultimately show ?thesis by (simp add: mod_len_def unat_of_nat)
qed

lemma unat_extra_coin: "unat (extra_coin r i) = (if i < unat r then 1 else 0)"
proof -
  have "int i + 1 \<le> uint r \<longleftrightarrow> int (Suc i) \<le> int (unat r)" by (simp add: add.commute)
  also have "\<dots> \<longleftrightarrow> i < unat r" by linarith
  finally show ?thesis by (simp add: extra_coin_def)
qed

text \<open>The coins a validator should hold, as both loops compute them, never overflow.\<close>

lemma coins_even_share:
  obtains c where "prim_add (div_len x xs) (extra_coin (mod_len x xs) i) = Inr c"
    and "unat c = even_share (unat x) (length xs) i"
proof -
  have "unat (div_len x xs) + unat (extra_coin (mod_len x xs) i)
      = even_share (unat x) (length xs) i"
    by (simp add: unat_div_len unat_mod_len unat_extra_coin even_share_def)
  moreover have "even_share (unat x) (length xs) i < 2 ^ 128"
    by (rule order_le_less_trans[OF even_share_le unsigned_less[THEN order_less_le_trans]]) simp
  ultimately show ?thesis
    using that ex_unat[where 'w = 128] by (auto simp: result_simps)
qed

context uint128_laws
begin

lemma delegations_loop_greedy:
  assumes "\<And>j. \<exists>c. prim_add cpv (extra_coin rc j) = Inr c \<and> unat c = t j"
    and "length ds = i + length vs"
    and "drop i ds = replicate (length vs) 0"
  shows "\<exists>ds' a'. delegations_loop L cpv rc i vs ds a = Inr (ds', a')
    \<and> map unat ds' = map unat (take i ds) @ greedy (room t i (delegated vs)) (unat a)
    \<and> unat a' = unat a - sum_list (greedy (room t i (delegated vs)) (unat a))"
  using assms(2,3)
proof (induction vs arbitrary: i ds a)
  case Nil
  then show ?case by simp
next
  case (Cons v vs)
  obtain c where c: "prim_add cpv (extra_coin rc i) = Inr c" "unat c = t i"
    using assms(1) by blast
  have i: "i < length ds" using Cons.prems(1) by simp
  have rest: "drop (Suc i) ds = replicate (length vs) 0" and here: "ds ! i = 0"
    using Cons.prems(2) by (simp_all add: Cons_nth_drop_Suc[OF i, symmetric])
  show ?case
  proof (cases "c < total_delegated v")
    case True
    then have "t i - unat (total_delegated v) = 0"
      using c(2) by (simp add: word_less_nat_alt)
    moreover have "map unat (take (Suc i) ds) = map unat (take i ds) @ [0]"
      using here i by (simp add: take_Suc_conv_app_nth)
    ultimately show ?thesis
      using Cons.IH[where i = "Suc i" and ds = ds and a = a] Cons.prems(1) rest True c(1) by simp
  next
    case False
    define d where "d = (if c - total_delegated v > a then a else c - total_delegated v)"
    have le: "total_delegated v \<le> c" using False by simp
    have "unat d = min (t i - unat (total_delegated v)) (unat a)"
      using le c(2) by (auto simp: d_def unat_sub word_less_nat_alt)
    moreover have da: "d \<le> a" by (auto simp: d_def)
    then have "unat (a - d) = unat a - unat d" by (rule unat_sub)
    ultimately have d: "unat d = min (t i - unat (total_delegated v)) (unat a)"
      "unat (a - d) = unat a - min (t i - unat (total_delegated v)) (unat a)" by simp_all
    let ?ds = "ds[i := d]"
    have prefix: "map unat (take (Suc i) ?ds) = map unat (take i ds) @ [unat d]"
      using i by (simp add: take_Suc_conv_app_nth)
    have rest': "drop (Suc i) ?ds = replicate (length vs) 0" using rest by simp
    have step: "delegations_loop L cpv rc i (v # vs) ds a
        = (if a - d = 0 then Inr (?ds, a - d)
           else delegations_loop L cpv rc (Suc i) vs ?ds (a - d))"
      using False c(1) uint_sub_ok[OF le] uint_checked_sub_ok[OF da]
      by (simp add: d_def[symmetric])
    have G: "greedy (room t i (delegated (v # vs))) (unat a)
        = unat d # greedy (room t (Suc i) (delegated vs)) (unat (a - d))"
      by (simp add: d)
    have da': "unat (a - d) = unat a - unat d" by (simp add: d)
    show ?thesis
    proof (cases "a - d = 0")
      case True
      have "map unat ?ds = map unat (take (Suc i) ?ds) @ map unat (drop (Suc i) ?ds)"
        by (simp only: map_append[symmetric] append_take_drop_id)
      then have all: "map unat ?ds = map unat (take i ds) @ unat d # replicate (length vs) 0"
        by (simp only: prefix rest' map_replicate unsigned_0 append.assoc append_Cons append_Nil)
      have zero: "unat a - unat d = 0" using True da' by (metis unsigned_0)
      have G': "greedy (room t i (delegated (v # vs))) (unat a) = unat d # replicate (length vs) 0"
        by (simp only: G True unsigned_0 greedy_0 length_room length_map)
      show ?thesis
      proof (intro exI conjI)
        show "delegations_loop L cpv rc i (v # vs) ds a = Inr (?ds, 0)"
          using True by (simp only: step) simp
        show "unat (0 :: u128) = unat a - sum_list (greedy (room t i (delegated (v # vs))) (unat a))"
          using zero by (simp only: G') (simp add: sum_list_replicate)
      qed (simp only: G' all)
    next
      case False
      obtain ds' a' where IH: "delegations_loop L cpv rc (Suc i) vs ?ds (a - d) = Inr (ds', a')"
        "map unat ds' = map unat (take (Suc i) ?ds)
            @ greedy (room t (Suc i) (delegated vs)) (unat (a - d))"
        "unat a' = unat (a - d) - sum_list (greedy (room t (Suc i) (delegated vs)) (unat (a - d)))"
        using Cons.IH[where i = "Suc i" and ds = ?ds and a = "a - d", OF _ rest'] Cons.prems(1)
        by auto
      show ?thesis
      proof (intro exI conjI)
        show "delegations_loop L cpv rc i (v # vs) ds a = Inr (ds', a')"
          using False IH(1) by (simp only: step if_False)
      qed (simp_all only: G IH(2,3) prefix append.assoc append_Cons append_Nil sum_list.Cons da'
             diff_diff_left)
    qed
  qed
qed

text \<open>The whole routine: it always distributes, and distributes greedily up to even shares.\<close>

lemma calculate_delegations_eq:
  assumes "vs \<noteq> []" and "sum_list (delegated vs) + unat a < 2 ^ 128"
  obtains ds where "calculate_delegations L a vs = Inr ds"
    and "map unat ds = greedy (room (even_share (sum_list (delegated vs) + unat a) (length vs)) 0
           (delegated vs)) (unat a)"
proof -
  let ?t = "even_share (sum_list (delegated vs) + unat a) (length vs)"
  obtain s where s: "prim_sum (map total_delegated vs) = Inr s" "unat s = sum_list (delegated vs)"
    using assms(2) ex_unat[where 'w = 128, of "sum_list (delegated vs)"]
    by (auto simp: result_simps comp_def)
  have tot: "uint_add L s a = Inr (s + a)" "unat (s + a) = sum_list (delegated vs) + unat a"
    using assms(2) s(2) by (simp_all add: uint_add_ok unat_add_lem[THEN iffD1])
  have coins: "\<exists>c. prim_add (div_len (s + a) vs) (extra_coin (mod_len (s + a) vs) j) = Inr c
      \<and> unat c = ?t j" for j
    by (rule coins_even_share[of "s + a" vs j]) (auto simp: tot(2))
  obtain ds a' where loop: "delegations_loop L (div_len (s + a) vs) (mod_len (s + a) vs) 0 vs
        (replicate (length vs) 0) a = Inr (ds, a')"
    and ds: "map unat ds = greedy (room ?t 0 (delegated vs)) (unat a)"
    and a': "unat a' = unat a - sum_list (greedy (room ?t 0 (delegated vs)) (unat a))"
    using delegations_loop_greedy[of "div_len (s + a) vs" "mod_len (s + a) vs" ?t
        "replicate (length vs) 0" 0 vs a, OF coins] by auto
  have "unat a \<le> sum_list (room ?t 0 (delegated vs))"
    using room_suffices[of "delegated vs" "unat a"] assms(1) by simp
  then have "a' = 0" using a' by (simp add: sum_greedy unat_eq_zero)
  with s(1) tot(1) loop assms(1) have "calculate_delegations L a vs = Inr ds"
    by (simp add: calculate_delegations_def)
  with ds show ?thesis using that by blast
qed

lemma undelegations_pass_greedy:
  assumes "\<And>j. \<exists>c. prim_add cpv (extra_coin rc j) = Inr c \<and> unat c = t j"
    and "length us = i + length vs"
    and "drop i us = replicate (length vs) 0"
    and "a \<le> tot"
  shows "\<exists>vs' us' a' tot'. undelegations_pass L cpv rc i vs us a tot = Inr (vs', us', a', tot')
    \<and> map unat us' = map unat (take i us) @ greedy (excess t i (delegated vs)) (unat a)
    \<and> unat a' = unat a - sum_list (greedy (excess t i (delegated vs)) (unat a))"
  using assms(2-4)
proof (induction vs arbitrary: i us a tot)
  case Nil
  then show ?case by simp
next
  case (Cons v vs)
  obtain c where c: "prim_add cpv (extra_coin rc i) = Inr c" "unat c = t i"
    using assms(1) by blast
  have i: "i < length us" using Cons.prems(1) by simp
  have rest: "drop (Suc i) us = replicate (length vs) 0" and here: "us ! i = 0"
    using Cons.prems(2) by (simp_all add: Cons_nth_drop_Suc[OF i, symmetric])
  define over where "over = total_delegated v - min c (total_delegated v)"
  define d where "d = (if over > a then a else over)"
  have over: "unat over = unat (total_delegated v) - t i"
    using c(2) by (simp add: over_def unat_sub min_def word_le_nat_alt)
  have da: "d \<le> a" and dv: "d \<le> total_delegated v"
    using over by (auto simp: d_def word_le_nat_alt word_less_nat_alt)
  have dt: "d \<le> tot" using da Cons.prems(3) by simp
  have d: "unat d = min (unat (total_delegated v) - t i) (unat a)"
    using over by (auto simp: d_def word_less_nat_alt)
  have da': "unat (a - d) = unat a - unat d" using da by (rule unat_sub)
  have at: "a - d \<le> tot - d"
    using Cons.prems(3) da dt by (simp add: word_le_nat_alt unat_sub)
  let ?us = "us[i := d]"
  have prefix: "map unat (take (Suc i) ?us) = map unat (take i us) @ [unat d]"
    using i by (simp add: take_Suc_conv_app_nth)
  have rest': "drop (Suc i) ?us = replicate (length vs) 0" using rest by simp
  have G: "greedy (excess t i (delegated (v # vs))) (unat a)
      = unat d # greedy (excess t (Suc i) (delegated vs)) (unat (a - d))"
    by (simp add: d da')
  have step: "undelegations_pass L cpv rc i (v # vs) us a tot =
      (let v' = v\<lparr>total_delegated := total_delegated v - d\<rparr> in
       if a - d = 0 then Inr (v' # vs, ?us, a - d, tot - d)
       else and_then (undelegations_pass L cpv rc (Suc i) vs ?us (a - d) (tot - d))
              (\<lambda>(vs', rest). Inr (v' # vs', rest)))"
  proof -
    have "uint_checked_sub L (total_delegated v) (min c (total_delegated v)) = Inr over"
      by (simp add: over_def uint_checked_sub_eq)
    moreover have "index_vec us i = Inr 0" using i here by (simp add: index_vec_def)
    moreover have "uint_add L 0 d = Inr d" by (simp add: uint_add_Inr)
    ultimately show ?thesis
      by (simp only: undelegations_pass.simps c(1) and_then.simps Let_def d_def[symmetric]
          uint_checked_sub_ok[OF da] uint_checked_sub_ok[OF dv] uint_checked_sub_ok[OF dt])
  qed
  show ?case
  proof (cases "a - d = 0")
    case True
    have "map unat ?us = map unat (take (Suc i) ?us) @ map unat (drop (Suc i) ?us)"
      by (simp only: map_append[symmetric] append_take_drop_id)
    then have all: "map unat ?us = map unat (take i us) @ unat d # replicate (length vs) 0"
      by (simp only: prefix rest' map_replicate unsigned_0 append.assoc append_Cons append_Nil)
    have zero: "unat a - unat d = 0" using True da' by (metis unsigned_0)
    have G': "greedy (excess t i (delegated (v # vs))) (unat a) = unat d # replicate (length vs) 0"
      by (simp only: G True unsigned_0 greedy_0 length_excess length_map)
    show ?thesis
    proof (intro exI conjI)
      show "undelegations_pass L cpv rc i (v # vs) us a tot
          = Inr (v\<lparr>total_delegated := total_delegated v - d\<rparr> # vs, ?us, 0, tot - d)"
        using True by (simp only: step) simp
      show "unat (0 :: u128) = unat a - sum_list (greedy (excess t i (delegated (v # vs))) (unat a))"
        using zero by (simp only: G') (simp add: sum_list_replicate)
    qed (simp only: G' all)
  next
    case False
    obtain vs' us' a' tot' where
      IH: "undelegations_pass L cpv rc (Suc i) vs ?us (a - d) (tot - d) = Inr (vs', us', a', tot')"
      "map unat us' = map unat (take (Suc i) ?us)
        @ greedy (excess t (Suc i) (delegated vs)) (unat (a - d))"
      "unat a' = unat (a - d) - sum_list (greedy (excess t (Suc i) (delegated vs)) (unat (a - d)))"
      using Cons.IH[where i = "Suc i" and us = ?us and a = "a - d" and tot = "tot - d",
          OF _ rest' at] Cons.prems(1)
      by auto
    show ?thesis
    proof (intro exI conjI)
      show "undelegations_pass L cpv rc i (v # vs) us a tot
          = Inr (v\<lparr>total_delegated := total_delegated v - d\<rparr> # vs', us', a', tot')"
        using False IH(1) by (simp only: step if_False Let_def and_then.simps prod.case)
    qed (simp_all only: G IH(2,3) prefix append.assoc append_Cons append_Nil sum_list.Cons da'
           diff_diff_left)
  qed
qed

text \<open>One pass of the \<open>while\<close> loop is enough, so it ends.\<close>

lemma undelegations_while_greedy:
  assumes "vs \<noteq> []" and "unat tot = sum_list (delegated vs)" and "a \<le> tot"
  shows "\<exists>us. undelegations_while L a tot vs (replicate (length vs) 0) = Some (Inr us)
    \<and> map unat us = greedy (excess (even_share (sum_list (delegated vs) - unat a) (length vs)) 0
         (delegated vs)) (unat a)"
proof (cases "a = 0")
  case True
  then show ?thesis by (simp add: undelegations_while.simps map_replicate_const)
next
  case False
  let ?t = "even_share (sum_list (delegated vs) - unat a) (length vs)"
  have after: "unat (tot - a) = sum_list (delegated vs) - unat a"
    using assms(2,3) by (simp add: unat_sub)
  have coins: "\<exists>c. prim_add (div_len (tot - a) vs) (extra_coin (mod_len (tot - a) vs) j) = Inr c
      \<and> unat c = ?t j" for j
    by (rule coins_even_share[of "tot - a" vs j]) (auto simp: after)
  obtain vs' us a' tot' where
    pass: "undelegations_pass L (div_len (tot - a) vs) (mod_len (tot - a) vs) 0 vs
      (replicate (length vs) 0) a tot = Inr (vs', us, a', tot')"
    and us: "map unat us = greedy (excess ?t 0 (delegated vs)) (unat a)"
    and a': "unat a' = unat a - sum_list (greedy (excess ?t 0 (delegated vs)) (unat a))"
    using undelegations_pass_greedy[of "div_len (tot - a) vs" "mod_len (tot - a) vs" ?t
        "replicate (length vs) 0" 0 vs a tot, OF coins] assms(3) by auto
  have "unat a \<le> sum_list (excess ?t 0 (delegated vs))"
    using excess_suffices[of "delegated vs" "unat a"] assms
    by (simp add: word_le_nat_alt)
  then have "a' = 0" using a' by (simp add: sum_greedy unat_eq_zero)
  with pass us show ?thesis
    using False assms(3)
    by (subst undelegations_while.simps) (simp add: uint_sub_ok undelegations_while.simps)
qed

lemma calculate_undelegations_eq:
  assumes "vs \<noteq> []" and "sum_list (delegated vs) < 2 ^ 128" and "unat a \<le> sum_list (delegated vs)"
  obtains us where "calculate_undelegations L a vs = Inr us"
    and "map unat us = greedy (excess (even_share (sum_list (delegated vs) - unat a) (length vs)) 0
           (delegated vs)) (unat a)"
proof -
  obtain tot where tot: "uint_sum L (map total_delegated vs) = Inr tot"
    "unat tot = sum_list (delegated vs)"
    using uint_sum_ok[of "map total_delegated vs"] assms(2) by (auto simp: comp_def)
  then have "a \<le> tot" using assms(3) by (simp add: word_le_nat_alt)
  with undelegations_while_greedy[OF assms(1) tot(2)] obtain us where
    "undelegations_while L a tot vs (replicate (length vs) 0) = Some (Inr us)"
    and us: "map unat us = greedy (excess (even_share (sum_list (delegated vs) - unat a)
      (length vs)) 0 (delegated vs)) (unat a)"
    by blast
  with tot(1) \<open>a \<le> tot\<close> assms(1) have "calculate_undelegations L a vs = Inr us"
    by (simp add: calculate_undelegations_def)
  with us show ?thesis using that by blast
qed

text \<open>The domains on which the two routines return, and what they return.\<close>

lemma calculate_delegations_Inr_iff:
  "calculate_delegations L a vs = Inr ds \<longleftrightarrow>
    vs \<noteq> [] \<and> sum_list (delegated vs) + unat a < 2 ^ 128
    \<and> map unat ds = greedy (room (even_share (sum_list (delegated vs) + unat a) (length vs)) 0
        (delegated vs)) (unat a)" (is "?ret \<longleftrightarrow> ?ne \<and> ?small \<and> ?eq")
proof
  assume ret: ?ret
  have ne: ?ne using ret by (auto simp: calculate_delegations_def)
  then obtain s' :: u128 where "unat s' = sum_list (delegated vs) + unat a"
    using ret by (auto simp: calculate_delegations_def uint128_simps comp_def)
  then have small: ?small using unsigned_less[where 'a = nat, of s'] by simp
  moreover have ?eq
    using ret calculate_delegations_eq[OF ne small] by (metis sum.inject(2))
  ultimately show "?ne \<and> ?small \<and> ?eq" using ne by blast
next
  assume rhs: "?ne \<and> ?small \<and> ?eq"
  then obtain ds' where "calculate_delegations L a vs = Inr ds'" and "map unat ds' = map unat ds"
    using calculate_delegations_eq[of vs a] by metis
  moreover from this(2) have "ds' = ds" by (simp add: inj_map_eq_map inj_unsigned)
  ultimately show ?ret by simp
qed

lemma calculate_undelegations_Inr_iff:
  "calculate_undelegations L a vs = Inr us \<longleftrightarrow>
    vs \<noteq> [] \<and> sum_list (delegated vs) < 2 ^ 128 \<and> unat a \<le> sum_list (delegated vs)
    \<and> map unat us = greedy (excess (even_share (sum_list (delegated vs) - unat a) (length vs)) 0
        (delegated vs)) (unat a)" (is "?ret \<longleftrightarrow> ?ne \<and> ?small \<and> ?le \<and> ?eq")
proof
  assume ret: ?ret
  have ne: ?ne using ret by (auto simp: calculate_undelegations_def)
  then obtain tot where "uint_sum L (map total_delegated vs) = Inr tot" and "\<not> tot < a"
    using ret by (auto simp: calculate_undelegations_def result_simps split: if_splits)
  then have tot: "unat tot = sum_list (delegated vs)" and le: "unat a \<le> unat tot"
    by (simp_all add: uint_sum_Inr comp_def word_less_nat_alt)
  have small: ?small using tot unsigned_less[where 'a = nat, of tot] by simp
  moreover have ?le using tot le by simp
  moreover have ?eq
    using ret calculate_undelegations_eq[OF ne small \<open>?le\<close>] by (metis sum.inject(2))
  ultimately show "?ne \<and> ?small \<and> ?le \<and> ?eq" using ne by blast
next
  assume rhs: "?ne \<and> ?small \<and> ?le \<and> ?eq"
  then obtain us' where "calculate_undelegations L a vs = Inr us'" and "map unat us' = map unat us"
    using calculate_undelegations_eq[of vs a] by metis
  moreover from this(2) have "us' = us" by (simp add: inj_map_eq_map inj_unsigned)
  ultimately show ?ret by simp
qed

end

section \<open>The contract of a routine that splits an amount over validators\<close>

text \<open>
  The hub and the registry turn the shares into staking messages. What they rely on is only
  that the shares match the validators and add up to the amount.
\<close>

locale splitter =
  fixes split_over :: "u128 \<Rightarrow> validator_response list \<Rightarrow> u128 list result"
  assumes split_length: "split_over a vs = Inr xs \<Longrightarrow> length xs = length vs"
    and split_total: "split_over a vs = Inr xs \<Longrightarrow> total xs = unat a"
begin

lemma shares_of_suffix:
  "i + length xs = length vs \<Longrightarrow>
    nonzero_shares vs i xs =
      Inr (map (\<lambda>(v, x). (validator_address v, x)) (filter (\<lambda>(v, x). x \<noteq> 0) (zip (drop i vs) xs)))"
proof (induction xs arbitrary: i)
  case (Cons x xs)
  then have i: "i < length vs" by simp
  then have "drop i vs = vs ! i # drop (Suc i) vs" by (simp add: Cons_nth_drop_Suc)
  then show ?case using Cons i by (simp add: index_vec_def)
qed simp

lemma total_nonzero:
  "length vs = length xs \<Longrightarrow>
    total (map snd (map (\<lambda>(v, x). (validator_address v, x)) (filter (\<lambda>(v, x). x \<noteq> 0) (zip vs xs))))
      = total xs"
  by (induction vs xs rule: list_induct2) auto

lemma nonzero_shares_split:
  assumes "split_over a vs = Inr xs"
  obtains ps where "nonzero_shares vs 0 xs = Inr ps" and "total (map snd ps) = unat a"
    and "\<And>v x. (v, x) \<in> set ps \<Longrightarrow> x \<noteq> 0 \<and> v \<in> validator_address ` set vs"
proof -
  have len: "length vs = length xs" using split_length[OF assms] by simp
  let ?ps = "map (\<lambda>(v, x). (validator_address v, x)) (filter (\<lambda>(v, x). x \<noteq> 0) (zip vs xs))"
  show ?thesis
  proof (rule that[of ?ps])
    show "nonzero_shares vs 0 xs = Inr ?ps" using shares_of_suffix[of 0 xs vs] len by simp
    show "total (map snd ?ps) = unat a" using total_nonzero[OF len] split_total[OF assms] by simp
  qed (auto dest: set_zip_leftD)
qed

end

context uint128_laws
begin

lemma map_unat_length: "map unat xs = ys \<Longrightarrow> length xs = length ys"
  by (metis length_map)

lemma delegations_total: "calculate_delegations L a vs = Inr ds \<Longrightarrow> total ds = unat a"
  using room_suffices[of "delegated vs" "unat a"]
  by (simp add: calculate_delegations_Inr_iff sum_greedy)

lemma undelegations_total: "calculate_undelegations L a vs = Inr us \<Longrightarrow> total us = unat a"
  using excess_suffices[of "delegated vs" "unat a"]
  by (simp add: calculate_undelegations_Inr_iff sum_greedy)

lemma delegations_length: "calculate_delegations L a vs = Inr ds \<Longrightarrow> length ds = length vs"
  by (auto simp: calculate_delegations_Inr_iff dest!: map_unat_length)

lemma undelegations_length: "calculate_undelegations L a vs = Inr us \<Longrightarrow> length us = length vs"
  by (auto simp: calculate_undelegations_Inr_iff dest!: map_unat_length)

end

sublocale uint128_laws \<subseteq> spread: splitter "calculate_delegations L"
  by unfold_locales (auto intro: delegations_total delegations_length)

sublocale uint128_laws \<subseteq> withdraw: splitter "calculate_undelegations L"
  by unfold_locales (auto intro: undelegations_total undelegations_length)

context uint128_laws
begin

lemmas delegations_shares = spread.nonzero_shares_split
lemmas undelegations_shares = withdraw.nonzero_shares_split

end

section \<open>Reference functions\<close>

definition delegations_spec :: "nat \<Rightarrow> nat list \<Rightarrow> nat list result" where
  "delegations_spec a ds =
     (if ds = [] then generic_err ''Empty validators set''
      else if 2 ^ 128 \<le> sum_list ds + a then Inl Panic
      else Inr (greedy (room (even_share (sum_list ds + a) (length ds)) 0 ds) a))"

definition undelegations_spec :: "nat \<Rightarrow> nat list \<Rightarrow> nat list result" where
  "undelegations_spec a ds =
     (if ds = [] then generic_err ''Empty validators set''
      else if 2 ^ 128 \<le> sum_list ds then Inl Panic
      else if sum_list ds < a
      then generic_err ''undelegate amount can't be bigger than total delegated amount''
      else Inr (greedy (excess (even_share (sum_list ds - a) (length ds)) 0 ds) a))"

context uint128_laws
begin

lemma delegations_meet_spec:
  "map_sum id (map unat) (calculate_delegations L a vs) = delegations_spec (unat a) (delegated vs)"
proof (cases "vs = [] \<or> 2 ^ 128 \<le> sum_list (delegated vs)")
  case True
  then show ?thesis
    using prim_sum_overflow[of "map total_delegated vs"]
    by (auto simp: calculate_delegations_def delegations_spec_def comp_def)
next
  case False
  then obtain s where s: "prim_sum (map total_delegated vs) = Inr s" "unat s = sum_list (delegated vs)"
    using ex_unat[where 'w = 128, of "sum_list (delegated vs)"] by (auto simp: result_simps comp_def)
  show ?thesis
  proof (cases "2 ^ 128 \<le> sum_list (delegated vs) + unat a")
    case True
    then have "calculate_delegations L a vs = Inl Panic"
      using False s uint_add_overflow[of s a] by (simp add: calculate_delegations_def)
    then show ?thesis using False True by (simp add: delegations_spec_def)
  next
    case fits: False
    have ne: "vs \<noteq> []" using False by blast
    obtain ds where "calculate_delegations L a vs = Inr ds"
      and "map unat ds = greedy (room (even_share (sum_list (delegated vs) + unat a) (length vs)) 0
        (delegated vs)) (unat a)"
      by (rule calculate_delegations_eq[OF ne]) (use fits in \<open>simp_all only: not_le\<close>)
    then show ?thesis using ne fits by (simp add: delegations_spec_def)
  qed
qed

lemma undelegations_meet_spec:
  "map_sum id (map unat) (calculate_undelegations L a vs)
    = undelegations_spec (unat a) (delegated vs)"
proof (cases "vs = [] \<or> 2 ^ 128 \<le> sum_list (delegated vs)")
  case True
  then show ?thesis
    using uint_sum_overflow[of "map total_delegated vs"]
    by (auto simp: calculate_undelegations_def undelegations_spec_def comp_def)
next
  case False
  then obtain s where s: "uint_sum L (map total_delegated vs) = Inr s" "unat s = sum_list (delegated vs)"
    using uint_sum_ok[of "map total_delegated vs"] by (auto simp: comp_def)
  show ?thesis
  proof (cases "sum_list (delegated vs) < unat a")
    case True
    then have "calculate_undelegations L a vs
        = generic_err ''undelegate amount can't be bigger than total delegated amount''"
      using False s by (simp add: calculate_undelegations_def word_less_nat_alt)
    then show ?thesis using False True by (simp add: undelegations_spec_def)
  next
    case le: False
    have ne: "vs \<noteq> []" using False by blast
    obtain us where "calculate_undelegations L a vs = Inr us"
      and "map unat us = greedy (excess (even_share (sum_list (delegated vs) - unat a) (length vs)) 0
        (delegated vs)) (unat a)"
      by (rule calculate_undelegations_eq[OF ne, of a]) (use False le in \<open>simp_all only: not_le de_Morgan_disj\<close>)
    then show ?thesis using False ne le by (simp add: undelegations_spec_def)
  qed
qed

end

section \<open>Properties\<close>

text \<open>
  C17: Delegating a positive or zero amount over a non-empty validator set whose delegations
  and amount fit a \<open>u128\<close> always succeeds (the "impossible" error is impossible), gives one share
  per validator, distributes exactly the amount, and lifts no validator above its even share
  of the total.
\<close>

theorem calculate_delegations_correct:
  assumes "uint128_laws L" and "vs \<noteq> []" and "sum_list (delegated vs) + unat a < 2 ^ 128"
  shows "\<exists>ds. calculate_delegations L a vs = Inr ds \<and> length ds = length vs \<and> total ds = unat a
    \<and> (\<forall>i < length vs. unat (ds ! i)
        \<le> even_share (sum_list (delegated vs) + unat a) (length vs) i - delegated vs ! i)"
proof -
  obtain ds where ds: "calculate_delegations L a vs = Inr ds"
    "map unat ds = greedy (room (even_share (sum_list (delegated vs) + unat a) (length vs)) 0
      (delegated vs)) (unat a)"
    using uint128_laws.calculate_delegations_eq[OF assms] by blast
  have len: "length ds = length vs" using uint128_laws.delegations_length[OF assms(1) ds(1)] .
  have "map unat ds ! i \<le> room (even_share (sum_list (delegated vs) + unat a) (length vs)) 0
      (delegated vs) ! i" if "i < length vs" for i
    unfolding ds(2) using that by (intro greedy_le) simp
  then show ?thesis
    using ds(1) len uint128_laws.delegations_total[OF assms(1) ds(1)]
    by (intro exI[of _ ds]) (simp add: nth_room)
qed

definition sample_validators :: "(string \<times> u128) list \<Rightarrow> validator_response list" where
  "sample_validators xs = map (\<lambda>(a, d). \<lparr>total_delegated = d, validator_address = a\<rparr>) xs"

lemma calculate_delegations_correct_witness:
  "\<exists>ds. calculate_delegations reference_num 10 (sample_validators [(''a'', 0), (''b'', 4)]) = Inr ds
    \<and> length ds = 2 \<and> total ds = 10"
  using calculate_delegations_correct[OF reference.uint128_laws_axioms,
      of "sample_validators [(''a'', 0), (''b'', 4)]" 10]
  by (auto simp: sample_validators_def)

text \<open>
  C36: When no validator is above its even share of the grown total, delegating brings every
  validator to exactly its even share: delegations are then perfectly balanced.
\<close>

theorem calculate_delegations_balances:
  assumes "uint128_laws L" and "calculate_delegations L a vs = Inr ds"
    and "\<And>i. i < length vs \<Longrightarrow>
      delegated vs ! i \<le> even_share (sum_list (delegated vs) + unat a) (length vs) i"
    and "i < length vs"
  shows "delegated vs ! i + unat (ds ! i)
    = even_share (sum_list (delegated vs) + unat a) (length vs) i"
proof -
  let ?t = "even_share (sum_list (delegated vs) + unat a) (length vs)"
  have eq: "map unat ds = greedy (room ?t 0 (delegated vs)) (unat a)" and "vs \<noteq> []"
    using assms(2) uint128_laws.calculate_delegations_Inr_iff[OF assms(1)] by auto
  then have "sum_list (room ?t 0 (delegated vs)) + sum_list (delegated vs)
      = sum_list (delegated vs) + unat a"
    using sum_room_exact[where i = 0, of "delegated vs" ?t] assms(3) by (simp add: sum_even_share)
  then have "map unat ds ! i = room ?t 0 (delegated vs) ! i" by (simp add: eq greedy_full)
  moreover have "length ds = length vs"
    using uint128_laws.delegations_length[OF assms(1,2)] .
  ultimately show ?thesis using assms(3)[OF assms(4)] assms(4) by (simp add: nth_room)
qed

lemma calculate_delegations_balances_witness:
  "calculate_delegations reference_num 11 (sample_validators [(''a'', 0), (''b'', 4)]) = Inr [8, 3]
    \<and> 0 + unat (8 :: u128) = even_share 15 2 0"
proof -
  have run: "calculate_delegations reference_num 11 (sample_validators [(''a'', 0), (''b'', 4)])
      = Inr [8, 3]"
    by code_simp
  have room: "delegated (sample_validators [(''a'', 0), (''b'', 4)]) ! i
      \<le> even_share (sum_list (delegated (sample_validators [(''a'', 0), (''b'', 4)])) + unat (11 :: u128))
          (length (sample_validators [(''a'', 0), (''b'', 4)])) i"
    if "i < length (sample_validators [(''a'', 0), (''b'', 4)])" for i
  proof -
    have "i = 0 \<or> i = 1" using that by (auto simp: sample_validators_def)
    then show ?thesis by (elim disjE) (simp_all add: sample_validators_def even_share_def flip: numeral_2_eq_2)
  qed
  show ?thesis
    using run calculate_delegations_balances[OF reference.uint128_laws_axioms run room, of 0]
    by (simp add: sample_validators_def flip: numeral_2_eq_2)
qed

text \<open>
  C16: Undelegating at most what is delegated ends (one pass of the \<open>while\<close> loop suffices, gas
  cannot run out), gives one share per validator, withdraws exactly the amount, takes from no
  validator more than it has above its even share of the remaining total.
\<close>

theorem calculate_undelegations_correct:
  assumes "uint128_laws L" and "vs \<noteq> []" and "sum_list (delegated vs) < 2 ^ 128"
    and "unat a \<le> sum_list (delegated vs)"
  shows "\<exists>us. calculate_undelegations L a vs = Inr us \<and> length us = length vs \<and> total us = unat a
    \<and> (\<forall>i < length vs. unat (us ! i)
        \<le> delegated vs ! i - even_share (sum_list (delegated vs) - unat a) (length vs) i)"
proof -
  obtain us where us: "calculate_undelegations L a vs = Inr us"
    "map unat us = greedy (excess (even_share (sum_list (delegated vs) - unat a) (length vs)) 0
      (delegated vs)) (unat a)"
    using uint128_laws.calculate_undelegations_eq[OF assms] by blast
  have len: "length us = length vs" using uint128_laws.undelegations_length[OF assms(1) us(1)] .
  have "map unat us ! i \<le> excess (even_share (sum_list (delegated vs) - unat a) (length vs)) 0
      (delegated vs) ! i" if "i < length vs" for i
    unfolding us(2) using that by (intro greedy_le) simp
  then show ?thesis
    using us(1) len uint128_laws.undelegations_total[OF assms(1) us(1)]
    by (intro exI[of _ us]) (simp add: nth_excess)
qed

lemma calculate_undelegations_correct_witness:
  "\<exists>us. calculate_undelegations reference_num 10 (sample_validators [(''a'', 20), (''b'', 4)]) = Inr us
    \<and> length us = 2 \<and> total us = 10"
  using calculate_undelegations_correct[OF reference.uint128_laws_axioms,
      of "sample_validators [(''a'', 20), (''b'', 4)]" 10]
  by (auto simp: sample_validators_def)

text \<open>
  C11: The two routines compute reference functions over natural numbers on every input, errors
  included: the greedy assignment of the amount to the room below (or the excess above) even
  shares, the error for an empty set, a panic where the total leaves \<open>u128\<close>, and the error for
  undelegating too much. In particular the \<open>while\<close> loop ends on every input.
\<close>

theorem calculations_refine_spec:
  assumes "uint128_laws L"
  shows "map_sum id (map unat) (calculate_delegations L a vs) = delegations_spec (unat a) (delegated vs)
    \<and> map_sum id (map unat) (calculate_undelegations L a vs)
      = undelegations_spec (unat a) (delegated vs)"
  using uint128_laws.delegations_meet_spec[OF assms] uint128_laws.undelegations_meet_spec[OF assms]
  by blast

lemma calculations_refine_spec_witness:
  "map_sum id (map unat) (calculate_undelegations reference_num 30
      (sample_validators [(''a'', 20), (''b'', 4)]))
    = generic_err ''undelegate amount can't be bigger than total delegated amount''"
  using calculations_refine_spec[OF reference.uint128_laws_axioms, of 30
      "sample_validators [(''a'', 20), (''b'', 4)]"]
  by (simp add: sample_validators_def undelegations_spec_def)

end
