(* ===== verification/Hub_Bond.thy ===== *)
theory Hub_Bond
  imports Hub_Slashing Registry_Common
begin

text \<open>
  Bonding (\<^verbatim>\<open>lido_cosmos_hub/src/bond.rs\<close> and \<^verbatim>\<open>math.rs\<close>): a deposit, or the rewards the
  dispatcher sends back, is delegated over the registered validators; a depositor is minted
  stAtom at the exchange rate, rewards raise the rate instead.
\<close>

definition decimal_division :: "num_lib \<Rightarrow> u128 \<Rightarrow> decimal \<Rightarrow> u128 result" where
  "decimal_division L a b =
     and_then (uint_mul_decimal L 1000000000000000000 b) (\<lambda>b_atomics.
     and_then (decimal_from_ratio L a b_atomics) (\<lambda>d.
     uint_mul_decimal L 1000000000000000000 d))"

text \<open>\<open>info.funds.iter().find(..)\<close> for the payment in the staked denomination.\<close>

definition find_payment :: "string \<Rightarrow> coin list \<Rightarrow> coin option" where
  "find_payment coin_den coins = find (\<lambda>x. coin_denom x = coin_den \<and> coin_amount x > 0) coins"

text \<open>\<open>STATE.update(..)\<close> after the slashing check.\<close>

definition bond_update_state ::
  "deps \<Rightarrow> bond_type \<Rightarrow> u128 \<Rightarrow> u128 \<Rightarrow> u128 \<Rightarrow> hub_store \<Rightarrow> hub_store result" where
  "bond_update_state D bond_type payment total_supply requested s =
     and_then (load_state s) (\<lambda>prev.
     and_then (uint_add (numbers D) (total_bond_statom_amount prev) payment) (\<lambda>bonded.
     let prev1 = prev\<lparr>total_bond_statom_amount := bonded\<rparr> in
     case bond_type of
       bond_type.BondRewards \<Rightarrow>
         and_then (update_statom_exchange_rate (numbers D) total_supply requested prev1) (\<lambda>prev2.
         Inr (save_state prev2 s))
     | StAtom \<Rightarrow> Inr (save_state prev1 s)))"

definition delegate_messages ::
  "string \<Rightarrow> (string \<times> u128) list \<Rightarrow> payload cosmos_msg list" where
  "delegate_messages denom shares =
     map (\<lambda>(v, x). Delegate v \<lparr>coin_denom = denom, coin_amount = x\<rparr>) shares"

definition execute_bond ::
  "deps \<Rightarrow> env \<Rightarrow> message_info \<Rightarrow> bond_type \<Rightarrow> hub_store \<Rightarrow> (payload response \<times> hub_store) result"
  where
  "execute_bond D env info bond_type s =
     and_then (load_parameters s) (\<lambda>params.
     if is_hub_paused params then generic_err ''the contract is temporarily paused''
     else
     and_then (load_config s) (\<lambda>config.
     and_then (ok_or (reward_dispatcher_contract config)
         (StdErr (GenericErr ''the reward dispatcher contract must have been registered'')))
       (\<lambda>reward_dispatcher.
     if bond_type = bond_type.BondRewards \<and> info_sender info \<noteq> reward_dispatcher
     then generic_err ''unauthorized''
     else
     and_then (load_current_batch s) (\<lambda>current_batch.
     if length (info_funds info) > 1
     then generic_err ''More than one coin is sent; only one asset is supported''
     else
     and_then (ok_or (find_payment (underlying_coin_denom params) (info_funds info))
         (StdErr (GenericErr (''No '' @ underlying_coin_denom params @
            '' assets are provided to bond'')))) (\<lambda>payment.
     and_then (slashing D env s) (\<lambda>(state, s1).
     and_then (case bond_type of
         StAtom \<Rightarrow> decimal_division (numbers D) (coin_amount payment) (statom_exchange_rate state)
       | bond_type.BondRewards \<Rightarrow> Inr 0) (\<lambda>mint_amount.
     and_then (uint_add (numbers D) (total_statom_issued state) mint_amount) (\<lambda>total_supply.
     and_then (bond_update_state D bond_type (coin_amount payment) total_supply
         (requested_statom current_batch) s1) (\<lambda>s2.
     and_then (ok_or (validators_registry_contract config)
         (StdErr (GenericErr ''Validators registry contract address is empty''))) (\<lambda>registry.
     and_then (query_validators_for_delegation (querier D) registry) (\<lambda>validators.
     if validators = [] then generic_err ''Validators registry is empty''
     else
     and_then (calculate_delegations (numbers D) (coin_amount payment) validators) (\<lambda>delegations.
     and_then (nonzero_shares validators 0 delegations) (\<lambda>shares.
     let delegate_msgs = delegate_messages (coin_denom payment) shares in
     if bond_type = bond_type.BondRewards then
       Inr (add_attributes [(''action'', AttrStr ''bond_rewards''),
              (''from'', AttrStr (info_sender info)),
              (''bonded'', AttrUint (coin_amount payment))]
              (add_messages delegate_msgs new_response), s2)
     else
     and_then (ok_or (statom_token_contract config)
         (StdErr (GenericErr ''the token contract must have been registered''))) (\<lambda>token_address.
     Inr (add_attributes [(''action'', AttrStr ''mint''),
            (''from'', AttrStr (info_sender info)),
            (''bonded'', AttrUint (coin_amount payment)),
            (''minted'', AttrUint mint_amount)]
            (add_messages (delegate_msgs @
               [WasmExecute token_address (TokenMsg (Mint (info_sender info) mint_amount)) []])
               new_response), s2)))))))))))))))"

section \<open>Facts\<close>

context decimal_laws
begin

text \<open>Scaling by \<open>10\<^sup>1\<^sup>8\<close> and back cancels: the quotient is rounded once.\<close>

lemma decimal_division_value:
  assumes "decimal_division L a b = Inr c"
  shows "unat (atomics b) \<noteq> 0 \<and> unat c = unat a * fractional div unat (atomics b)"
proof -
  obtain m d where m: "uint_mul_decimal L 1000000000000000000 b = Inr m"
    and d: "decimal_from_ratio L a m = Inr d"
    and c: "uint_mul_decimal L 1000000000000000000 d = Inr c"
    using assms by (auto simp: decimal_division_def result_simps)
  have "unat m = unat (atomics b)" using mul_decimal_sound[OF m] by simp
  moreover have "unat c = unat (atomics d)" using mul_decimal_sound[OF c] by simp
  ultimately show ?thesis using from_ratio_sound[OF d] by simp
qed

lemma decimal_division_total:
  assumes "atomics b \<noteq> 0" and "fractional * unat (atomics b) < 2 ^ 128"
    and "unat a * fractional < 2 ^ 128"
    and "unat a * fractional div unat (atomics b) * fractional < 2 ^ 128"
  shows "\<exists>c. decimal_division L a b = Inr c"
proof -
  obtain m where m: "uint_mul_decimal L 1000000000000000000 b = Inr m"
    using mul_decimal_total[of 1000000000000000000 b] assms(2) by auto
  have v: "unat m = unat (atomics b)" using mul_decimal_sound[OF m] by simp
  then have "m \<noteq> 0" using assms(1) by (metis unsigned_word_eqI)
  then obtain d where d: "decimal_from_ratio L a m = Inr d"
    using from_ratio_total[of m a] assms(3) by auto
  have "unat (1000000000000000000 :: u128) * unat (atomics d) < 2 ^ 128"
    using from_ratio_sound[OF d] v assms(4) by (simp add: mult.commute)
  then obtain c where "uint_mul_decimal L 1000000000000000000 d = Inr c"
    using mul_decimal_total by blast
  with m d show ?thesis by (simp add: decimal_division_def)
qed

end

text \<open>A list of delegations of exactly \<open>n\<close>, in non-zero parts, to given validators.\<close>

definition delegates_exactly ::
  "string \<Rightarrow> string set \<Rightarrow> nat \<Rightarrow> payload cosmos_msg list \<Rightarrow> bool" where
  "delegates_exactly denom targets n ms \<longleftrightarrow>
     (\<exists>ps. ms = delegate_messages denom ps \<and> total (map snd ps) = n
        \<and> (\<forall>(v, x) \<in> set ps. x \<noteq> 0 \<and> v \<in> targets))"

lemma find_payment_Some:
  "find_payment denom funds = Some c \<Longrightarrow> c \<in> set funds \<and> coin_denom c = denom \<and> 0 < coin_amount c"
  by (auto simp: find_payment_def find_Some_iff)

lemma single_payment:
  assumes "find_payment denom funds = Some c" and "\<not> length funds > 1"
  shows "funds = [c]"
  using assms find_payment_Some[OF assms(1)] by (cases funds) auto

text \<open>A successful bond, taken apart.\<close>

lemma execute_bond_Inr:
  assumes "execute_bond D env info ty s = Inr (r, s')"
  obtains params config dispatcher batch payment st s1 minted issued registry vs ds shares where
    "load_parameters s = Inr params" "\<not> is_hub_paused params"
    "load_config s = Inr config" "reward_dispatcher_contract config = Some dispatcher"
    "ty = bond_type.BondRewards \<longrightarrow> info_sender info = dispatcher"
    "load_current_batch s = Inr batch"
    "info_funds info = [payment]" "coin_denom payment = underlying_coin_denom params"
    "0 < coin_amount payment"
    "slashing D env s = Inr (st, s1)"
    "(case ty of StAtom \<Rightarrow> decimal_division (numbers D) (coin_amount payment) (statom_exchange_rate st)
      | bond_type.BondRewards \<Rightarrow> Inr 0) = Inr minted"
    "uint_add (numbers D) (total_statom_issued st) minted = Inr issued"
    "bond_update_state D ty (coin_amount payment) issued (requested_statom batch) s1 = Inr s'"
    "validators_registry_contract config = Some registry"
    "query_validators_for_delegation (querier D) registry = Inr vs" "vs \<noteq> []"
    "calculate_delegations (numbers D) (coin_amount payment) vs = Inr ds"
    "nonzero_shares vs 0 ds = Inr shares"
    "ty = bond_type.BondRewards \<longrightarrow> messages r = delegate_messages (coin_denom payment) shares"
    "ty = StAtom \<longrightarrow> (\<exists>token. statom_token_contract config = Some token
      \<and> messages r = delegate_messages (coin_denom payment) shares
          @ [WasmExecute token (TokenMsg (Mint (info_sender info) minted)) []])"
proof -
  obtain params where params: "load_parameters s = Inr params" "\<not> is_hub_paused params"
    using assms by (auto simp: execute_bond_def result_simps split: if_splits)
  obtain config dispatcher where config: "load_config s = Inr config"
    "reward_dispatcher_contract config = Some dispatcher"
    "ty = bond_type.BondRewards \<longrightarrow> info_sender info = dispatcher"
    using assms params by (auto simp: execute_bond_def result_simps split: if_splits)
  obtain batch payment where batch: "load_current_batch s = Inr batch"
    and payment: "find_payment (underlying_coin_denom params) (info_funds info) = Some payment"
      "\<not> length (info_funds info) > 1"
    using assms params config by (auto simp: execute_bond_def result_simps split: if_splits)
  note rest = assms[unfolded execute_bond_def]
  note known = params config batch payment
  obtain st s1 minted issued where slash: "slashing D env s = Inr (st, s1)"
    and minted: "(case ty of StAtom \<Rightarrow>
        decimal_division (numbers D) (coin_amount payment) (statom_exchange_rate st)
      | bond_type.BondRewards \<Rightarrow> Inr 0) = Inr minted"
    and issued: "uint_add (numbers D) (total_statom_issued st) minted = Inr issued"
    and upd: "bond_update_state D ty (coin_amount payment) issued (requested_statom batch) s1 = Inr s'"
    using rest known by (cases ty) (auto simp: result_simps Let_def split: if_splits)
  obtain registry vs ds shares where registry: "validators_registry_contract config = Some registry"
    and vs: "query_validators_for_delegation (querier D) registry = Inr vs" "vs \<noteq> []"
    and ds: "calculate_delegations (numbers D) (coin_amount payment) vs = Inr ds"
      "nonzero_shares vs 0 ds = Inr shares"
    using rest known slash by (cases ty) (auto simp: result_simps Let_def split: if_splits)
  have "(ty = bond_type.BondRewards \<longrightarrow> messages r = delegate_messages (coin_denom payment) shares)
    \<and> (ty = StAtom \<longrightarrow> (\<exists>token. statom_token_contract config = Some token
      \<and> messages r = delegate_messages (coin_denom payment) shares
          @ [WasmExecute token (TokenMsg (Mint (info_sender info) minted)) []]))"
    using rest known slash minted issued upd registry vs ds
    by (cases ty) (auto simp: result_simps Let_def split: if_splits)
  with known slash minted issued upd registry vs ds show thesis
    using that single_payment[OF payment] find_payment_Some[OF payment(1)] by metis
qed

context decimal_laws
begin

lemma bond_update_StAtom:
  assumes "numbers D = L" and "bond_update_state D StAtom a issued req (save_state st s) = Inr s'"
  obtains b where "s' = save_state (st\<lparr>total_bond_statom_amount := b\<rparr>) s"
    and "unat b = unat (total_bond_statom_amount st) + unat a"
  using assms
  by (auto simp: bond_update_state_def result_simps uint_add_Inr Let_def save_state_def load_state_def)

lemma bond_update_BondRewards:
  assumes "numbers D = L"
    and "bond_update_state D bond_type.BondRewards a issued req (save_state st s) = Inr s'"
  obtains b rate where
    "s' = save_state (st\<lparr>total_bond_statom_amount := b, statom_exchange_rate := rate\<rparr>) s"
    and "unat b = unat (total_bond_statom_amount st) + unat a"
    and "unat (atomics rate) = rate_spec (unat b) (unat issued + unat req)"
proof -
  obtain b st2 where b: "unat b = unat (total_bond_statom_amount st) + unat a"
    and upd: "update_statom_exchange_rate L issued req
        (st\<lparr>total_statom_issued := 0, total_bond_statom_amount := b\<rparr>) = Inr st2"
    and s': "s' = save_state st2 s"
    using assms by (auto simp: bond_update_state_def result_simps uint_add_Inr Let_def)
  from upd show thesis
  proof (rule update_rate)
    fix rate
    assume "st2 = st\<lparr>total_statom_issued := 0, total_bond_statom_amount := b\<rparr>\<lparr>statom_exchange_rate := rate\<rparr>"
      and "unat (atomics rate) = rate_spec (unat (total_bond_statom_amount
        (st\<lparr>total_statom_issued := 0, total_bond_statom_amount := b\<rparr>))) (unat issued + unat req)"
    with b s' that[of rate b] show thesis by (simp add: save_state_def)
  qed
qed

lemma shares_delegate_exactly:
  assumes "calculate_delegations L a vs = Inr ds" and "nonzero_shares vs 0 ds = Inr shares"
  shows "delegates_exactly denom (validator_address ` set vs) (unat a) (delegate_messages denom shares)"
proof (rule delegations_shares[OF assms(1)])
  fix ps
  assume "nonzero_shares vs 0 ds = Inr ps" and "total (map snd ps) = unat a"
    and "\<And>v x. (v, x) \<in> set ps \<Longrightarrow> x \<noteq> 0 \<and> v \<in> validator_address ` set vs"
  with assms(2) show ?thesis unfolding delegates_exactly_def
    by (intro exI[of _ ps]) auto
qed

end

lemma rate_spec_mono: "0 < b \<Longrightarrow> b \<le> b' \<Longrightarrow> rate_spec b n \<le> rate_spec b' n"
  by (simp add: rate_spec_def div_le_mono)

lemma bond_rewards_facts:
  assumes "decimal_laws (numbers D)" and "execute_bond D env info bond_type.BondRewards s = Inr (r, s')"
  shows "\<exists>c registry vs payment batch st b rate.
      load_config s = Inr c \<and> reward_dispatcher_contract c = Some (info_sender info)
    \<and> validators_registry_contract c = Some registry
    \<and> query_validators_for_delegation (querier D) registry = Inr vs
    \<and> info_funds info = [payment] \<and> load_current_batch s = Inr batch
    \<and> slashing D env s = Inr (st, save_state st s)
    \<and> delegates_exactly (coin_denom payment) (validator_address ` set vs)
        (unat (coin_amount payment)) (messages r)
    \<and> s' = save_state (st\<lparr>total_bond_statom_amount := b, statom_exchange_rate := rate\<rparr>) s
    \<and> unat b = unat (total_bond_statom_amount st) + unat (coin_amount payment)
    \<and> unat (atomics rate)
        = rate_spec (unat b) (unat (total_statom_issued st) + unat (requested_statom batch))"
proof (rule execute_bond_Inr[OF assms(2)])
  fix p c dispatcher batch payment st s1 minted issued registry vs ds shares
  assume slash: "slashing D env s = Inr (st, s1)"
    and upd: "bond_update_state D bond_type.BondRewards (coin_amount payment) issued
        (requested_statom batch) s1 = Inr s'"
    and mint: "(case bond_type.BondRewards of
        StAtom \<Rightarrow> decimal_division (numbers D) (coin_amount payment) (statom_exchange_rate st)
      | bond_type.BondRewards \<Rightarrow> Inr 0) = Inr minted"
    and issued: "uint_add (numbers D) (total_statom_issued st) minted = Inr issued"
    and ds: "calculate_delegations (numbers D) (coin_amount payment) vs = Inr ds"
    and shares: "nonzero_shares vs 0 ds = Inr shares"
    and sender: "reward_dispatcher_contract c = Some dispatcher"
      "bond_type.BondRewards = bond_type.BondRewards \<longrightarrow> info_sender info = dispatcher"
    and facts: "load_config s = Inr c" "validators_registry_contract c = Some registry"
      "query_validators_for_delegation (querier D) registry = Inr vs"
      "info_funds info = [payment]" "load_current_batch s = Inr batch"
    and r: "bond_type.BondRewards = bond_type.BondRewards \<longrightarrow>
      messages r = delegate_messages (coin_denom payment) shares"
  note s1 = slashing_store[OF slash, THEN conjunct2]
  have "uint128_laws (numbers D)" using assms(1) by (simp add: decimal_laws_def)
  then have "unat issued = unat (total_statom_issued st)"
    using issued mint by (simp add: uint128_laws.uint_add_Inr)
  then obtain b rate where
    "s' = save_state (st\<lparr>total_bond_statom_amount := b, statom_exchange_rate := rate\<rparr>) s"
    "unat b = unat (total_bond_statom_amount st) + unat (coin_amount payment)"
    "unat (atomics rate)
      = rate_spec (unat b) (unat (total_statom_issued st) + unat (requested_statom batch))"
    using decimal_laws.bond_update_BondRewards[OF assms(1) refl] upd s1 by metis
  moreover have "delegates_exactly (coin_denom payment) (validator_address ` set vs)
      (unat (coin_amount payment)) (messages r)"
    using decimal_laws.shares_delegate_exactly[OF assms(1) ds shares] r by simp
  moreover have "reward_dispatcher_contract c = Some (info_sender info)" using sender by simp
  ultimately show ?thesis using facts slash[unfolded s1] by blast
qed

lemma bond_mints_facts:
  assumes "decimal_laws (numbers D)" and "execute_bond D env info StAtom s = Inr (r, s')"
  shows "\<exists>p c registry token vs payment st minted b ms.
      load_parameters s = Inr p \<and> \<not> is_hub_paused p \<and> load_config s = Inr c
    \<and> validators_registry_contract c = Some registry \<and> statom_token_contract c = Some token
    \<and> query_validators_for_delegation (querier D) registry = Inr vs
    \<and> info_funds info = [payment] \<and> coin_denom payment = underlying_coin_denom p
    \<and> 0 < coin_amount payment
    \<and> slashing D env s = Inr (st, save_state st s)
    \<and> unat minted = unat (coin_amount payment) * fractional div unat (atomics (statom_exchange_rate st))
    \<and> messages r = ms @ [WasmExecute token (TokenMsg (Mint (info_sender info) minted)) []]
    \<and> delegates_exactly (coin_denom payment) (validator_address ` set vs)
        (unat (coin_amount payment)) ms
    \<and> s' = save_state (st\<lparr>total_bond_statom_amount := b\<rparr>) s
    \<and> unat b = unat (total_bond_statom_amount st) + unat (coin_amount payment)"
proof (rule execute_bond_Inr[OF assms(2)])
  fix p c dispatcher batch payment st s1 minted issued registry vs ds shares
  assume slash: "slashing D env s = Inr (st, s1)"
    and upd: "bond_update_state D StAtom (coin_amount payment) issued (requested_statom batch) s1 = Inr s'"
    and mint: "(case StAtom of
        StAtom \<Rightarrow> decimal_division (numbers D) (coin_amount payment) (statom_exchange_rate st)
      | bond_type.BondRewards \<Rightarrow> Inr 0) = Inr minted"
    and ds: "calculate_delegations (numbers D) (coin_amount payment) vs = Inr ds"
    and shares: "nonzero_shares vs 0 ds = Inr shares"
    and facts: "load_parameters s = Inr p" "\<not> is_hub_paused p" "load_config s = Inr c"
      "validators_registry_contract c = Some registry"
      "query_validators_for_delegation (querier D) registry = Inr vs"
      "info_funds info = [payment]" "coin_denom payment = underlying_coin_denom p"
      "0 < coin_amount payment"
    and r: "StAtom = StAtom \<longrightarrow> (\<exists>token. statom_token_contract c = Some token
      \<and> messages r = delegate_messages (coin_denom payment) shares
          @ [WasmExecute token (TokenMsg (Mint (info_sender info) minted)) []])"
  note s1 = slashing_store[OF slash, THEN conjunct2]
  have "unat minted = unat (coin_amount payment) * fractional div unat (atomics (statom_exchange_rate st))"
    using decimal_laws.decimal_division_value[OF assms(1)] mint by simp
  moreover obtain b where "s' = save_state (st\<lparr>total_bond_statom_amount := b\<rparr>) s"
    "unat b = unat (total_bond_statom_amount st) + unat (coin_amount payment)"
    using decimal_laws.bond_update_StAtom[OF assms(1) refl] upd s1 by metis
  moreover note decimal_laws.shares_delegate_exactly[OF assms(1) ds shares]
  ultimately show ?thesis using facts slash s1 r by blast
qed

section \<open>Properties\<close>

text \<open>
  C39: Dividing an amount by an exchange rate: a result is exactly the quotient rounded down, the
  rate is then not zero, and there is a result whenever the intermediate values fit.
\<close>

theorem decimal_division_correct:
  assumes "decimal_laws L"
  shows "(\<forall>c. decimal_division L a b = Inr c \<longrightarrow>
      unat (atomics b) \<noteq> 0 \<and> unat c = unat a * fractional div unat (atomics b))
    \<and> (atomics b \<noteq> 0 \<and> fractional * unat (atomics b) < 2 ^ 128 \<and> unat a * fractional < 2 ^ 128
        \<and> unat a * fractional div unat (atomics b) * fractional < 2 ^ 128 \<longrightarrow>
      (\<exists>c. decimal_division L a b = Inr c))"
  using decimal_laws.decimal_division_value[OF assms] decimal_laws.decimal_division_total[OF assms]
  by blast

lemma decimal_division_correct_witness:
  "\<exists>c. decimal_division reference_num 100 (Decimal 200000000000000000) = Inr c \<and> unat c = 500"
proof -
  note division = decimal_division_correct[OF reference.decimal_laws_axioms, of 100
      "Decimal 200000000000000000"]
  have "\<exists>c. decimal_division reference_num 100 (Decimal 200000000000000000) = Inr c"
    using division by simp
  then show ?thesis using division by auto
qed

text \<open>
  C10: A deposit that is accepted: it is a single positive payment in the staked denomination; the
  depositor is minted the payment divided by the exchange rate of the slashing check, rounded
  down; exactly the payment is delegated, in non-zero parts, to validators the registry named;
  and the bonded amount grows by the payment, while nothing else is stored.
\<close>

theorem bond_mints_at_rate:
  assumes "decimal_laws (numbers D)" and "execute_bond D env info StAtom s = Inr (r, s')"
  shows "\<exists>p c registry token vs payment st minted b ms.
      load_parameters s = Inr p \<and> \<not> is_hub_paused p \<and> load_config s = Inr c
    \<and> validators_registry_contract c = Some registry \<and> statom_token_contract c = Some token
    \<and> query_validators_for_delegation (querier D) registry = Inr vs
    \<and> info_funds info = [payment] \<and> coin_denom payment = underlying_coin_denom p
    \<and> 0 < coin_amount payment
    \<and> slashing D env s = Inr (st, save_state st s)
    \<and> unat minted = unat (coin_amount payment) * fractional div unat (atomics (statom_exchange_rate st))
    \<and> messages r = ms @ [WasmExecute token (TokenMsg (Mint (info_sender info) minted)) []]
    \<and> delegates_exactly (coin_denom payment) (validator_address ` set vs)
        (unat (coin_amount payment)) ms
    \<and> s' = save_state (st\<lparr>total_bond_statom_amount := b\<rparr>) s
    \<and> unat b = unat (total_bond_statom_amount st) + unat (coin_amount payment)"
  using assms by (rule bond_mints_facts)

lemma bond_mints_at_rate_witness:
  "\<exists>ms b. messages (fst (projr (execute_bond (sample_deps 0) (at_time 150)
        (call_from ''bob'' [uatom 19]) StAtom sample_hub)))
      = ms @ [WasmExecute ''tok'' (TokenMsg (Mint ''bob'' 18)) []]
    \<and> delegates_exactly ''uatom'' {''a'', ''b''} 19 ms \<and> unat (b :: u128) = 114"
proof -
  let ?run = "execute_bond (sample_deps 0) (at_time 150) (call_from ''bob'' [uatom 19]) StAtom sample_hub"
  have laws: "decimal_laws (numbers (sample_deps 0))" by (simp add: reference.decimal_laws_axioms)
  have "isl ?run = False" by code_simp
  then obtain r s' where run: "?run = Inr (r, s')" by (cases ?run) auto
  have mint: "last (messages (fst (projr ?run))) = WasmExecute ''tok'' (TokenMsg (Mint ''bob'' 18)) []"
    by code_simp
  have bonded: "total_bond_statom_amount (fst (projr (slashing (sample_deps 0) (at_time 150) sample_hub)))
      = 95" by code_simp
  have data: "load_config sample_hub = Inr sample_config"
    "validators_registry_contract sample_config = Some ''reg''"
    "query_validators_for_delegation (querier (sample_deps 0)) ''reg'' =
      Inr [\<lparr>total_delegated = 35, validator_address = ''b''\<rparr>,
           \<lparr>total_delegated = 60, validator_address = ''a''\<rparr>]"
    by (simp_all add: sample_deps_def fixed_querier_def load_config_def sample_hub_def sample_config_def)
  show ?thesis
    using bond_mints_at_rate[OF laws run] data mint bonded run
    by (auto simp: call_from_def uatom_def insert_commute)
qed

text \<open>
  C21: Rewards sent back to the hub: only the registered dispatcher can bond them; they are
  delegated exactly, nothing is minted, the bonded amount grows by them and the new exchange rate
  is the bonded amount per token issued and requested.
\<close>

theorem bond_rewards_correct:
  assumes "decimal_laws (numbers D)" and "execute_bond D env info bond_type.BondRewards s = Inr (r, s')"
  shows "\<exists>c registry vs payment batch st b rate.
      load_config s = Inr c \<and> reward_dispatcher_contract c = Some (info_sender info)
    \<and> validators_registry_contract c = Some registry
    \<and> query_validators_for_delegation (querier D) registry = Inr vs
    \<and> info_funds info = [payment] \<and> load_current_batch s = Inr batch
    \<and> slashing D env s = Inr (st, save_state st s)
    \<and> delegates_exactly (coin_denom payment) (validator_address ` set vs)
        (unat (coin_amount payment)) (messages r)
    \<and> s' = save_state (st\<lparr>total_bond_statom_amount := b, statom_exchange_rate := rate\<rparr>) s
    \<and> unat b = unat (total_bond_statom_amount st) + unat (coin_amount payment)
    \<and> unat (atomics rate)
        = rate_spec (unat b) (unat (total_statom_issued st) + unat (requested_statom batch))"
  using assms by (rule bond_rewards_facts)

lemma bond_rewards_correct_witness:
  "delegates_exactly ''uatom'' {''a'', ''b''} 19 (messages (fst (projr (execute_bond
      (sample_deps 0) (at_time 150) (call_from ''disp'' [uatom 19]) bond_type.BondRewards sample_hub))))"
proof -
  let ?run = "execute_bond (sample_deps 0) (at_time 150) (call_from ''disp'' [uatom 19])
    bond_type.BondRewards sample_hub"
  have laws: "decimal_laws (numbers (sample_deps 0))" by (simp add: reference.decimal_laws_axioms)
  have "isl ?run = False" by code_simp
  then obtain r s' where run: "?run = Inr (r, s')" by (cases ?run) auto
  have data: "load_config sample_hub = Inr sample_config"
    "validators_registry_contract sample_config = Some ''reg''"
    "query_validators_for_delegation (querier (sample_deps 0)) ''reg'' =
      Inr [\<lparr>total_delegated = 35, validator_address = ''b''\<rparr>,
           \<lparr>total_delegated = 60, validator_address = ''a''\<rparr>]"
    by (simp_all add: sample_deps_def fixed_querier_def load_config_def sample_hub_def sample_config_def)
  show ?thesis
    using bond_rewards_correct[OF laws run] data run
    by (auto simp: call_from_def uatom_def insert_commute)
qed

text \<open>
  Rewards never lower the exchange rate, where the chain reports delegations and something is
  bonded after the slashing check.
\<close>

theorem rewards_never_lower_rate:
  assumes "decimal_laws (numbers D)"
    and "execute_bond D env info bond_type.BondRewards s = Inr (r, s')"
    and "load_state s = Inr st0" and "total_bond_statom_amount st0 \<noteq> 0"
    and "query_all_delegations (querier D) (contract_address env) = Inr ds" and "ds \<noteq> []"
    and "slashing D env s = Inr (st, s1)" and "total_bond_statom_amount st \<noteq> 0"
    and "load_state s' = Inr st'"
  shows "statom_exchange_rate st \<le> statom_exchange_rate st'"
proof -
  obtain payment :: coin and batch st2 b rate where slash: "slashing D env s = Inr (st2, save_state st2 s)"
    and batch: "load_current_batch s = Inr batch"
    and s': "s' = save_state (st2\<lparr>total_bond_statom_amount := b, statom_exchange_rate := rate\<rparr>) s"
    and b: "unat b = unat (total_bond_statom_amount st2) + unat (coin_amount payment)"
    and rate: "unat (atomics rate)
      = rate_spec (unat b) (unat (total_statom_issued st2) + unat (requested_statom batch))"
    using bond_rewards_facts[OF assms(1,2)] by blast
  have eq: "st2 = st" using slash assms(7) by simp
  have "unat (atomics (statom_exchange_rate st)) = rate_spec (unat (total_bond_statom_amount st))
      (unat (total_statom_issued st) + unat (requested_statom batch))"
    using decimal_laws.actual_state[OF assms(1) refl slashing_store[OF assms(7), THEN conjunct1]
        assms(3,5)] assms(4,6) batch by auto
  moreover have "0 < unat (total_bond_statom_amount st)" using assms(8) by (simp add: unat_gt_0)
  moreover have "statom_exchange_rate st' = rate" using assms(9) by (auto simp: s' eq)
  ultimately show ?thesis
    using rate b unfolding eq less_eq_decimal_def word_le_nat_alt by (simp add: rate_spec_mono)
qed

lemma rewards_never_lower_rate_witness:
  "statom_exchange_rate (fst (projr (slashing (sample_deps 0) (at_time 150) sample_hub)))
    \<le> statom_exchange_rate (projr (load_state (snd (projr (execute_bond (sample_deps 0)
        (at_time 150) (call_from ''disp'' [uatom 19]) bond_type.BondRewards sample_hub)))))"
proof -
  let ?run = "execute_bond (sample_deps 0) (at_time 150) (call_from ''disp'' [uatom 19])
    bond_type.BondRewards sample_hub"
  let ?slash = "slashing (sample_deps 0) (at_time 150) sample_hub"
  have laws: "decimal_laws (numbers (sample_deps 0))" by (simp add: reference.decimal_laws_axioms)
  have "isl ?run = False" and "isl ?slash = False" by code_simp+
  then obtain r s' st s1 where run: "?run = Inr (r, s')" and slash: "?slash = Inr (st, s1)"
    by (cases ?run; cases ?slash) auto
  have "isl (load_state (snd (projr ?run))) = False" by code_simp
  then have "isl (load_state s') = False" by (simp add: run)
  then obtain st' where st': "load_state s' = Inr st'" by (cases "load_state s'") auto
  have "total_bond_statom_amount (fst (projr ?slash)) = 95" by code_simp
  then have bonded: "total_bond_statom_amount st \<noteq> 0" by (simp add: slash)
  have state: "load_state sample_hub = Inr sample_state" "total_bond_statom_amount sample_state \<noteq> 0"
    by (simp_all add: load_state_def sample_hub_def sample_state_def)
  have ds: "query_all_delegations (querier (sample_deps 0)) (contract_address (at_time 150))
    = Inr [\<lparr>delegation_validator = ''a'', delegation_coin = uatom 60\<rparr>,
      \<lparr>delegation_validator = ''b'', delegation_coin = uatom 35\<rparr>]"
    by (simp add: sample_deps_def fixed_querier_def)
  show ?thesis
    using rewards_never_lower_rate[OF laws run state ds _ slash bonded st'] run slash st' by simp
qed

end
