(* ===== verification/Signed_Int.thy ===== *)
theory Signed_Int
  imports Numbers
begin

text \<open>
  The package \<^verbatim>\<open>packages/signed_integers\<close>: a magnitude with a sign, made by subtracting two
  unsigned numbers in either order.
\<close>

datatype signed_int = SignedInt (magnitude: u128) (negative: bool)

definition from_subtraction :: "num_lib \<Rightarrow> u128 \<Rightarrow> u128 \<Rightarrow> signed_int result" where
  "from_subtraction L minuend subtrahend =
     (case uint_checked_sub L minuend subtrahend of
        Inl (StdErr e) \<Rightarrow>
          and_then (unwrap (uint_checked_sub L subtrahend minuend)) (\<lambda>d. Inr (SignedInt d True))
      | subtraction \<Rightarrow> and_then (unwrap subtraction) (\<lambda>d. Inr (SignedInt d False)))"

definition signed_value :: "signed_int \<Rightarrow> int" where
  "signed_value x = (if negative x then - uint (magnitude x) else uint (magnitude x))"

context uint128_laws
begin

lemma from_subtraction_eq:
  "from_subtraction L a b = Inr (if b \<le> a then SignedInt (a - b) False else SignedInt (b - a) True)"
  by (auto simp: from_subtraction_def uint_checked_sub_eq)

lemma from_subtraction_magnitude:
  assumes "from_subtraction L a b = Inr s"
  shows "unat (magnitude s) = (if b \<le> a then unat a - unat b else unat b - unat a)"
    and "negative s \<longleftrightarrow> a < b"
  using assms by (auto simp: from_subtraction_eq unat_sub split: if_splits)

lemma from_subtraction_value:
  assumes "from_subtraction L a b = Inr s"
  shows "signed_value s = uint a - uint b"
proof (cases "b \<le> a")
  case True
  then have "uint (a - b) = uint a - uint b" by (simp add: uint_minus_simple_alt)
  with True assms show ?thesis by (auto simp: from_subtraction_eq signed_value_def)
next
  case False
  then have "uint (b - a) = uint b - uint a" by (intro uint_minus_simple_alt[THEN iffD1]) simp
  with False assms show ?thesis by (auto simp: from_subtraction_eq signed_value_def)
qed

end

section \<open>Properties\<close>

text \<open>
  Subtracting two unsigned numbers never fails and is exact: the result, read with its sign,
  is the integer difference, and the sign is set exactly when the first is smaller.
\<close>

theorem from_subtraction_correct:
  assumes "uint128_laws L"
  shows "\<exists>x. from_subtraction L a b = Inr x \<and> signed_value x = uint a - uint b \<and> (negative x \<longleftrightarrow> a < b)"
  using uint128_laws.from_subtraction_eq[OF assms] uint128_laws.from_subtraction_value[OF assms]
    uint128_laws.from_subtraction_magnitude(2)[OF assms] by blast

lemma from_subtraction_correct_witness:
  "\<exists>x. from_subtraction reference_num 1000000 1100000 = Inr x \<and> signed_value x = - 100000 \<and> negative x"
  using from_subtraction_correct[OF reference.uint128_laws_axioms, of 1000000 1100000] by auto

end
