(* ===== verification/Hub_Unbond.thy ===== *)
theory Hub_Unbond
  imports Hub_Slashing Registry_Common Signed_Int
begin

text \<open>
  Unbonding (\<^verbatim>\<open>lido_cosmos_hub/src/unbond.rs\<close>): requests are collected in the current batch;
  once an epoch has passed the batch is undelegated and recorded; once its unbonding period
  is over it is released, at a rate corrected by what really arrived, and its users can
  withdraw. The two \<open>loop\<close>s over the histories recurse on the batch number, which a checked
  increment bounds by \<open>u64::MAX\<close>, so they end.
\<close>

section \<open>Releasing batches\<close>

text \<open>The history of batch \<open>i\<close>, when it exists, is old enough and not yet released.\<close>

definition unreleased_history :: "hub_store \<Rightarrow> u64 \<Rightarrow> u64 \<Rightarrow> unbond_history option" where
  "unreleased_history s historical_time i =
     (case read_unbond_history s i of
        Inl _ \<Rightarrow> None
      | Inr h \<Rightarrow>
          if history_time h > historical_time then None
          else if \<not> released h then Some h else None)"

lemma increment_decreases:
  "prim_add i 1 = Inr (i' :: u64) \<Longrightarrow> 2 ^ 64 - unat i' < 2 ^ 64 - unat i"
  using unsigned_less[where 'a = nat, of i'] by (simp add: result_simps)

function newly_added_loop ::
  "num_lib \<Rightarrow> hub_store \<Rightarrow> u64 \<Rightarrow> u64 \<Rightarrow> u256 \<Rightarrow> u64 \<Rightarrow> (u256 \<times> u64) result" where
  "newly_added_loop L s historical_time i total_unbonded batch_count =
     (case unreleased_history s historical_time i of
        None \<Rightarrow> Inr (total_unbonded, batch_count)
      | Some history \<Rightarrow>
          and_then (uint256_mul_decimal L (uint256_from L (statom_amount history))
              (decimal256_from L (statom_withdraw_rate history))) (\<lambda>unbonded.
          and_then (uint256_add L total_unbonded unbonded) (\<lambda>total_unbonded'.
          and_then (prim_add batch_count 1) (\<lambda>batch_count'.
          and_then (prim_add i 1) (\<lambda>i'.
          newly_added_loop L s historical_time i' total_unbonded' batch_count')))))"
  by pat_completeness auto
termination
  by (relation "measure (\<lambda>(L, s, t, i, u, c). 2 ^ 64 - unat i)") (auto dest: increment_decreases)

declare newly_added_loop.simps [simp del]

definition calculate_newly_added_unbonded_amount ::
  "num_lib \<Rightarrow> hub_store \<Rightarrow> u64 \<Rightarrow> u64 \<Rightarrow> (u256 \<times> u64) result" where
  "calculate_newly_added_unbonded_amount L s last_processed historical_time =
     and_then (prim_add last_processed 1) (\<lambda>i.
     newly_added_loop L s historical_time i 0 0)"

definition calculate_new_withdraw_rate ::
  "num_lib \<Rightarrow> u128 \<Rightarrow> decimal \<Rightarrow> u256 \<Rightarrow> signed_int \<Rightarrow> decimal result" where
  "calculate_new_withdraw_rate L amount withdraw_rate total_unbonded_amount slashed_amount =
     (let burnt_amount_of_batch = uint256_from L amount in
     and_then (uint256_mul_decimal L burnt_amount_of_batch (decimal256_from L withdraw_rate))
       (\<lambda>unbonded_amount_of_batch.
     and_then (if total_unbonded_amount \<noteq> 0
         then decimal256_from_ratio L unbonded_amount_of_batch total_unbonded_amount
         else Inr decimal256_zero) (\<lambda>batch_slashing_weight.
     and_then (uint256_mul_decimal L (uint256_from L (magnitude slashed_amount))
         batch_slashing_weight) (\<lambda>slashed_amount_of_batch.
     and_then (if negative slashed_amount then
         and_then (if slashed_amount_of_batch > 1 then uint256_sub L slashed_amount_of_batch 1
                   else Inr 0) (\<lambda>slashed.
         uint256_add L unbonded_amount_of_batch slashed)
       else
         and_then (if magnitude slashed_amount \<noteq> 0 then uint256_add L slashed_amount_of_batch 1
                   else Inr slashed_amount_of_batch) (\<lambda>slashed.
         and_then (uint128_from L unbonded_amount_of_batch) (\<lambda>minuend.
         and_then (uint128_from L slashed) (\<lambda>subtrahend.
         and_then (from_subtraction L minuend subtrahend) (\<lambda>difference.
         Inr (uint256_from L (magnitude difference))))))) (\<lambda>actual_unbonded_amount_of_batch.
     if burnt_amount_of_batch \<noteq> 0 then
       and_then (uint128_from L actual_unbonded_amount_of_batch) (\<lambda>numerator.
       and_then (uint128_from L burnt_amount_of_batch) (\<lambda>denominator.
       decimal_from_ratio L numerator denominator))
     else Inr withdraw_rate)))))"

text \<open>The second loop: the new rate of each batch is stored and the batch is released.\<close>

function release_loop ::
  "num_lib \<Rightarrow> u64 \<Rightarrow> u256 \<Rightarrow> signed_int \<Rightarrow> u64 \<Rightarrow> hub_state \<Rightarrow> hub_store
    \<Rightarrow> (hub_state \<times> hub_store) result" where
  "release_loop L historical_time total_unbonded slashed i state s =
     (case unreleased_history s historical_time i of
        None \<Rightarrow> Inr (state, s)
      | Some history \<Rightarrow>
          and_then (calculate_new_withdraw_rate L (statom_amount history)
              (statom_withdraw_rate history) total_unbonded slashed) (\<lambda>new_rate.
          let s' = store_unbond_history i
                (history\<lparr>statom_withdraw_rate := new_rate, released := True\<rparr>) s;
              state' = state\<lparr>last_processed_batch := i\<rparr> in
          and_then (prim_add i 1) (\<lambda>i'.
          release_loop L historical_time total_unbonded slashed i' state' s')))"
  by pat_completeness auto
termination
  by (relation "measure (\<lambda>(L, t, u, d, i, st, s). 2 ^ 64 - unat i)") (auto dest: increment_decreases)

declare release_loop.simps [simp del]

definition process_withdraw_rate :: "deps \<Rightarrow> u64 \<Rightarrow> u128 \<Rightarrow> hub_store \<Rightarrow> hub_store result" where
  "process_withdraw_rate D historical_time hub_balance s =
     and_then (load_state s) (\<lambda>state.
     and_then (calculate_newly_added_unbonded_amount (numbers D) s (last_processed_batch state)
         historical_time) (\<lambda>(total_unbonded, batch_count).
     if batch_count < 1 then Inr s
     else
       and_then (from_subtraction (numbers D) hub_balance (prev_hub_balance state))
         (\<lambda>balance_change.
       and_then (uint128_from (numbers D) total_unbonded) (\<lambda>minuend.
       and_then (uint128_from (numbers D) (uint256_from (numbers D) (magnitude balance_change)))
         (\<lambda>subtrahend.
       and_then (from_subtraction (numbers D) minuend subtrahend) (\<lambda>slashed_amount.
       and_then (prim_add (last_processed_batch state) 1) (\<lambda>iterator.
       and_then (release_loop (numbers D) historical_time total_unbonded slashed_amount iterator
           state s) (\<lambda>(state', s').
       Inr (save_state state' s')))))))))"

section \<open>Withdrawing\<close>

definition execute_withdraw_unbonded ::
  "deps \<Rightarrow> env \<Rightarrow> message_info \<Rightarrow> hub_store \<Rightarrow> (payload response \<times> hub_store) result" where
  "execute_withdraw_unbonded D env info s =
     and_then (load_parameters s) (\<lambda>params.
     if is_hub_paused params then generic_err ''The contract is temporarily paused''
     else
     and_then (prim_sub (block_seconds env) (unbonding_period params)) (\<lambda>historical_time.
     and_then (query_balance (querier D) (contract_address env) (underlying_coin_denom params))
       (\<lambda>balance.
     let hub_balance = coin_amount balance in
     and_then (process_withdraw_rate D historical_time hub_balance s) (\<lambda>s1.
     and_then (get_finished_amount D (info_sender info) s1) (\<lambda>(withdraw_amount, deprecated_batches).
     if withdraw_amount = 0
     then generic_err (''No withdrawable '' @ underlying_coin_denom params @
            '' assets are available yet'')
     else
     let s2 = remove_unbond_wait_list D deprecated_batches (info_sender info) s1 in
     and_then (uint_checked_sub (numbers D) hub_balance withdraw_amount) (\<lambda>prev_balance.
     and_then (load_state s2) (\<lambda>last_state.
     Inr (add_attributes [(''action'', AttrStr ''finish_burn''),
            (''from'', AttrStr (contract_address env)),
            (''amount'', AttrUint withdraw_amount)]
            (add_messages [BankSend (info_sender info)
               [\<lparr>coin_denom = underlying_coin_denom params, coin_amount = withdraw_amount\<rparr>]]
               new_response),
          save_state (last_state\<lparr>prev_hub_balance := prev_balance\<rparr>) s2))))))))"

section \<open>Requesting\<close>

text \<open>The undelegation picks the validators with most delegated first.\<close>

definition sort_by_delegated_desc :: "validator_response list \<Rightarrow> validator_response list" where
  "sort_by_delegated_desc vs = sort_key (\<lambda>v. - uint (total_delegated v)) vs"

definition undelegate :: "deps \<Rightarrow> u128 \<Rightarrow> addr \<Rightarrow> hub_store \<Rightarrow> payload cosmos_msg list result" where
  "undelegate D claim delegator s =
     and_then (load_parameters s) (\<lambda>params.
     and_then (query_all_delegations (querier D) delegator) (\<lambda>all_delegations.
     let validators = sort_by_delegated_desc (map (\<lambda>d.
           \<lparr>total_delegated = coin_amount (delegation_coin d),
            validator_address = delegation_validator d\<rparr>) all_delegations) in
     and_then (calculate_undelegations (numbers D) claim validators) (\<lambda>undelegations.
     and_then (nonzero_shares validators 0 undelegations) (\<lambda>shares.
     Inr (map (\<lambda>(v, x). Undelegate v
            \<lparr>coin_denom = underlying_coin_denom params, coin_amount = x\<rparr>) shares)))))"

definition process_undelegations ::
  "deps \<Rightarrow> env \<Rightarrow> current_batch \<Rightarrow> hub_state \<Rightarrow> hub_store
    \<Rightarrow> (payload cosmos_msg list \<times> current_batch \<times> hub_state \<times> hub_store) result" where
  "process_undelegations D env batch state s =
     and_then (uint_mul_decimal (numbers D) (requested_statom batch) (statom_exchange_rate state))
       (\<lambda>undelegation_amount.
     and_then (undelegate D undelegation_amount (contract_address env) s) (\<lambda>undelegated_msgs.
     and_then (uint_checked_sub (numbers D) (total_bond_statom_amount state) undelegation_amount)
       (\<lambda>bonded.
     let history = \<lparr>batch_id = current_id batch, history_time = block_seconds env,
           statom_amount = requested_statom batch,
           statom_applied_exchange_rate = statom_exchange_rate state,
           statom_withdraw_rate = statom_exchange_rate state, released = False\<rparr>;
         s' = store_unbond_history (current_id batch) history s in
     and_then (prim_add (current_id batch) 1) (\<lambda>next_id.
     Inr (undelegated_msgs,
          \<lparr>current_id = next_id, requested_statom = 0\<rparr>,
          state\<lparr>total_bond_statom_amount := bonded, last_unbonded_time := block_seconds env\<rparr>,
          s')))))"

definition execute_unbond_statom ::
  "deps \<Rightarrow> env \<Rightarrow> u128 \<Rightarrow> string \<Rightarrow> hub_store \<Rightarrow> (payload response \<times> hub_store) result" where
  "execute_unbond_statom D env amount sender s =
     and_then (load_parameters s) (\<lambda>params.
     and_then (load_current_batch s) (\<lambda>batch.
     and_then (slashing D env s) (\<lambda>(state, s1).
     and_then (uint_add (numbers D) (requested_statom batch) amount) (\<lambda>requested.
     let batch1 = batch\<lparr>requested_statom := requested\<rparr> in
     and_then (store_unbond_wait_list D (current_id batch1) sender amount s1) (\<lambda>s2.
     and_then (prim_sub (block_seconds env) (last_unbonded_time state)) (\<lambda>passed_time.
     and_then (if passed_time > epoch_period params
         then process_undelegations D env batch1 state s2
         else Inr ([], batch1, state, s2)) (\<lambda>(undelegate_msgs, batch2, state2, s3).
     let s4 = save_state state2 (save_current_batch batch2 s3) in
     and_then (load_config s4) (\<lambda>config.
     and_then (ok_or (statom_token_contract config)
         (StdErr (GenericErr ''the token contract must have been registered''))) (\<lambda>token_address.
     Inr (add_attributes [(''action'', AttrStr ''burn''), (''from'', AttrStr sender),
            (''burnt_amount'', AttrUint amount), (''unbonded_amount'', AttrUint amount)]
            (add_messages (undelegate_msgs @
               [WasmExecute token_address (TokenMsg (Burn amount)) []]) new_response),
          s4))))))))))"

end
