(* ===== verification/Hub_Contract.thy ===== *)
theory Hub_Contract
  imports Hub_Admin Hub_Bond Hub_Unbond
begin

text \<open>
  The hub's entry points (\<^verbatim>\<open>lido_cosmos_hub/src/contract.rs\<close>): the dispatch of execute messages,
  the hook through which stAtom holders ask to unbond, and the queries.
\<close>

definition receive_cw20 ::
  "deps \<Rightarrow> env \<Rightarrow> message_info \<Rightarrow> cw20_receive_msg \<Rightarrow> hub_store \<Rightarrow> (payload response \<times> hub_store) result"
  where
  "receive_cw20 D env info msg s =
     and_then (load_parameters s) (\<lambda>params.
     if is_hub_paused params then generic_err ''the contract is temporarily paused''
     else
     and_then (addr_validate (api D) (info_sender info)) (\<lambda>contract_addr.
     and_then (load_config s) (\<lambda>conf.
     and_then (ok_or (statom_token_contract conf)
         (StdErr (GenericErr ''the statom token contract must have been registered'')))
       (\<lambda>statom_contract_addr.
     and_then (hook_from_binary (api D) (cw20_msg msg)) (\<lambda>hook.
     case hook of Unbond \<Rightarrow>
       if contract_addr = statom_contract_addr
       then execute_unbond_statom D env (cw20_amount msg) (cw20_sender msg) s
       else generic_err ''unauthorized'')))))"

definition hub_execute ::
  "deps \<Rightarrow> env \<Rightarrow> message_info \<Rightarrow> hub_execute_msg \<Rightarrow> hub_store \<Rightarrow> (payload response \<times> hub_store) result"
  where
  "hub_execute D env info msg s =
     (case msg of
        Receive m \<Rightarrow> receive_cw20 D env info m s
      | BondForStAtom \<Rightarrow> execute_bond D env info StAtom s
      | hub_execute_msg.BondRewards \<Rightarrow> execute_bond D env info bond_type.BondRewards s
      | DispatchRewards \<Rightarrow> execute_dispatch_rewards D env s
      | WithdrawUnbonded \<Rightarrow> execute_withdraw_unbonded D env info s
      | CheckSlashing \<Rightarrow> execute_slashing D env s
      | UpdateParams new_epoch new_unbonding \<Rightarrow> execute_update_params info new_epoch new_unbonding s
      | UpdateConfig owner dispatcher registry token \<Rightarrow>
          execute_update_config D info owner dispatcher token registry s
      | RedelegateProxy src redelegations \<Rightarrow> execute_redelegate_proxy info src redelegations s
      | PauseContracts \<Rightarrow> execute_pause_contracts info s
      | UnpauseContracts \<Rightarrow> execute_unpause_contracts info s
      | AddGuardians addresses \<Rightarrow> execute_add_guardians info addresses s
      | RemoveGuardians addresses \<Rightarrow> execute_remove_guardians info addresses s)"

section \<open>Queries\<close>

record state_response =
  response_exchange_rate :: decimal
  response_total_bond :: u128
  response_prev_hub_balance :: u128
  response_last_unbonded_time :: u64
  response_last_processed_batch :: u64

record config_response =
  response_owner :: string
  response_reward_dispatcher :: "string option"
  response_validators_registry :: "string option"
  response_statom_token :: "string option"

record current_batch_response =
  response_id :: u64
  response_requested_statom :: u128

record unbond_requests_response =
  response_address :: string
  response_requests :: "(u64 \<times> u128) list"

record unbond_history_response =
  response_batch_id :: u64
  response_time :: u64
  response_statom_amount :: u128
  response_applied_exchange_rate :: decimal
  response_withdraw_rate :: decimal
  response_released :: bool

datatype hub_answer =
    ConfigAnswer config_response
  | StateAnswer state_response
  | CurrentBatchAnswer current_batch_response
  | WithdrawableAnswer u128
  | ParametersAnswer parameters
  | UnbondRequestsAnswer unbond_requests_response
  | AllHistoryAnswer "unbond_history_response list"
  | GuardiansAnswer "string list"

definition query_guardians :: "hub_store \<Rightarrow> string list" where
  "query_guardians s = map fst (guardians s)"

definition query_config :: "hub_store \<Rightarrow> config_response result" where
  "query_config s =
     and_then (load_config s) (\<lambda>config.
     Inr \<lparr>response_owner = creator config,
          response_reward_dispatcher = reward_dispatcher_contract config,
          response_validators_registry = validators_registry_contract config,
          response_statom_token = statom_token_contract config\<rparr>)"

definition query_state :: "deps \<Rightarrow> env \<Rightarrow> hub_store \<Rightarrow> state_response result" where
  "query_state D env s =
     and_then (query_actual_state D env s) (\<lambda>state.
     Inr \<lparr>response_exchange_rate = statom_exchange_rate state,
          response_total_bond = total_bond_statom_amount state,
          response_prev_hub_balance = prev_hub_balance state,
          response_last_unbonded_time = last_unbonded_time state,
          response_last_processed_batch = last_processed_batch state\<rparr>)"

definition query_current_batch :: "hub_store \<Rightarrow> current_batch_response result" where
  "query_current_batch s =
     and_then (load_current_batch s) (\<lambda>current_batch.
     Inr \<lparr>response_id = current_id current_batch,
          response_requested_statom = requested_statom current_batch\<rparr>)"

definition query_withdrawable_unbonded :: "deps \<Rightarrow> env \<Rightarrow> string \<Rightarrow> hub_store \<Rightarrow> u128 result" where
  "query_withdrawable_unbonded D env address s =
     and_then (load_parameters s) (\<lambda>params.
     and_then (prim_sub (block_seconds env) (unbonding_period params)) (\<lambda>historical_time.
     query_get_finished_amount D address historical_time s))"

definition query_params :: "hub_store \<Rightarrow> parameters result" where
  "query_params s = load_parameters s"

definition query_unbond_requests :: "deps \<Rightarrow> string \<Rightarrow> hub_store \<Rightarrow> unbond_requests_response result" where
  "query_unbond_requests D address s =
     and_then (get_unbond_requests D address s) (\<lambda>requests.
     Inr \<lparr>response_address = address, response_requests = requests\<rparr>)"

definition history_response :: "unbond_history \<Rightarrow> unbond_history_response" where
  "history_response r = \<lparr>response_batch_id = batch_id r, response_time = history_time r,
     response_statom_amount = statom_amount r,
     response_applied_exchange_rate = statom_applied_exchange_rate r,
     response_withdraw_rate = statom_withdraw_rate r, response_released = released r\<rparr>"

definition query_unbond_requests_limitation ::
  "hub_store \<Rightarrow> u64 option \<Rightarrow> u32 option \<Rightarrow> unbond_history_response list" where
  "query_unbond_requests_limitation s start limit =
     map history_response (all_unbond_history s start limit)"

definition hub_query :: "deps \<Rightarrow> env \<Rightarrow> hub_query_msg \<Rightarrow> hub_store \<Rightarrow> hub_answer result" where
  "hub_query D env q s =
     (case q of
        QueryConfig \<Rightarrow> and_then (query_config s) (\<lambda>x. Inr (ConfigAnswer x))
      | QueryState \<Rightarrow> and_then (query_state D env s) (\<lambda>x. Inr (StateAnswer x))
      | QueryCurrentBatch \<Rightarrow> and_then (query_current_batch s) (\<lambda>x. Inr (CurrentBatchAnswer x))
      | QueryWithdrawableUnbonded address \<Rightarrow>
          and_then (query_withdrawable_unbonded D env address s) (\<lambda>x. Inr (WithdrawableAnswer x))
      | QueryParameters \<Rightarrow> and_then (query_params s) (\<lambda>x. Inr (ParametersAnswer x))
      | QueryUnbondRequests address \<Rightarrow>
          and_then (query_unbond_requests D address s) (\<lambda>x. Inr (UnbondRequestsAnswer x))
      | QueryAllHistory start limit \<Rightarrow>
          Inr (AllHistoryAnswer (query_unbond_requests_limitation s start limit))
      | QueryGuardians \<Rightarrow> Inr (GuardiansAnswer (query_guardians s)))"

definition hub_migrate :: "hub_store \<Rightarrow> (payload response \<times> hub_store) result" where
  "hub_migrate s = Inr (new_response, s)"

end
