(* ===== verification/Release_Math.thy ===== *)
theory Release_Math
  imports Basset
begin

text \<open>
  The arithmetic of releasing batches, over natural numbers: batches expect \<open>U\<^sub>1, U\<^sub>2, \<dots>\<close>,
  together \<open>T\<close>, and \<open>R\<close> has arrived. What is missing (or in excess) is spread over the
  batches in proportion; the lemmas bound what the batches are then credited with by \<open>R\<close>.
\<close>

definition weight_of :: "nat \<Rightarrow> nat \<Rightarrow> nat" where
  "weight_of U T = (if T = 0 then 0 else U * fractional div T)"

definition portion :: "nat \<Rightarrow> nat \<Rightarrow> nat \<Rightarrow> nat" where
  "portion gap U T = gap * weight_of U T div fractional"

text \<open>
  What a batch is credited with. A loss takes the batch's portion and one unit more, but by
  absolute value: a loss above \<open>U\<close> becomes a credit. A surplus adds the portion less one unit.
\<close>

definition credited :: "nat \<Rightarrow> nat \<Rightarrow> nat \<Rightarrow> bool \<Rightarrow> nat" where
  "credited U T gap surplus =
     (if surplus then U + (portion gap U T - 1)
      else (let loss = portion gap U T + (if gap \<noteq> 0 then 1 else 0) in
            if loss \<le> U then U - loss else loss - U))"

text \<open>The credit when \<open>R\<close> has arrived for the \<open>T\<close> expected.\<close>

definition credit_for :: "nat \<Rightarrow> nat \<Rightarrow> nat \<Rightarrow> nat" where
  "credit_for U T R = credited U T (if R \<le> T then T - R else R - T) (T < R)"

lemma portion_upper: "portion gap U T * T \<le> gap * U"
proof -
  have w: "weight_of U T * T \<le> U * fractional" by (simp add: weight_of_def)
  have "portion gap U T * fractional \<le> gap * weight_of U T"
    unfolding portion_def by (rule div_times_less_eq_dividend)
  then have "portion gap U T * fractional * T \<le> gap * weight_of U T * T" by (rule mult_right_mono) simp
  also have "\<dots> \<le> gap * (U * fractional)"
    using w by (simp add: mult.assoc)
  finally have "portion gap U T * T * fractional \<le> gap * U * fractional" by (simp add: ac_simps)
  then show ?thesis by simp
qed

lemma portion_lower:
  assumes "0 < T"
  shows "gap * U * fractional + T \<le> (portion gap U T + 1) * fractional * T + gap * T"
proof -
  have "U * fractional < (weight_of U T + 1) * T"
    using assms dividend_less_div_times[of T "U * fractional"]
    by (simp add: weight_of_def ac_simps)
  then have "gap * (U * fractional) \<le> gap * ((weight_of U T + 1) * T)"
    by (intro mult_left_mono) simp_all
  moreover have "gap * weight_of U T + 1 \<le> (portion gap U T + 1) * fractional"
    using dividend_less_div_times[of fractional "gap * weight_of U T"]
    by (simp add: portion_def ac_simps)
  then have "(gap * weight_of U T + 1) * T \<le> (portion gap U T + 1) * fractional * T"
    by (rule mult_right_mono) simp
  ultimately show ?thesis by (simp add: algebra_simps)
qed

lemma portion_zero [simp]: "portion 0 U T = 0" "portion gap U 0 = 0" "portion gap 0 T = 0"
  by (simp_all add: portion_def weight_of_def)

lemma sum_portion_upper:
  assumes "sum_list Us = T"
  shows "(\<Sum>U \<leftarrow> Us. portion gap U T) \<le> gap"
proof (cases "T = 0")
  case False
  have "(\<Sum>U \<leftarrow> Us. portion gap U T) * T \<le> gap * sum_list Us"
  proof (induction Us)
    case (Cons U Us)
    then show ?case using portion_upper[of gap U T] by (simp add: add_mult_distrib add_mult_distrib2)
  qed simp
  with False assms show ?thesis by simp
qed simp

lemma sum_portion_lower:
  assumes "sum_list Us = T" and "0 < T" and "length Us * gap \<le> fractional"
  shows "gap \<le> (\<Sum>U \<leftarrow> Us. portion gap U T + 1)"
proof -
  let ?s = "\<Sum>U \<leftarrow> Us. portion gap U T + 1"
  have "gap * sum_list Us * fractional + length Us * T \<le> ?s * fractional * T + length Us * gap * T"
  proof (induction Us)
    case (Cons U Us)
    then show ?case using portion_lower[OF assms(2), of gap U] by (simp add: algebra_simps)
  qed simp
  then have le: "gap * T * fractional + length Us * T \<le> ?s * fractional * T + length Us * gap * T"
    by (simp add: assms(1))
  have ne: "Us \<noteq> []" using assms(1,2) by auto
  have "length Us * gap * T \<le> fractional * T" using assms(3) by simp
  moreover have "0 < length Us * T" using ne assms(2) by simp
  ultimately have "gap * T * fractional < ?s * fractional * T + fractional * T"
    using le by linarith
  then have "gap * (T * fractional) < (?s + 1) * (T * fractional)" by (simp add: algebra_simps)
  then have "gap < ?s + 1" by (simp only: mult_less_cancel2)
  then show ?thesis by simp
qed

lemma portion_below:
  assumes "gap < T" and "0 < U"
  shows "portion gap U T < U"
proof -
  have "gap * U < T * U" using assms by simp
  then have "portion gap U T * T < U * T"
    using portion_upper[of gap U T] by (metis mult.commute order_le_less_trans)
  then show ?thesis by (simp only: mult_less_cancel2)
qed

lemma sum_list_minus_plus:
  assumes "\<And>x. x \<in> set xs \<Longrightarrow> f x \<le> x"
  shows "(\<Sum>x \<leftarrow> xs. x - f x) + (\<Sum>x \<leftarrow> xs. f x) = sum_list (xs :: nat list)"
  using assms
proof (induction xs)
  case (Cons x xs)
  then have "f x \<le> x" and "(\<Sum>x \<leftarrow> xs. x - f x) + (\<Sum>x \<leftarrow> xs. f x) = sum_list xs" by simp_all
  then show ?case by simp
qed simp

text \<open>Less has arrived than expected, but something: the credits do not exceed it.\<close>

lemma credited_loss:
  assumes "sum_list Us = T" and "0 < R" and "R \<le> T" and "\<And>U. U \<in> set Us \<Longrightarrow> 0 < U"
    and "length Us * (T - R) \<le> fractional"
  shows "(\<Sum>U \<leftarrow> Us. credited U T (T - R) False) \<le> R"
proof (cases "R = T")
  case True
  then show ?thesis using assms(1) by (simp add: credited_def)
next
  case False
  have part: "portion (T - R) U T + 1 \<le> U" if "U \<in> set Us" for U
    using portion_below[of "T - R" T U] assms(2,3) assms(4)[OF that] by simp
  have "(\<Sum>U \<leftarrow> Us. credited U T (T - R) False) = (\<Sum>U \<leftarrow> Us. U - (portion (T - R) U T + 1))"
    using False assms(3) part by (intro arg_cong[of _ _ sum_list] map_cong) (simp_all add: credited_def Let_def)
  moreover have "(\<Sum>U \<leftarrow> Us. U - (portion (T - R) U T + 1)) + (\<Sum>U \<leftarrow> Us. portion (T - R) U T + 1)
      = sum_list Us"
    using part by (rule sum_list_minus_plus)
  moreover have "T - R \<le> (\<Sum>U \<leftarrow> Us. portion (T - R) U T + 1)"
    using sum_portion_lower[OF assms(1) _ assms(5)] assms(2,3) by simp
  ultimately show ?thesis using assms(1,3) by linarith
qed

text \<open>At least what was expected has arrived.\<close>

lemma credited_surplus:
  assumes "sum_list Us = T" and "T \<le> R"
  shows "(\<Sum>U \<leftarrow> Us. credited U T (R - T) True) \<le> R"
proof -
  have "(\<Sum>U \<leftarrow> Us. credited U T (R - T) True) \<le> (\<Sum>U \<leftarrow> Us. U + portion (R - T) U T)"
    by (intro sum_list_mono) (simp add: credited_def)
  also have "\<dots> = T + (\<Sum>U \<leftarrow> Us. portion (R - T) U T)"
    using assms(1) by (simp add: sum_list_addf)
  finally show ?thesis using sum_portion_upper[OF assms(1), of "R - T"] assms(2) by linarith
qed

lemma credits_bounded:
  assumes "sum_list Us = T" and "0 < R" and "\<And>U. U \<in> set Us \<Longrightarrow> 0 < U"
    and "length Us * (T - R) \<le> fractional"
  shows "(\<Sum>U \<leftarrow> Us. credit_for U T R) \<le> R"
  using credited_loss[OF assms(1,2) _ assms(3,4)] credited_surplus[OF assms(1), of R]
  by (cases "R \<le> T") (simp_all add: credit_for_def)

text \<open>Rounding the rate down, and each user's share of the batch, only lose.\<close>

lemma payout_le:
  "a * (c * fractional div a) div fractional \<le> c"
proof -
  have "a * (c * fractional div a) \<le> c * fractional" by simp
  then have "a * (c * fractional div a) div fractional \<le> c * fractional div fractional"
    by (rule div_le_mono)
  then show ?thesis by simp
qed

lemma sum_payouts_le:
  "(\<Sum>x \<leftarrow> xs. f x * r div m) \<le> (\<Sum>x \<leftarrow> xs. f x) * r div (m :: nat)"
proof (induction xs)
  case (Cons x xs)
  let ?s = "(\<Sum>x \<leftarrow> xs. f x) * r"
  have "f x * r div m + ?s div m \<le> (f x * r + ?s) div m"
    using div_add1_eq[of "f x * r" ?s m] by linarith
  with Cons show ?case by (simp only: list.map sum_list.Cons add_mult_distrib)
qed simp

end
