(* ===== verification/Hub_Release.thy ===== *)
theory Hub_Release
  imports Hub_Unbond Release_Math
begin

text \<open>
  What releasing batches does: the two loops of \<open>process_withdraw_rate\<close> run over the same
  matured batches, the first adds up what they expect, the second credits each and marks it
  released; what is credited is bounded by what has arrived.
\<close>

section \<open>The new rate of a batch\<close>

definition expected :: "unbond_history \<Rightarrow> nat" where
  "expected h = unat (statom_amount h) * unat (atomics (statom_withdraw_rate h)) div fractional"

context bignum_laws
begin

lemma unat_0_iff: "unat (x :: 'w::len word) = 0 \<longleftrightarrow> x = 0"
  by (simp add: unsigned_eq_0_iff)

lemma slashing_weight:
  assumes "(if T \<noteq> 0 then decimal256_from_ratio L U T else Inr decimal256_zero) = Inr w"
  shows "unat (atomics256 w) = weight_of (unat U) (unat T)"
  using assms from_ratio256_sound[of U T w]
  by (auto simp: weight_of_def decimal256_zero_def unat_0_iff split: if_splits)

lemma credited_on_surplus:
  assumes "and_then (if x > 1 then uint256_sub L x 1 else Inr 0) (uint256_add L U) = Inr y"
  shows "unat y = unat U + (unat x - 1)"
proof -
  obtain z where z: "(if x > 1 then uint256_sub L x 1 else Inr 0) = Inr z"
    and y: "uint256_add L U z = Inr y"
    using assms by (auto simp: result_simps)
  have "unat z = unat x - 1"
    using z uint256_sub_sound[of x 1 z] by (auto simp: word_less_nat_alt split: if_splits)
  with uint256_add_sound[OF y] show ?thesis by simp
qed

lemma credited_on_loss:
  assumes "and_then (if m \<noteq> 0 then uint256_add L x 1 else Inr x) (\<lambda>slashed.
      and_then (uint128_from L U) (\<lambda>minuend.
      and_then (uint128_from L slashed) (\<lambda>subtrahend.
      and_then (from_subtraction L minuend subtrahend) (\<lambda>difference.
      Inr (uint256_from L (magnitude difference)))))) = Inr y"
  shows "unat y = (let loss = unat x + (if unat m \<noteq> 0 then 1 else 0) in
    if loss \<le> unat U then unat U - loss else loss - unat U)"
proof -
  obtain s a b d where s: "(if m \<noteq> 0 then uint256_add L x 1 else Inr x) = Inr s"
    and a: "uint128_from L U = Inr a" and b: "uint128_from L s = Inr b"
    and d: "from_subtraction L a b = Inr d" and y: "y = uint256_from L (magnitude d)"
    using assms by (auto simp: result_simps)
  have "unat s = unat x + (if unat m \<noteq> 0 then 1 else 0)"
    using s uint256_add_sound[of x 1 s] by (auto simp: unat_0_iff split: if_splits)
  then show ?thesis
    using from_subtraction_magnitude(1)[OF d] uint128_from_sound[OF a] uint128_from_sound[OF b]
    by (simp add: y uint256_from_value word_le_nat_alt Let_def)
qed

lemma new_rate_value:
  assumes "calculate_new_withdraw_rate L a r T d = Inr r'"
  shows "unat (atomics r') = (if unat a = 0 then unat (atomics r)
    else credited (unat a * unat (atomics r) div fractional) (unat T) (unat (magnitude d)) (negative d)
      * fractional div unat a)"
proof -
  obtain U w x y where U: "uint256_mul_decimal L (uint256_from L a) (decimal256_from L r) = Inr U"
    and w: "(if T \<noteq> 0 then decimal256_from_ratio L U T else Inr decimal256_zero) = Inr w"
    and x: "uint256_mul_decimal L (uint256_from L (magnitude d)) w = Inr x"
    and y: "(if negative d then
        and_then (if x > 1 then uint256_sub L x 1 else Inr 0) (uint256_add L U)
      else
        and_then (if magnitude d \<noteq> 0 then uint256_add L x 1 else Inr x) (\<lambda>slashed.
        and_then (uint128_from L U) (\<lambda>minuend.
        and_then (uint128_from L slashed) (\<lambda>subtrahend.
        and_then (from_subtraction L minuend subtrahend) (\<lambda>difference.
        Inr (uint256_from L (magnitude difference))))))) = Inr y"
    and r': "(if uint256_from L a \<noteq> 0 then
        and_then (uint128_from L y) (\<lambda>numerator.
        and_then (uint128_from L (uint256_from L a)) (\<lambda>denominator.
        decimal_from_ratio L numerator denominator))
      else Inr r) = Inr r'"
    using assms unfolding calculate_new_withdraw_rate_def Let_def and_then_Inr_iff by blast
  have "unat U = unat a * unat (atomics r) div fractional"
    using uint256_mul_sound[OF U] by (simp add: uint256_from_value decimal256_from_value)
  moreover have "unat x = portion (unat (magnitude d)) (unat U) (unat T)"
    using uint256_mul_sound[OF x] slashing_weight[OF w] by (simp add: uint256_from_value portion_def)
  ultimately have y_value: "unat y = credited (unat a * unat (atomics r) div fractional) (unat T)
      (unat (magnitude d)) (negative d)"
    using y credited_on_surplus[of x U y] credited_on_loss[of "magnitude d" x U y]
    by (simp add: credited_def split: if_splits)
  have zero: "uint256_from L a = 0 \<longleftrightarrow> unat a = 0"
    using uint256_from_value[of a] unat_0_iff[of "uint256_from L a"] by simp
  show ?thesis
  proof (cases "unat a = 0")
    case True
    with r' zero show ?thesis by simp
  next
    case False
    then obtain n m where "uint128_from L y = Inr n" and "uint128_from L (uint256_from L a) = Inr m"
      and "decimal_from_ratio L n m = Inr r'"
      using r' zero by (auto simp: result_simps)
    then show ?thesis
      using False y_value uint128_from_sound from_ratio_sound[of n m r']
      by (simp add: uint256_from_value)
  qed
qed

text \<open>What a released batch pays out is at most what it was credited with.\<close>

lemma new_rate_payout:
  assumes "calculate_new_withdraw_rate L (statom_amount h) (statom_withdraw_rate h) T d = Inr r"
  shows "expected (h\<lparr>statom_withdraw_rate := r, released := b\<rparr>)
    \<le> credited (expected h) (unat T) (unat (magnitude d)) (negative d)"
  using new_rate_value[OF assms] payout_le by (auto simp: expected_def)

end

section \<open>The run of matured batches\<close>

text \<open>The batches from number \<open>i\<close> on that are old enough and unreleased, up to the first that is not.\<close>

inductive matured_run :: "hub_store \<Rightarrow> u64 \<Rightarrow> u64 \<Rightarrow> unbond_history list \<Rightarrow> bool"
  for s :: hub_store and time :: u64 where
  stop: "unreleased_history s time i = None \<Longrightarrow> matured_run s time i []"
| more: "unreleased_history s time i = Some h \<Longrightarrow> unat i' = unat i + 1 \<Longrightarrow>
    matured_run s time i' hs \<Longrightarrow> matured_run s time i (h # hs)"

inductive_cases matured_run_ConsE: "matured_run s time i (h # hs)"
inductive_simps matured_run_Nil_iff: "matured_run s time i []"

lemma unreleased_history_Some:
  "unreleased_history s time i = Some h \<longleftrightarrow>
    kv_get (unbond_histories s) (u64_be_bytes i) = Some h \<and> history_time h \<le> time \<and> \<not> released h"
  by (cases "kv_get (unbond_histories s) (u64_be_bytes i)")
    (auto simp: unreleased_history_def read_unbond_history_def)

lemma unreleased_history_None:
  "unreleased_history s time i = None \<longleftrightarrow>
    (\<forall>h. kv_get (unbond_histories s) (u64_be_bytes i) = Some h \<longrightarrow> time < history_time h \<or> released h)"
  using unreleased_history_Some[of s time i]
  by (cases "unreleased_history s time i") (auto simp: not_less, fastforce)

lemma matured_run_unique: "matured_run s time i hs \<Longrightarrow> matured_run s time i hs' \<Longrightarrow> hs' = hs"
proof (induction arbitrary: hs' rule: matured_run.induct)
  case (stop i)
  from stop.prems stop.hyps show ?case by (cases rule: matured_run.cases) auto
next
  case (more i h i' hs)
  from more.prems obtain i'' hs'' where "hs' = h # hs''" "unat i'' = unat i + 1"
    "matured_run s time i'' hs''"
    using more.hyps(1) by (cases rule: matured_run.cases) auto
  moreover from this more.hyps(2) have "i'' = i'" by (simp add: word_unat_eq_iff)
  ultimately show ?case using more.IH by simp
qed

lemma matured_run_nth:
  assumes "matured_run s time i hs" and "unat i \<le> unat j" and "unat j < unat i + length hs"
  shows "unreleased_history s time j = Some (hs ! (unat j - unat i))"
  using assms
proof (induction arbitrary: rule: matured_run.induct)
  case (more i h i' hs)
  show ?case
  proof (cases "j = i")
    case False
    then have "unat i' \<le> unat j" using more.prems(1) more.hyps(2) by (simp add: word_unat_eq_iff)
    moreover have "(h # hs) ! (unat j - unat i) = hs ! (unat j - unat i')"
      using calculation more.hyps(2) by (simp add: nth_Cons')
    ultimately show ?thesis using more by simp
  qed (use more in simp)
qed simp

lemma matured_run_end:
  assumes "matured_run s time i hs" and "unat j = unat i + length hs"
  shows "unreleased_history s time j = None"
  using assms
proof (induction rule: matured_run.induct)
  case (stop i)
  then have "j = i" by (simp add: word_unat_eq_iff)
  with stop show ?case by simp
qed simp

lemma matured_run_bound: "matured_run s time i hs \<Longrightarrow> unat i + length hs < 2 ^ 64"
proof (induction rule: matured_run.induct)
  case (stop i)
  then show ?case using unsigned_less[where 'a = nat, of i] by simp
qed simp

lemma matured_run_frame:
  assumes "matured_run s time i hs" and "\<And>j. i \<le> j \<Longrightarrow> unreleased_history s' time j = unreleased_history s time j"
  shows "matured_run s' time i hs"
  using assms
proof (induction rule: matured_run.induct)
  case (more i h i' hs)
  have "i \<le> j" if "i' \<le> j" for j using that more.hyps(2) by (simp add: word_le_nat_alt)
  then show ?case using more by (intro matured_run.more[of _ _ _ _ i']) auto
qed (auto intro: matured_run.stop)

text \<open>The first loop finds the run, its length and what it expects.\<close>

lemma newly_added_run:
  "newly_added_loop L s time i tot c = Inr (tot', c') \<Longrightarrow> bignum_laws L \<Longrightarrow>
    \<exists>hs. matured_run s time i hs \<and> unat tot' = unat tot + (\<Sum>h \<leftarrow> hs. expected h)
      \<and> unat c' = unat c + length hs"
proof (induction L s time i tot c arbitrary: tot' c' rule: newly_added_loop.induct)
  case (1 L s time i tot c)
  show ?case
  proof (cases "unreleased_history s time i")
    case None
    then have "matured_run s time i []" by (rule matured_run.stop)
    with None "1.prems"(1) show ?thesis
      by (auto simp: newly_added_loop.simps[of L] intro!: exI[of _ "[]"])
  next
    case (Some h)
    obtain u tot1 c1 i1 where u: "uint256_mul_decimal L (uint256_from L (statom_amount h))
        (decimal256_from L (statom_withdraw_rate h)) = Inr u"
      and tot1: "uint256_add L tot u = Inr tot1"
      and c1: "prim_add c 1 = Inr c1" and i1: "prim_add i 1 = Inr i1"
      and rec: "newly_added_loop L s time i1 tot1 c1 = Inr (tot', c')"
      using "1.prems"(1) Some by (auto simp: newly_added_loop.simps[of L s time i] result_simps)
    obtain hs where hs: "matured_run s time i1 hs"
      "unat tot' = unat tot1 + (\<Sum>h \<leftarrow> hs. expected h)" "unat c' = unat c1 + length hs"
      using "1.IH"[OF Some u tot1 c1 i1 rec "1.prems"(2)] by blast
    have "unat u = expected h"
      using bignum_laws.uint256_mul_sound[OF "1.prems"(2) u]
      by (simp add: expected_def bignum_laws.uint256_from_value[OF "1.prems"(2)]
          bignum_laws.decimal256_from_value[OF "1.prems"(2)])
    moreover have "unat tot1 = unat tot + unat u"
      by (rule bignum_laws.uint256_add_sound[OF "1.prems"(2) tot1])
    moreover have "matured_run s time i (h # hs)"
      using matured_run.more[OF Some _ hs(1)] i1 by (simp add: prim_add_Inr_iff)
    ultimately show ?thesis using hs c1
      by (intro exI[of _ "h # hs"]) (simp add: prim_add_Inr_iff)
  qed
qed

section \<open>Marking the run released\<close>

definition release :: "unbond_history \<Rightarrow> decimal \<Rightarrow> unbond_history" where
  "release h rate = h\<lparr>statom_withdraw_rate := rate, released := True\<rparr>"

fun store_released :: "u64 \<Rightarrow> unbond_history list \<Rightarrow> hub_store \<Rightarrow> hub_store" where
  "store_released i [] s = s"
| "store_released i (h # hs) s = store_released (i + 1) hs (store_unbond_history i h s)"

lemma store_history_frame [simp]:
  "config_item (store_unbond_history i h s) = config_item s"
  "parameters_item (store_unbond_history i h s) = parameters_item s"
  "current_batch_item (store_unbond_history i h s) = current_batch_item s"
  "state_item (store_unbond_history i h s) = state_item s"
  "guardians (store_unbond_history i h s) = guardians s"
  "wait_list (store_unbond_history i h s) = wait_list s"
  "kv_wf (unbond_histories s) \<Longrightarrow> kv_wf (unbond_histories (store_unbond_history i h s))"
  "kv_wf (unbond_histories s) \<Longrightarrow>
    kv_get (unbond_histories (store_unbond_history i h s))
      = (kv_get (unbond_histories s))(u64_be_bytes i \<mapsto> h)"
  by (simp_all add: store_unbond_history_def)

lemma store_released_frame [simp]:
  "config_item (store_released i hs s) = config_item s"
  "parameters_item (store_released i hs s) = parameters_item s"
  "current_batch_item (store_released i hs s) = current_batch_item s"
  "state_item (store_released i hs s) = state_item s"
  "guardians (store_released i hs s) = guardians s"
  "wait_list (store_released i hs s) = wait_list s"
  by (induction hs arbitrary: i s) simp_all

lemma store_released_wf [simp]:
  "kv_wf (unbond_histories s) \<Longrightarrow> kv_wf (unbond_histories (store_released i hs s))"
  by (induction hs arbitrary: i s) simp_all

lemma next_index: "unat i + 1 < 2 ^ 64 \<Longrightarrow> unat (i + 1) = unat i + 1" for i :: u64
  using unat_add_lem[of i 1, THEN iffD1] by simp

lemma store_released_get:
  assumes "kv_wf (unbond_histories s)" and "unat i + length hs < 2 ^ 64"
  shows "kv_get (unbond_histories (store_released i hs s)) (u64_be_bytes j)
    = (if i \<le> j \<and> unat j < unat i + length hs then Some (hs ! (unat j - unat i))
       else kv_get (unbond_histories s) (u64_be_bytes j))"
  using assms
proof (induction hs arbitrary: i s)
  case (Cons h hs)
  have i1: "unat (i + 1) = unat i + 1" using Cons.prems(2) by (intro next_index) simp
  have "kv_get (unbond_histories (store_released (i + 1) hs (store_unbond_history i h s))) (u64_be_bytes j)
    = (if i + 1 \<le> j \<and> unat j < unat (i + 1) + length hs then Some (hs ! (unat j - unat (i + 1)))
       else ((kv_get (unbond_histories s))(u64_be_bytes i \<mapsto> h)) (u64_be_bytes j))"
    using Cons.IH[of "store_unbond_history i h s" "i + 1"] Cons.prems i1 by simp
  moreover have "i \<le> j \<longleftrightarrow> j = i \<or> i + 1 \<le> j"
    using i1 by (auto simp: word_le_nat_alt word_unat_eq_iff)
  moreover have "hs ! (unat j - unat (i + 1)) = (h # hs) ! (unat j - unat i)" if "i + 1 \<le> j"
    using that i1 by (simp add: nth_Cons' word_le_nat_alt)
  ultimately show ?case using i1 by (auto simp: word_le_nat_alt)
qed (auto simp: word_le_nat_alt)

lemma store_released_dom:
  assumes "kv_wf (unbond_histories s)" and "\<And>j. k \<noteq> u64_be_bytes j"
  shows "kv_get (unbond_histories (store_released i hs s)) k = kv_get (unbond_histories s) k"
  using assms by (induction hs arbitrary: i s) simp_all

lemma prim_succ: "prim_add i 1 = Inr i' \<longleftrightarrow> unat i + 1 < 2 ^ 64 \<and> i' = i + 1" for i :: u64
  using unat_eq_add_iff[of i' i 1] by (simp add: prim_add_Inr_iff)

lemma matured_run_step:
  assumes "matured_run s time i (h # hs)" and "kv_wf (unbond_histories s)"
  shows "matured_run (store_unbond_history i h' s) time (i + 1) hs"
proof -
  obtain i' where i': "unat i' = unat i + 1" and run: "matured_run s time i' hs"
    using assms(1) by (cases rule: matured_run.cases) auto
  have "unat i + 1 < 2 ^ 64" using i' unsigned_less[where 'a = nat, of i'] by simp
  then have eq: "i' = i + 1" using i' next_index[of i] by (simp add: word_unat_eq_iff)
  have "unreleased_history (store_unbond_history i h' s) time j = unreleased_history s time j"
    if "i' \<le> j" for j
  proof -
    have "j \<noteq> i" using that i' by (auto simp: word_le_nat_alt)
    then show ?thesis using assms(2) by (simp add: unreleased_history_def read_unbond_history_def)
  qed
  then show ?thesis using matured_run_frame[OF run] eq by simp
qed

text \<open>The second loop credits the run and marks it released.\<close>

lemma release_loop_run:
  "release_loop L time T d i st s = Inr (st', s') \<Longrightarrow> matured_run s time i hs \<Longrightarrow>
    kv_wf (unbond_histories s) \<Longrightarrow>
    \<exists>rs p. list_all2 (\<lambda>h r. calculate_new_withdraw_rate L (statom_amount h) (statom_withdraw_rate h)
        T d = Inr r) hs rs
      \<and> s' = store_released i (map2 release hs rs) s \<and> st' = st\<lparr>last_processed_batch := p\<rparr>
      \<and> (if hs = [] then p = last_processed_batch st else unat p + 1 = unat i + length hs)"
proof (induction L time T d i st s arbitrary: st' s' hs rule: release_loop.induct)
  case (1 L time T d i st s)
  show ?case
  proof (cases hs)
    case Nil
    then have "unreleased_history s time i = None"
      using "1.prems"(2) by (simp add: matured_run_Nil_iff)
    then show ?thesis using "1.prems"(1) Nil by (simp add: release_loop.simps[of L])
  next
    case (Cons h hs1)
    then have h: "unreleased_history s time i = Some h"
      using "1.prems"(2) by (auto elim: matured_run_ConsE)
    obtain r i1 where r: "calculate_new_withdraw_rate L (statom_amount h) (statom_withdraw_rate h)
        T d = Inr r"
      and i1: "prim_add i 1 = Inr i1"
      and rec: "release_loop L time T d i1 (st\<lparr>last_processed_batch := i\<rparr>)
        (store_unbond_history i (release h r) s) = Inr (st', s')"
      using "1.prems"(1) h
      by (auto simp: release_loop.simps[of L time T d i st s] result_simps Let_def release_def)
    have nxt: "i1 = i + 1" "unat i1 = unat i + 1" using i1 by (auto simp: prim_succ next_index)
    have run1: "matured_run (store_unbond_history i (release h r) s) time i1 hs1"
      unfolding nxt(1) by (rule matured_run_step) (use "1.prems" Cons in auto)
    have wf1: "kv_wf (unbond_histories (store_unbond_history i (release h r) s))"
      using "1.prems"(3) by simp
    obtain rs p where "list_all2 (\<lambda>h r. calculate_new_withdraw_rate L (statom_amount h)
        (statom_withdraw_rate h) T d = Inr r) hs1 rs"
      "s' = store_released i1 (map2 release hs1 rs) (store_unbond_history i (release h r) s)"
      "st' = st\<lparr>last_processed_batch := i\<rparr>\<lparr>last_processed_batch := p\<rparr>"
      "if hs1 = [] then p = last_processed_batch (st\<lparr>last_processed_batch := i\<rparr>)
        else unat p + 1 = unat i1 + length hs1"
      using "1.IH"[OF h r refl refl i1, folded release_def, OF rec run1 wf1] by blast
    with r nxt Cons show ?thesis
      by (intro exI[of _ "r # rs"] exI[of _ p]) (auto split: if_splits)
  qed
qed

text \<open>All of \<open>process_withdraw_rate\<close>: the run, its credits, and what is stored.\<close>

definition arrived :: "u128 \<Rightarrow> u128 \<Rightarrow> nat" where
  "arrived balance previous =
     (if previous \<le> balance then unat balance - unat previous else unat previous - unat balance)"

lemma process_withdraw_rate_run:
  assumes "bignum_laws (numbers D)" and "process_withdraw_rate D time balance s = Inr s'"
    and "load_state s = Inr st" and "kv_wf (unbond_histories s)"
  obtains hs rs p where "matured_run s time (last_processed_batch st + 1) hs"
    and "unat (last_processed_batch st) + 1 < 2 ^ 64"
    and "unat p = unat (last_processed_batch st) + length hs"
    and "length rs = length hs"
    and "\<And>j. j < length hs \<Longrightarrow> expected (release (hs ! j) (rs ! j))
      \<le> credit_for (expected (hs ! j)) (\<Sum>h \<leftarrow> hs. expected h) (arrived balance (prev_hub_balance st))"
    and "s' = (if hs = [] then s else save_state (st\<lparr>last_processed_batch := p\<rparr>)
      (store_released (last_processed_batch st + 1) (map2 release hs rs) s))"
    and "\<And>j. j < length hs \<Longrightarrow> unat (statom_amount (hs ! j)) \<noteq> 0 \<Longrightarrow> unat (atomics (rs ! j))
      = credit_for (expected (hs ! j)) (\<Sum>h \<leftarrow> hs. expected h) (arrived balance (prev_hub_balance st))
        * fractional div unat (statom_amount (hs ! j))"
proof -
  let ?L = "numbers D" and ?i = "last_processed_batch st + 1"
  have laws: "uint128_laws ?L"
    using assms(1) by (simp add: bignum_laws_def decimal_laws_def)
  obtain tot cnt where bound: "unat (last_processed_batch st) + 1 < 2 ^ 64"
    and first: "newly_added_loop ?L s time ?i 0 0 = Inr (tot, cnt)"
    and rest: "(if cnt < 1 then Inr s
     else
       and_then (from_subtraction ?L balance (prev_hub_balance st)) (\<lambda>change.
       and_then (uint128_from ?L tot) (\<lambda>minuend.
       and_then (uint128_from ?L (uint256_from ?L (magnitude change))) (\<lambda>subtrahend.
       and_then (from_subtraction ?L minuend subtrahend) (\<lambda>slashed.
       and_then (prim_add (last_processed_batch st) 1) (\<lambda>iterator.
       and_then (release_loop ?L time tot slashed iterator st s) (\<lambda>(state', s').
       Inr (save_state state' s')))))))) = Inr s'"
    using assms(2,3)
    by (auto simp: process_withdraw_rate_def calculate_newly_added_unbonded_amount_def
        result_simps prim_succ simp del: if_Inr_iff prim_add_Inr_iff)
  obtain hs where hs: "matured_run s time ?i hs" and tot: "unat tot = (\<Sum>h \<leftarrow> hs. expected h)"
    and cnt: "unat cnt = length hs"
    using newly_added_run[OF first assms(1)] by auto
  show thesis
  proof (cases "hs = []")
    case True
    with cnt rest have "s' = s" by (simp add: word_less_nat_alt)
    with True hs bound that[of "[]" "last_processed_batch st" "[]"] show thesis by simp
  next
    case False
    obtain change a b slashed st' s1 where change: "from_subtraction ?L balance (prev_hub_balance st) = Inr change"
      and a: "uint128_from ?L tot = Inr a"
      and b: "uint128_from ?L (uint256_from ?L (magnitude change)) = Inr b"
      and slashed: "from_subtraction ?L a b = Inr slashed"
      and loop: "release_loop ?L time tot slashed ?i st s = Inr (st', s1)"
      and s': "s' = save_state st' s1"
      using rest False cnt
      by (auto simp: result_simps prim_succ word_less_nat_alt simp del: prim_add_Inr_iff)
    obtain rs p where rs: "list_all2 (\<lambda>h r. calculate_new_withdraw_rate ?L (statom_amount h)
        (statom_withdraw_rate h) tot slashed = Inr r) hs rs"
      and s1: "s1 = store_released ?i (map2 release hs rs) s"
      and p: "st' = st\<lparr>last_processed_batch := p\<rparr>" "unat p + 1 = unat ?i + length hs"
      using release_loop_run[OF loop hs assms(4)] False by auto
    have "unat a = (\<Sum>h \<leftarrow> hs. expected h)"
      using bignum_laws.uint128_from_sound[OF assms(1) a] tot by simp
    moreover have "unat b = arrived balance (prev_hub_balance st)"
      using bignum_laws.uint128_from_sound[OF assms(1) b] bignum_laws.uint256_from_value[OF assms(1)]
        uint128_laws.from_subtraction_magnitude(1)[OF laws change] by (simp add: arrived_def)
    ultimately have credit: "credited U (unat tot) (unat (magnitude slashed)) (negative slashed)
        = credit_for U (\<Sum>h \<leftarrow> hs. expected h) (arrived balance (prev_hub_balance st))" for U
      using uint128_laws.from_subtraction_magnitude[OF laws slashed] tot
      by (simp add: credit_for_def word_le_nat_alt word_less_nat_alt)
    show thesis
    proof (rule that[of hs p rs])
      show "expected (release (hs ! j) (rs ! j)) \<le> credit_for (expected (hs ! j))
          (\<Sum>h \<leftarrow> hs. expected h) (arrived balance (prev_hub_balance st))" if "j < length hs" for j
        using bignum_laws.new_rate_payout[OF assms(1) list_all2_nthD[OF rs that], of True]
        by (simp only: release_def credit)
      show "unat (atomics (rs ! j)) = credit_for (expected (hs ! j)) (\<Sum>h \<leftarrow> hs. expected h)
          (arrived balance (prev_hub_balance st)) * fractional div unat (statom_amount (hs ! j))"
        if "j < length hs" and "unat (statom_amount (hs ! j)) \<noteq> 0" for j
        using bignum_laws.new_rate_value[OF assms(1) list_all2_nthD[OF rs that(1)]] that(2)
        by (simp only: credit if_False flip: expected_def)
    qed (use hs bound p rs False s' s1 in \<open>auto simp: next_index list_all2_lengthD\<close>)
  qed
qed

text \<open>The credits of a run stay within what has arrived, and so does what it pays out.\<close>

lemma released_sum:
  assumes "length rs = length hs"
    and "\<And>j. j < length hs \<Longrightarrow>
      expected (release (hs ! j) (rs ! j)) \<le> credit_for (expected (hs ! j)) (\<Sum>h \<leftarrow> hs. expected h) R"
    and "0 < R" and "\<And>h. h \<in> set hs \<Longrightarrow> 0 < expected h"
    and "length hs * ((\<Sum>h \<leftarrow> hs. expected h) - R) \<le> fractional"
  shows "(\<Sum>h \<leftarrow> map2 release hs rs. expected h) \<le> R"
proof -
  let ?T = "\<Sum>h \<leftarrow> hs. expected h"
  have "(\<Sum>h \<leftarrow> map2 release hs rs. expected h) \<le> (\<Sum>h \<leftarrow> hs. credit_for (expected h) ?T R)"
    using assms(1,2) by (intro sum_list_mono2) auto
  also have "\<dots> = (\<Sum>U \<leftarrow> map expected hs. credit_for U ?T R)" by (simp add: comp_def)
  also have "\<dots> \<le> R" using assms(3-5) by (intro credits_bounded) auto
  finally show ?thesis .
qed

section \<open>Properties\<close>

text \<open>
  C19: The rate a batch is released with: what it is credited with, divided by its stAtom. With
  \<open>U\<close> expected by the batch, \<open>T\<close> by all due batches and a gap between \<open>T\<close> and what arrived, the
  batch takes its share \<open>gap * (U / T)\<close> of a loss plus one unit, or of a surplus less one
  unit, all rounded down; an empty batch keeps its rate.
\<close>

theorem withdraw_rate_correct:
  assumes "bignum_laws L" and "calculate_new_withdraw_rate L a r T gap = Inr r'"
  shows "unat (atomics r') = (if unat a = 0 then unat (atomics r)
    else credited (unat a * unat (atomics r) div fractional) (unat T) (unat (magnitude gap)) (negative gap)
      * fractional div unat a)"
  using bignum_laws.new_rate_value[OF assms] .

lemma withdraw_rate_correct_witness:
  "unat (atomics (projr (calculate_new_withdraw_rate reference_num 10 decimal_one 10 (SignedInt 1 False))))
    = credited 10 10 1 False * fractional div 10"
proof -
  let ?run = "calculate_new_withdraw_rate reference_num 10 decimal_one 10 (SignedInt 1 False)"
  have "isl ?run = False" by code_simp
  then obtain r' where run: "?run = Inr r'" by (cases ?run) auto
  show ?thesis using withdraw_rate_correct[OF reference.bignum_laws_axioms run] run
    by (simp add: decimal_one_def)
qed

end
