(* ===== verification/Hub_Withdraw.thy ===== *)
theory Hub_Withdraw
  imports Hub_Release Hub_Samples
begin

text \<open>
  What a user is paid: the entries of the wait list whose batch is released, each at the rate
  its batch was released with; a withdrawal pays their sum and removes exactly them.
\<close>

section \<open>What the wait list is worth\<close>

definition history_at :: "hub_store \<Rightarrow> u64 \<Rightarrow> unbond_history option" where
  "history_at s i = kv_get (unbond_histories s) (u64_be_bytes i)"

definition released_history :: "api_lib \<Rightarrow> hub_store \<Rightarrow> bytes \<Rightarrow> unbond_history option" where
  "released_history A s k =
     (case batch_from_slice A k of
        Inl _ \<Rightarrow> None
      | Inr b \<Rightarrow> (case history_at s b of
          None \<Rightarrow> None
        | Some h \<Rightarrow> if released h then Some h else None))"

definition share_value :: "unbond_wait_entity \<Rightarrow> unbond_history \<Rightarrow> nat" where
  "share_value w h = unat (wait_amount w) * unat (atomics (statom_withdraw_rate h)) div fractional"

definition payable :: "api_lib \<Rightarrow> hub_store \<Rightarrow> bytes \<Rightarrow> unbond_wait_entity \<Rightarrow> nat" where
  "payable A s k w = (case released_history A s k of None \<Rightarrow> 0 | Some h \<Rightarrow> share_value w h)"

text \<open>What one user, and what all users, can withdraw now.\<close>

definition owed :: "api_lib \<Rightarrow> hub_store \<Rightarrow> string \<Rightarrow> nat" where
  "owed A s user = weight (\<lambda>k w. if fst k = user then payable A s (snd k) w else 0) (wait_list s)"

definition liability :: "api_lib \<Rightarrow> hub_store \<Rightarrow> nat" where
  "liability A s = weight (\<lambda>k w. payable A s (snd k) w) (wait_list s)"

lemma read_history_cases:
  "(case read_unbond_history s b of Inl e \<Rightarrow> f e | Inr h \<Rightarrow> g h)
    = (case history_at s b of None \<Rightarrow> f (StdErr (GenericErr
        ''Burn requests not found for the specified time period'')) | Some h \<Rightarrow> g h)"
  by (cases "history_at s b") (auto simp: read_unbond_history_def history_at_def)

lemma weight_Nil [simp]: "weight f [] = 0"
  and weight_Cons: "weight f (e # m) = f (fst e) (snd e) + weight f m"
  by (simp_all add: weight_def)

lemma weight_filter:
  "weight f (filter P m) + weight (\<lambda>k v. if P (k, v) then 0 else f k v) m = weight f m"
  by (induction m) (auto simp: weight_def)

lemma weight_cong:
  "(\<And>k v. (k, v) \<in> set m \<Longrightarrow> f k v = g k v) \<Longrightarrow> weight f m = weight g m"
  unfolding weight_def by (intro arg_cong[of _ _ sum_list] map_cong) auto

lemma weight_mono:
  "(\<And>k v. (k, v) \<in> set m \<Longrightarrow> f k v \<le> g k v) \<Longrightarrow> weight f m \<le> weight g m"
  unfolding weight_def by (intro sum_list_mono) auto

lemma weight_bucket:
  "(\<Sum>e \<leftarrow> map (\<lambda>e. (snd (fst e), snd e)) (filter (\<lambda>e. fst (fst e) = user) m). f (fst e) (snd e))
    = weight (\<lambda>k w. if fst k = user then f (snd k) w else 0) m"
  by (induction m) (auto simp: weight_def)

section \<open>The amount and the batches of a user\<close>

lemma set_wait_bucket: "set (wait_bucket s user) = {(k, w). ((user, k), w) \<in> set (wait_list s)}"
  by (force simp: wait_bucket_def)

lemma finished_amount_loop_value:
  assumes "decimal_laws (numbers D)" and "finished_amount_loop D s items acc bs = Inr (amount, bs')"
  shows "unat amount = unat acc + (\<Sum>e \<leftarrow> items. payable (api D) s (fst e) (snd e))
    \<and> bs' = bs @ map (\<lambda>e. projr (batch_from_slice (api D) (fst e)))
        (filter (\<lambda>e. released_history (api D) s (fst e) \<noteq> None) items)"
  using assms(2)
proof (induction items arbitrary: acc bs)
  case (Cons e items)
  obtain k v where e: "e = (k, v)" by (cases e)
  obtain b where b: "batch_from_slice (api D) k = Inr b"
    using Cons.prems by (auto simp: e result_simps)
  show ?case
  proof (cases "released_history (api D) s k")
    case None
    then have "finished_amount_loop D s items acc bs = Inr (amount, bs')"
      using Cons.prems b
      by (auto simp: e released_history_def read_history_cases split: option.splits if_splits)
    with Cons.IH None show ?thesis by (simp add: e payable_def)
  next
    case (Some h)
    then have h: "history_at s b = Some h" "released h"
      using b by (auto simp: released_history_def split: option.splits if_splits)
    obtain x acc' where x: "uint_mul_decimal (numbers D) (wait_amount v) (statom_withdraw_rate h) = Inr x"
      and acc': "uint_add (numbers D) acc x = Inr acc'"
      and rec: "finished_amount_loop D s items acc' (bs @ [b]) = Inr (amount, bs')"
      using Cons.prems b h by (auto simp: e read_history_cases result_simps)
    have "unat x = share_value v h"
      using decimal_laws.mul_decimal_sound[OF assms(1) x] by (simp add: share_value_def)
    moreover have "unat acc' = unat acc + unat x"
      using acc' assms(1) by (simp add: uint128_laws.uint_add_Inr decimal_laws_def)
    ultimately show ?thesis using Cons.IH[OF rec] Some b by (simp add: e payable_def)
  qed
qed simp

lemma get_finished_amount_value:
  assumes "decimal_laws (numbers D)" and "get_finished_amount D user s = Inr (amount, bs)"
  shows "unat amount = owed (api D) s user"
    and "set bs = {projr (batch_from_slice (api D) k) | k w.
      ((user, k), w) \<in> set (wait_list s) \<and> released_history (api D) s k \<noteq> None}"
proof -
  note val = finished_amount_loop_value[OF assms(1) assms(2)[unfolded get_finished_amount_def]]
  show "unat amount = owed (api D) s user"
    using val by (simp add: owed_def wait_bucket_def weight_bucket[symmetric])
  show "set bs = {projr (batch_from_slice (api D) k) | k w.
      ((user, k), w) \<in> set (wait_list s) \<and> released_history (api D) s k \<noteq> None}"
    using val by (force simp: wait_bucket_def)
qed

section \<open>Removal\<close>

lemma remove_wait_list_shape:
  "remove_unbond_wait_list D bs user s = s\<lparr>wait_list :=
     filter (\<lambda>e. \<not> (fst (fst e) = user \<and> snd (fst e) \<in> batch_to_vec (api D) ` set bs)) (wait_list s)\<rparr>"
proof (induction bs arbitrary: s)
  case (Cons b bs)
  show ?case
    using Cons[of "s\<lparr>wait_list := kv_remove (user, batch_to_vec (api D) b) (wait_list s)\<rparr>"]
    by (auto simp: remove_unbond_wait_list_def kv_remove_def prod_eq_iff
        intro!: arg_cong[of _ _ "\<lambda>x. s\<lparr>wait_list := x\<rparr>"] filter_cong)
qed (simp add: remove_unbond_wait_list_def)

text \<open>Every key is the form of a batch number.\<close>

definition batch_keys :: "api_lib \<Rightarrow> hub_store \<Rightarrow> bool" where
  "batch_keys A s \<longleftrightarrow> (\<forall>e \<in> set (wait_list s). \<exists>b. snd (fst e) = batch_to_vec A b)"

definition settled :: "api_lib \<Rightarrow> hub_store \<Rightarrow> string \<Rightarrow> (string \<times> bytes) \<times> unbond_wait_entity \<Rightarrow> bool"
  where
  "settled A s user e \<longleftrightarrow> fst (fst e) = user \<and> released_history A s (snd (fst e)) \<noteq> None"

lemma remove_finished:
  assumes "decimal_laws (numbers D)" and "codec_laws (api D)" and "batch_keys (api D) s"
    and "get_finished_amount D user s = Inr (amount, bs)"
  shows "remove_unbond_wait_list D bs user s
    = s\<lparr>wait_list := filter (\<lambda>e. \<not> settled (api D) s user e) (wait_list s)\<rparr>"
proof -
  have key: "batch_to_vec (api D) (projr (batch_from_slice (api D) (snd (fst e)))) = snd (fst e)"
    if e: "e \<in> set (wait_list s)" for e
  proof -
    obtain b where "snd (fst e) = batch_to_vec (api D) b" using e assms(3) by (auto simp: batch_keys_def)
    then show ?thesis using codec_laws.batch_roundtrip[OF assms(2)] by simp
  qed
  have bs: "batch_to_vec (api D) ` set bs = {k. \<exists>w. ((user, k), w) \<in> set (wait_list s)
      \<and> released_history (api D) s k \<noteq> None}" (is "_ = ?K")
  proof -
    have "batch_to_vec (api D) ` set bs = (\<lambda>k. batch_to_vec (api D) (projr (batch_from_slice (api D) k))) ` ?K"
      unfolding get_finished_amount_value(2)[OF assms(1,4)] by auto
    also have "\<dots> = (\<lambda>k. k) ` ?K" by (rule image_cong) (use key in force)+
    finally show ?thesis by simp
  qed
  have "fst (fst e) = user \<and> snd (fst e) \<in> batch_to_vec (api D) ` set bs \<longleftrightarrow> settled (api D) s user e"
    if "e \<in> set (wait_list s)" for e
  proof -
    obtain u k w where "e = ((u, k), w)" by (metis prod.exhaust)
    then show ?thesis using that unfolding bs settled_def by auto
  qed
  then show ?thesis unfolding remove_wait_list_shape by (simp cong: filter_cong)
qed

section \<open>A withdrawal, taken apart\<close>

lemma execute_withdraw_Inr:
  assumes "execute_withdraw_unbonded D env info s = Inr (r, s')"
  obtains p time balance s1 amount bs prev st where
    "load_parameters s = Inr p" "\<not> is_hub_paused p"
    "unat time + unat (unbonding_period p) = unat (block_seconds env)"
    "query_balance (querier D) (contract_address env) (underlying_coin_denom p) = Inr balance"
    "process_withdraw_rate D time (coin_amount balance) s = Inr s1"
    "get_finished_amount D (info_sender info) s1 = Inr (amount, bs)" "amount \<noteq> 0"
    "uint_checked_sub (numbers D) (coin_amount balance) amount = Inr prev"
    "load_state (remove_unbond_wait_list D bs (info_sender info) s1) = Inr st"
    "messages r = [BankSend (info_sender info)
      [\<lparr>coin_denom = underlying_coin_denom p, coin_amount = amount\<rparr>]]"
    "s' = save_state (st\<lparr>prev_hub_balance := prev\<rparr>)
      (remove_unbond_wait_list D bs (info_sender info) s1)"
  using assms
  by (auto simp: execute_withdraw_unbonded_def result_simps Let_def add.commute split: if_splits)

text \<open>The histories decide what is payable.\<close>

lemma released_history_cong:
  "unbond_histories s' = unbond_histories s \<Longrightarrow> released_history A s' k = released_history A s k"
  by (simp add: released_history_def history_at_def cong: sum.case_cong)

lemma payable_cong: "unbond_histories s' = unbond_histories s \<Longrightarrow> payable A s' = payable A s"
  using released_history_cong[of s' s A] by (simp add: fun_eq_iff payable_def)

text \<open>Removing a user's settled entries lowers the liability by what the user is owed.\<close>

lemma liability_settled:
  "weight (\<lambda>k w. payable A s (snd k) w) (filter (\<lambda>e. \<not> settled A s user e) (wait_list s))
    + owed A s user = liability A s"
proof -
  have "owed A s user = weight (\<lambda>k w. if \<not> settled A s user (k, w) then 0 else payable A s (snd k) w)
      (wait_list s)"
    unfolding owed_def by (rule weight_cong) (auto simp: settled_def payable_def)
  then show ?thesis
    using weight_filter[of "\<lambda>k w. payable A s (snd k) w" "\<lambda>e. \<not> settled A s user e" "wait_list s"]
    by (simp add: liability_def)
qed

lemma owed_after_settling:
  "weight (\<lambda>k w. if fst k = user then payable A s (snd k) w else 0)
    (filter (\<lambda>e. \<not> settled A s user e) (wait_list s)) = 0"
  by (auto simp: weight_def settled_def payable_def sum_list_eq_0_iff)

end
