(* ===== verification/Hub_Ledger.thy ===== *)
theory Hub_Ledger
  imports Hub_Contract Hub_Withdraw
begin

text \<open>
  The hub's books: the current batch, the history of batches and the wait list agree with each
  other in every reachable state. Most handlers leave the books alone (\<open>same_ledger\<close>); an
  unbond request and a withdrawal change them and are treated one by one.
\<close>

section \<open>The invariant\<close>

text \<open>The stAtom all users together have asked to unbond in a batch.\<close>

definition claimed :: "api_lib \<Rightarrow> hub_store \<Rightarrow> u64 \<Rightarrow> nat" where
  "claimed A s i =
     weight (\<lambda>k w. if snd k = batch_to_vec A i then unat (wait_amount w) else 0) (wait_list s)"

definition history_ok :: "hub_store \<Rightarrow> current_batch \<Rightarrow> hub_state \<Rightarrow> bool" where
  "history_ok s b st \<longleftrightarrow>
     (\<forall>k. kv_get (unbond_histories s) k \<noteq> None \<longrightarrow> (\<exists>i. k = u64_be_bytes i \<and> 0 < i \<and> i < current_id b))
   \<and> (\<forall>i. 0 < i \<and> i < current_id b \<longrightarrow> (\<exists>h. history_at s i = Some h \<and> batch_id h = i
        \<and> (released h \<longleftrightarrow> i \<le> last_processed_batch st) \<and> history_time h \<le> last_unbonded_time st))
   \<and> (\<forall>i j h h'. history_at s i = Some h \<and> history_at s j = Some h' \<and> i \<le> j \<longrightarrow>
        history_time h \<le> history_time h')"

definition waiting_ok :: "api_lib \<Rightarrow> hub_store \<Rightarrow> current_batch \<Rightarrow> bool" where
  "waiting_ok A s b \<longleftrightarrow>
     (\<forall>k \<in> fst ` set (wait_list s). (\<exists>i. snd k = batch_to_vec A i \<and> 0 < i \<and> i \<le> current_id b))"

definition claims_ok :: "api_lib \<Rightarrow> hub_store \<Rightarrow> current_batch \<Rightarrow> bool" where
  "claims_ok A s b \<longleftrightarrow>
     claimed A s (current_id b) = unat (requested_statom b)
   \<and> (\<forall>i h. history_at s i = Some h \<longrightarrow>
        claimed A s i \<le> unat (statom_amount h)
      \<and> (\<not> released h \<longrightarrow> claimed A s i = unat (statom_amount h)))"

definition books_ok :: "api_lib \<Rightarrow> hub_store \<Rightarrow> current_batch \<Rightarrow> hub_state \<Rightarrow> bool" where
  "books_ok A s b st \<longleftrightarrow> 0 < current_id b \<and> last_processed_batch st < current_id b
     \<and> kv_wf (wait_list s) \<and> kv_wf (unbond_histories s)
     \<and> history_ok s b st \<and> waiting_ok A s b \<and> claims_ok A s b"

definition hub_inv :: "api_lib \<Rightarrow> hub_store \<Rightarrow> bool" where
  "hub_inv A s \<longleftrightarrow> config_item s \<noteq> None \<and> parameters_item s \<noteq> None
     \<and> (\<exists>b st. current_batch_item s = Some b \<and> state_item s = Some st \<and> books_ok A s b st)"

section \<open>Handlers that leave the books alone\<close>

definition same_ledger :: "hub_store \<Rightarrow> hub_store \<Rightarrow> bool" where
  "same_ledger s s' \<longleftrightarrow> wait_list s' = wait_list s \<and> unbond_histories s' = unbond_histories s
     \<and> current_batch_item s' = current_batch_item s
     \<and> (config_item s' = None \<longleftrightarrow> config_item s = None)
     \<and> (parameters_item s' = None \<longleftrightarrow> parameters_item s = None)
     \<and> map_option last_processed_batch (state_item s') = map_option last_processed_batch (state_item s)
     \<and> map_option last_unbonded_time (state_item s') = map_option last_unbonded_time (state_item s)
     \<and> map_option prev_hub_balance (state_item s') = map_option prev_hub_balance (state_item s)"

lemma same_ledger_refl [simp]: "same_ledger s s"
  by (simp add: same_ledger_def)

lemma books_ok_cong:
  assumes "wait_list s' = wait_list s" and "unbond_histories s' = unbond_histories s"
    and "last_processed_batch st' = last_processed_batch st"
    and "last_unbonded_time st' = last_unbonded_time st"
  shows "books_ok A s' b st' = books_ok A s b st"
  using assms
  by (simp add: books_ok_def history_ok_def waiting_ok_def claims_ok_def claimed_def history_at_def)

lemma same_ledger_inv:
  assumes "same_ledger s s'" and "hub_inv A s"
  shows "hub_inv A s'"
proof -
  obtain b st where b: "current_batch_item s = Some b" and st: "state_item s = Some st"
    and ok: "books_ok A s b st"
    using assms(2) by (auto simp: hub_inv_def)
  obtain st' where st': "state_item s' = Some st'"
    "last_processed_batch st' = last_processed_batch st"
    "last_unbonded_time st' = last_unbonded_time st"
    using assms(1) st by (auto simp: same_ledger_def)
  have "books_ok A s' b st'"
    using ok books_ok_cong[of s' s st' st A b] assms(1) st' by (simp add: same_ledger_def)
  then show ?thesis using assms b st' by (auto simp: hub_inv_def same_ledger_def)
qed

lemma same_ledger_trans: "same_ledger s s' \<Longrightarrow> same_ledger s' s'' \<Longrightarrow> same_ledger s s''"
  by (simp add: same_ledger_def)

lemma update_rate_frame:
  "update_statom_exchange_rate L issued requested st = Inr st' \<Longrightarrow>
    \<exists>r. st' = st\<lparr>statom_exchange_rate := r\<rparr>"
  by (auto simp: update_statom_exchange_rate_def result_simps split: if_splits)

lemma actual_state_frame:
  assumes "query_actual_state D env s = Inr st"
  obtains st0 where "state_item s = Some st0"
    and "last_processed_batch st = last_processed_batch st0"
    and "last_unbonded_time st = last_unbonded_time st0"
    and "prev_hub_balance st = prev_hub_balance st0"
  using assms
  by (auto simp: query_actual_state_def load_state_def result_simps Let_def
      dest!: update_rate_frame split: if_splits)

lemma slashing_frame:
  assumes "slashing D env s = Inr (st, s1)"
  obtains st0 where "state_item s = Some st0" and "s1 = save_state st s"
    and "last_processed_batch st = last_processed_batch st0"
    and "last_unbonded_time st = last_unbonded_time st0"
    and "prev_hub_balance st = prev_hub_balance st0"
  using slashing_store[OF assms] by (auto elim: actual_state_frame)

lemma save_state_ledger:
  assumes "state_item s = Some st0"
    and "last_processed_batch st = last_processed_batch st0"
    and "last_unbonded_time st = last_unbonded_time st0"
    and "prev_hub_balance st = prev_hub_balance st0"
  shows "same_ledger s (save_state st s)"
  using assms by (simp add: same_ledger_def save_state_def)

lemma bond_update_frame:
  assumes "bond_update_state D ty a issued req (save_state st s) = Inr s'"
  obtains st' where "s' = save_state st' s"
    and "last_processed_batch st' = last_processed_batch st"
    and "last_unbonded_time st' = last_unbonded_time st"
    and "prev_hub_balance st' = prev_hub_balance st"
  using assms
  by (cases ty) (auto simp: bond_update_state_def result_simps Let_def dest!: update_rate_frame)

lemma execute_bond_ledger:
  assumes "execute_bond D env info ty s = Inr (r, s')"
  shows "same_ledger s s'"
proof (rule execute_bond_Inr[OF assms])
  fix batch st s1 issued and payment :: coin
  assume "slashing D env s = Inr (st, s1)"
    and upd: "bond_update_state D ty (coin_amount payment) issued (requested_statom batch) s1 = Inr s'"
  then obtain st0 where st0: "state_item s = Some st0" "s1 = save_state st s"
    "last_processed_batch st = last_processed_batch st0"
    "last_unbonded_time st = last_unbonded_time st0"
    "prev_hub_balance st = prev_hub_balance st0"
    by (auto elim: slashing_frame)
  with upd show ?thesis by (auto elim!: bond_update_frame intro!: save_state_ledger)
qed

lemma foldl_guardians:
  "\<exists>g. foldl (\<lambda>s' x. s'\<lparr>guardians := f x (guardians s')\<rparr>) s xs = s\<lparr>guardians := g\<rparr>"
proof (induction xs arbitrary: s)
  case Nil
  show ?case by (rule exI[of _ "guardians s"]) simp
next
  case (Cons x xs)
  show ?case using Cons[of "s\<lparr>guardians := f x (guardians s)\<rparr>"] by auto
qed

lemma same_ledger_guardians: "same_ledger s (foldl (\<lambda>s' x. s'\<lparr>guardians := f x (guardians s')\<rparr>) s xs)"
  using foldl_guardians[of f s xs] by (auto simp: same_ledger_def)

lemma save_config_ledger: "config_item s \<noteq> None \<Longrightarrow> same_ledger s (save_config c s)"
  by (simp add: same_ledger_def save_config_def)

lemma save_parameters_ledger: "parameters_item s \<noteq> None \<Longrightarrow> same_ledger s (save_parameters p s)"
  by (simp add: same_ledger_def save_parameters_def)

lemma update_config_parts:
  "update_owner D owner s = Inr s' \<Longrightarrow> same_ledger s s'"
  "update_dispatcher D dispatcher s = Inr (ms, s') \<Longrightarrow> same_ledger s s'"
  "update_token D token s = Inr s' \<Longrightarrow> same_ledger s s'"
  "update_registry D registry s = Inr s' \<Longrightarrow> same_ledger s s'"
  by (auto simp: update_owner_def update_dispatcher_def update_token_def update_registry_def
      load_config_def result_simps intro!: save_config_ledger split: option.splits if_splits)

lemma update_config_ledger:
  assumes "execute_update_config D info owner dispatcher token registry s = Inr (r, s')"
  shows "same_ledger s s'"
proof -
  obtain s1 s2 s3 ms where "update_owner D owner s = Inr s1"
    "update_dispatcher D dispatcher s1 = Inr (ms, s2)" "update_token D token s2 = Inr s3"
    "update_registry D registry s3 = Inr s'"
    using assms by (auto simp: execute_update_config_def result_simps split: if_splits)
  then show ?thesis by (blast intro: same_ledger_trans dest: update_config_parts)
qed

text \<open>Every message but an unbond request and a withdrawal.\<close>

lemma quiet_execute:
  assumes "hub_execute D env info msg s = Inr (r, s')"
    and "msg \<noteq> WithdrawUnbonded" and "\<nexists>m. msg = Receive m"
  shows "same_ledger s s'"
proof (cases msg)
  case (UpdateConfig owner dispatcher registry token)
  then show ?thesis using assms(1) by (auto simp: hub_execute_def intro: update_config_ledger)
next
  case CheckSlashing
  then show ?thesis using assms(1)
    by (auto simp: hub_execute_def execute_slashing_def result_simps
        elim!: slashing_frame intro!: save_state_ledger split: if_splits)
next
  case BondForStAtom
  then show ?thesis using assms(1) by (auto simp: hub_execute_def intro: execute_bond_ledger)
next
  case BondRewards
  then show ?thesis using assms(1) by (auto simp: hub_execute_def intro: execute_bond_ledger)
next
  case (AddGuardians addresses)
  then show ?thesis using assms(1) same_ledger_guardians[of s "\<lambda>g. kv_set g True" addresses]
    by (auto simp: hub_execute_def execute_add_guardians_def result_simps Let_def split: if_splits)
qed (use assms in \<open>auto simp: hub_execute_def execute_update_params_def execute_pause_contracts_def
       execute_unpause_contracts_def execute_dispatch_rewards_def execute_redelegate_proxy_def
       execute_remove_guardians_def load_parameters_def result_simps Let_def
       same_ledger_guardians intro!: save_parameters_ledger split: if_splits\<close>)

section \<open>Recording a request\<close>

lemma store_wait_list_Inr:
  assumes "uint128_laws (numbers D)" and "store_unbond_wait_list D i user amount s = Inr s2"
  obtains w where "s2 = s\<lparr>wait_list := kv_set (user, batch_to_vec (api D) i) w (wait_list s)\<rparr>"
    and "unat (wait_amount w) = unat amount
      + (case kv_get (wait_list s) (user, batch_to_vec (api D) i) of None \<Rightarrow> 0 | Some w0 \<Rightarrow> unat (wait_amount w0))"
  using assms(2)
  by (auto simp: store_unbond_wait_list_def result_simps uint128_laws.uint_add_Inr[OF assms(1)] Let_def
      split: option.splits)

lemma request_claimed:
  assumes "uint128_laws (numbers D)" and "codec_laws (api D)"
    and "store_unbond_wait_list D i user amount s = Inr s2" and "kv_wf (wait_list s)"
  shows "claimed (api D) s2 j = claimed (api D) s j + (if j = i then unat amount else 0)"
proof (rule store_wait_list_Inr[OF assms(1,3)])
  fix w
  let ?k = "(user, batch_to_vec (api D) i)"
  let ?f = "\<lambda>k w. if snd k = batch_to_vec (api D) j then unat (wait_amount w) else 0"
  assume s2: "s2 = s\<lparr>wait_list := kv_set ?k w (wait_list s)\<rparr>"
    and w: "unat (wait_amount w) = unat amount
      + (case kv_get (wait_list s) ?k of None \<Rightarrow> 0 | Some w0 \<Rightarrow> unat (wait_amount w0))"
  have "weight ?f (kv_set ?k w (wait_list s))
      + (case kv_get (wait_list s) ?k of None \<Rightarrow> 0 | Some w \<Rightarrow> ?f ?k w) = weight ?f (wait_list s) + ?f ?k w"
    by (rule kv.weight_put[OF assms(4)])
  then show ?thesis using w
    by (auto simp: claimed_def s2 codec_laws.batch_to_vec_inject[OF assms(2)] split: option.splits)
qed

lemma books_request:
  assumes "uint128_laws (numbers D)" and "codec_laws (api D)" and "books_ok (api D) s b st"
    and "store_unbond_wait_list D (current_id b) user amount s = Inr s2"
    and "unat requested = unat (requested_statom b) + unat amount"
  shows "books_ok (api D) s2 (b\<lparr>requested_statom := requested\<rparr>) st"
    and "unbond_histories s2 = unbond_histories s"
proof -
  obtain w where s2: "s2 = s\<lparr>wait_list := kv_set (user, batch_to_vec (api D) (current_id b)) w (wait_list s)\<rparr>"
    by (rule store_wait_list_Inr[OF assms(1,4)])
  show hist: "unbond_histories s2 = unbond_histories s" by (simp add: s2)
  then have at: "history_at s2 = history_at s" by (simp add: fun_eq_iff history_at_def)
  have wf: "kv_wf (wait_list s)" using assms(3) by (simp add: books_ok_def)
  note claimed = request_claimed[OF assms(1,2,4) wf]
  have old: "i \<noteq> current_id b" if "history_at s i = Some h" for i h
  proof -
    have "kv_get (unbond_histories s) (u64_be_bytes i) \<noteq> None" using that by (simp add: history_at_def)
    then obtain i' where "u64_be_bytes i = u64_be_bytes i'" "i' < current_id b"
      using assms(3) unfolding books_ok_def history_ok_def by blast
    then show ?thesis by simp
  qed
  have "claims_ok (api D) s2 (b\<lparr>requested_statom := requested\<rparr>)"
    using assms(3,5) old unfolding books_ok_def claims_ok_def claimed at by auto
  moreover have "waiting_ok (api D) s2 (b\<lparr>requested_statom := requested\<rparr>)"
    using assms(3) by (auto simp: books_ok_def waiting_ok_def s2 set_kv_set)
  moreover have "history_ok s2 (b\<lparr>requested_statom := requested\<rparr>) st"
    using assms(3) by (simp add: books_ok_def history_ok_def hist at)
  ultimately show "books_ok (api D) s2 (b\<lparr>requested_statom := requested\<rparr>) st"
    using assms(3) wf hist by (simp add: books_ok_def s2)
qed

section \<open>Closing the current batch\<close>

lemma history_keys:
  assumes "history_ok s b st" and "history_at s i = Some h"
  shows "0 < i" and "i < current_id b"
proof -
  have "kv_get (unbond_histories s) (u64_be_bytes i) \<noteq> None" using assms(2) by (simp add: history_at_def)
  then obtain i' where "u64_be_bytes i = u64_be_bytes i'" "0 < i'" "i' < current_id b"
    using assms(1) unfolding history_ok_def by blast
  then show "0 < i" and "i < current_id b" by simp_all
qed

lemma no_future_claims:
  assumes "codec_laws A" and "waiting_ok A s b" and "current_id b < i"
  shows "claimed A s i = 0"
proof -
  have "snd (fst e) \<noteq> batch_to_vec A i" if "e \<in> set (wait_list s)" for e
    using assms(2,3) that codec_laws.batch_to_vec_inject[OF assms(1)]
    by (auto simp: waiting_ok_def)
  then show ?thesis by (auto simp: claimed_def weight_def sum_list_eq_0_iff)
qed

lemma books_close:
  assumes "codec_laws A" and "books_ok A s b st" and "last_unbonded_time st \<le> history_time h"
    and "unat next_id = unat (current_id b) + 1"
    and "batch_id h = current_id b" and "statom_amount h = requested_statom b" and "\<not> released h"
    and "last_processed_batch st' = last_processed_batch st" and "last_unbonded_time st' = history_time h"
  shows "books_ok A (store_unbond_history (current_id b) h s) \<lparr>current_id = next_id, requested_statom = 0\<rparr> st'"
proof -
  let ?s = "store_unbond_history (current_id b) h s"
  let ?b = "\<lparr>current_id = next_id, requested_statom = 0\<rparr>"
  have wf: "kv_wf (unbond_histories s)" and ok: "history_ok s b st"
    and waiting: "waiting_ok A s b" and claims: "claims_ok A s b"
    and ids: "0 < current_id b" "last_processed_batch st < current_id b"
    using assms(2) by (simp_all add: books_ok_def)
  have at: "history_at ?s i = (if i = current_id b then Some h else history_at s i)" for i
    using wf by (simp add: history_at_def)
  have less: "i < next_id \<longleftrightarrow> i < current_id b \<or> i = current_id b" for i
    using assms(4) by (auto simp: word_less_nat_alt word_unat_eq_iff)
  have claimed: "claimed A ?s = claimed A s" by (simp add: fun_eq_iff claimed_def)
  have earlier: "history_time h' \<le> history_time h" if "history_at s i = Some h'" for i h'
  proof -
    have "history_time h' \<le> last_unbonded_time st"
      using ok history_keys[OF ok that] that unfolding history_ok_def by fastforce
    then show ?thesis using assms(3) by simp
  qed
  have "history_ok ?s ?b st'"
    unfolding history_ok_def
  proof (intro conjI allI impI)
    fix k
    assume "kv_get (unbond_histories ?s) k \<noteq> None"
    then have "k = u64_be_bytes (current_id b) \<or> kv_get (unbond_histories s) k \<noteq> None"
      using wf by (auto split: if_splits)
    then show "\<exists>i. k = u64_be_bytes i \<and> 0 < i \<and> i < current_id ?b"
      using ok ids(1) less unfolding history_ok_def by auto
  next
    fix i
    assume i: "0 < i \<and> i < current_id ?b"
    show "\<exists>h. history_at ?s i = Some h \<and> batch_id h = i
        \<and> (released h \<longleftrightarrow> i \<le> last_processed_batch st') \<and> history_time h \<le> last_unbonded_time st'"
    proof (cases "i = current_id b")
      case True
      then show ?thesis using at assms(5,7,8,9) ids(2) by (auto simp: not_le)
    next
      case False
      then have "i < current_id b" using i less by auto
      then obtain h' where "history_at s i = Some h'" "batch_id h' = i"
        "released h' \<longleftrightarrow> i \<le> last_processed_batch st"
        using ok i unfolding history_ok_def by blast
      then show ?thesis using at False assms(8,9) earlier by auto
    qed
  next
    fix i j h1 h2
    assume "history_at ?s i = Some h1 \<and> history_at ?s j = Some h2 \<and> i \<le> j"
    then show "history_time h1 \<le> history_time h2"
      using ok earlier history_keys[OF ok, of j h2] unfolding history_ok_def at
      by (auto split: if_splits)
  qed
  moreover have "waiting_ok A ?s ?b"
    using waiting less unfolding waiting_ok_def by (force simp: le_less)
  moreover have "claims_ok A ?s ?b"
  proof -
    have "claimed A s next_id = 0"
      by (rule no_future_claims[OF assms(1) waiting]) (simp add: less)
    then show ?thesis using claims assms(6) by (auto simp: claims_ok_def claimed at split: if_splits)
  qed
  moreover have "0 < next_id" "last_processed_batch st' < next_id"
    using less[of 0] less[of "last_processed_batch st'"] ids assms(8) by simp_all
  ultimately show ?thesis using assms(2) by (simp add: books_ok_def)
qed

section \<open>An unbond request\<close>

lemma execute_unbond_Inr:
  assumes "execute_unbond_statom D env amount user s = Inr (r, s')"
  obtains p b st requested s2 passed undelegations b2 st2 s3 config token where
    "load_parameters s = Inr p" "load_current_batch s = Inr b"
    "slashing D env s = Inr (st, save_state st s)"
    "uint_add (numbers D) (requested_statom b) amount = Inr requested"
    "store_unbond_wait_list D (current_id b) user amount (save_state st s) = Inr s2"
    "unat (block_seconds env) = unat (last_unbonded_time st) + unat passed"
    "(if passed > epoch_period p
      then process_undelegations D env (b\<lparr>requested_statom := requested\<rparr>) st s2
      else Inr ([], b\<lparr>requested_statom := requested\<rparr>, st, s2)) = Inr (undelegations, b2, st2, s3)"
    "s' = save_state st2 (save_current_batch b2 s3)"
    "load_config s' = Inr config" "statom_token_contract config = Some token"
    "messages r = undelegations @ [WasmExecute token (TokenMsg (Burn amount)) []]"
proof -
  obtain p b st s1 requested s2 passed x where p: "load_parameters s = Inr p"
    and b: "load_current_batch s = Inr b" and slash: "slashing D env s = Inr (st, s1)"
    and req: "uint_add (numbers D) (requested_statom b) amount = Inr requested"
    and wl: "store_unbond_wait_list D (current_id b) user amount s1 = Inr s2"
    and passed: "prim_sub (block_seconds env) (last_unbonded_time st) = Inr passed"
    and x: "(if passed > epoch_period p
      then process_undelegations D env (b\<lparr>requested_statom := requested\<rparr>) st s2
      else Inr ([], b\<lparr>requested_statom := requested\<rparr>, st, s2)) = Inr x"
    using assms by (auto simp: execute_unbond_statom_def and_then_Inr_iff Let_def)
  obtain undelegations b2 st2 s3 where parts: "x = (undelegations, b2, st2, s3)" by (metis prod_cases4)
  let ?s4 = "save_state st2 (save_current_batch b2 s3)"
  have rest: "and_then (load_config ?s4) (\<lambda>config.
      and_then (ok_or (statom_token_contract config)
         (StdErr (GenericErr ''the token contract must have been registered''))) (\<lambda>token_address.
      Inr (add_attributes [(''action'', AttrStr ''burn''), (''from'', AttrStr user),
            (''burnt_amount'', AttrUint amount), (''unbonded_amount'', AttrUint amount)]
            (add_messages (undelegations @
               [WasmExecute token_address (TokenMsg (Burn amount)) []]) new_response), ?s4)))
    = Inr (r, s')"
    using assms p b slash req wl passed x parts by (simp add: execute_unbond_statom_def Let_def)
  have "s1 = save_state st s" using slashing_store[OF slash] by simp
  with rest p b slash req wl passed x parts show thesis
    using that[of p b st requested s2 passed undelegations b2 st2 s3]
    by (auto simp: and_then_Inr_iff ok_or_Inr_iff prim_sub_Inr_iff)
qed

lemma process_undelegations_Inr:
  assumes "process_undelegations D env b st s = Inr (ms, b', st', s')"
  obtains amount bonded next_id where
    "uint_mul_decimal (numbers D) (requested_statom b) (statom_exchange_rate st) = Inr amount"
    "undelegate D amount (contract_address env) s = Inr ms"
    "uint_checked_sub (numbers D) (total_bond_statom_amount st) amount = Inr bonded"
    "unat next_id = unat (current_id b) + 1"
    "b' = \<lparr>current_id = next_id, requested_statom = 0\<rparr>"
    "st' = st\<lparr>total_bond_statom_amount := bonded, last_unbonded_time := block_seconds env\<rparr>"
    "s' = store_unbond_history (current_id b) \<lparr>batch_id = current_id b,
       history_time = block_seconds env, statom_amount = requested_statom b,
       statom_applied_exchange_rate = statom_exchange_rate st,
       statom_withdraw_rate = statom_exchange_rate st, released = False\<rparr> s"
  using assms by (auto simp: process_undelegations_def result_simps Let_def)

lemma save_current_batch_frame [simp]:
  "config_item (save_current_batch b s) = config_item s"
  "parameters_item (save_current_batch b s) = parameters_item s"
  "current_batch_item (save_current_batch b s) = Some b"
  "state_item (save_current_batch b s) = state_item s"
  "wait_list (save_current_batch b s) = wait_list s"
  "unbond_histories (save_current_batch b s) = unbond_histories s"
  by (simp_all add: save_current_batch_def)

lemma save_state_frame [simp]:
  "config_item (save_state st s) = config_item s"
  "parameters_item (save_state st s) = parameters_item s"
  "current_batch_item (save_state st s) = current_batch_item s"
  "state_item (save_state st s) = Some (st\<lparr>total_statom_issued := 0\<rparr>)"
  "wait_list (save_state st s) = wait_list s"
  "unbond_histories (save_state st s) = unbond_histories s"
  by (simp_all add: save_state_def)

lemma unbond_inv:
  assumes "uint128_laws (numbers D)" and "codec_laws (api D)" and "hub_inv (api D) s"
    and "execute_unbond_statom D env amount user s = Inr (r, s')"
  shows "hub_inv (api D) s'"
proof (rule execute_unbond_Inr[OF assms(4)])
  fix p b st requested s2 passed ms b2 st2 s3
  assume b: "load_current_batch s = Inr b" and slash: "slashing D env s = Inr (st, save_state st s)"
    and req: "uint_add (numbers D) (requested_statom b) amount = Inr requested"
    and wl: "store_unbond_wait_list D (current_id b) user amount (save_state st s) = Inr s2"
    and passed: "unat (block_seconds env) = unat (last_unbonded_time st) + unat passed"
    and x: "(if passed > epoch_period p
      then process_undelegations D env (b\<lparr>requested_statom := requested\<rparr>) st s2
      else Inr ([], b\<lparr>requested_statom := requested\<rparr>, st, s2)) = Inr (ms, b2, st2, s3)"
    and s': "s' = save_state st2 (save_current_batch b2 s3)"
  obtain st0 where st0: "state_item s = Some st0" "last_processed_batch st = last_processed_batch st0"
    "last_unbonded_time st = last_unbonded_time st0"
    using slash by (auto elim: slashing_frame)
  let ?b = "b\<lparr>requested_statom := requested\<rparr>"
  have "current_batch_item s = Some b" using b by (simp add: load_current_batch_def result_simps)
  then have "books_ok (api D) s b st0" using assms(3) st0 by (auto simp: hub_inv_def)
  then have "books_ok (api D) (save_state st s) b st"
    using books_ok_cong[of "save_state st s" s st st0] st0 by simp
  then have ok2: "books_ok (api D) s2 ?b st"
    by (rule books_request[OF assms(1,2) _ wl])
      (use req in \<open>simp add: uint128_laws.uint_add_Inr[OF assms(1)]\<close>)
  obtain w where s2: "s2 = save_state st s\<lparr>wait_list := w\<rparr>"
    by (rule store_wait_list_Inr[OF assms(1) wl]) blast
  have items: "config_item s2 \<noteq> None" "parameters_item s2 \<noteq> None"
    using assms(3) by (auto simp: s2 hub_inv_def)
  show "hub_inv (api D) s'"
  proof (cases "passed > epoch_period p")
    case True
    then have und: "process_undelegations D env ?b st s2 = Inr (ms, b2, st2, s3)" using x by simp
    have "books_ok (api D) s3 b2 st2 \<and> config_item s3 \<noteq> None \<and> parameters_item s3 \<noteq> None"
    proof (rule process_undelegations_Inr[OF und])
      fix next_id bonded
      let ?h = "\<lparr>batch_id = current_id ?b, history_time = block_seconds env,
        statom_amount = requested_statom ?b, statom_applied_exchange_rate = statom_exchange_rate st,
        statom_withdraw_rate = statom_exchange_rate st, released = False\<rparr>"
      assume new: "unat next_id = unat (current_id ?b) + 1"
        "b2 = \<lparr>current_id = next_id, requested_statom = 0\<rparr>"
        "st2 = st\<lparr>total_bond_statom_amount := bonded, last_unbonded_time := block_seconds env\<rparr>"
        "s3 = store_unbond_history (current_id ?b) ?h s2"
      have "last_unbonded_time st \<le> history_time ?h" using passed by (simp add: word_le_nat_alt)
      then show ?thesis
        using books_close[OF assms(2) ok2, of ?h next_id st2] new items by simp
    qed
    then show ?thesis
      using books_ok_cong[of s' s3 "st2\<lparr>total_statom_issued := 0\<rparr>" st2 "api D" b2]
      by (simp add: hub_inv_def s')
  next
    case False
    then show ?thesis
      using x ok2 items books_ok_cong[of s' s2 "st\<lparr>total_statom_issued := 0\<rparr>" st "api D" ?b]
      by (auto simp: hub_inv_def s')
  qed
qed

section \<open>A withdrawal\<close>

lemma released_at:
  assumes "matured_run s time i hs" and "length rs = length hs" and "kv_wf (unbond_histories s)"
  defines "s' \<equiv> store_released i (map2 release hs rs) s"
  shows "i \<le> j \<Longrightarrow> unat j < unat i + length hs \<Longrightarrow>
      \<exists>h r. history_at s j = Some h \<and> history_time h \<le> time \<and> \<not> released h
        \<and> history_at s' j = Some (release h r)"
    and "\<not> (i \<le> j \<and> unat j < unat i + length hs) \<Longrightarrow> history_at s' j = history_at s j"
proof -
  have at: "history_at s' j = (if i \<le> j \<and> unat j < unat i + length hs
      then Some (map2 release hs rs ! (unat j - unat i)) else history_at s j)"
    using store_released_get[OF assms(3), of i "map2 release hs rs" j] matured_run_bound[OF assms(1)] assms(2)
    by (simp add: history_at_def s'_def)
  show "i \<le> j \<Longrightarrow> unat j < unat i + length hs \<Longrightarrow>
      \<exists>h r. history_at s j = Some h \<and> history_time h \<le> time \<and> \<not> released h
        \<and> history_at s' j = Some (release h r)"
    using matured_run_nth[OF assms(1), of j] assms(2) at
    by (auto simp: unreleased_history_Some history_at_def word_le_nat_alt)
  show "\<not> (i \<le> j \<and> unat j < unat i + length hs) \<Longrightarrow> history_at s' j = history_at s j"
    using at by auto
qed

lemma books_release:
  assumes "books_ok A s b st" and "matured_run s time (last_processed_batch st + 1) hs" and "hs \<noteq> []"
    and "unat (last_processed_batch st) + 1 < 2 ^ 64" and "length rs = length hs"
    and "unat p = unat (last_processed_batch st) + length hs"
    and "last_processed_batch st' = p" and "last_unbonded_time st' = last_unbonded_time st"
  shows "books_ok A (store_released (last_processed_batch st + 1) (map2 release hs rs) s) b st'"
proof -
  let ?i = "last_processed_batch st + 1"
  let ?s = "store_released ?i (map2 release hs rs) s"
  have wf: "kv_wf (unbond_histories s)" and ok: "history_ok s b st"
    and claims: "claims_ok A s b" and lp: "last_processed_batch st < current_id b"
    using assms(1) by (simp_all add: books_ok_def)
  have range: "?i \<le> j \<and> unat j < unat ?i + length hs \<longleftrightarrow> last_processed_batch st < j \<and> j \<le> p" for j
    using next_index[OF assms(4)] assms(6) by (auto simp: word_le_nat_alt word_less_nat_alt)
  have in_run: "\<exists>h r. history_at s j = Some h \<and> history_time h \<le> time \<and> \<not> released h
      \<and> history_at ?s j = Some (release h r)" if "last_processed_batch st < j" "j \<le> p" for j
    using released_at(1)[OF assms(2,5) wf, of j] range[of j] that by simp
  have outside: "history_at ?s j = history_at s j" if "\<not> (last_processed_batch st < j \<and> j \<le> p)" for j
    using released_at(2)[OF assms(2,5) wf, of j] range[of j] that by simp
  have "last_processed_batch st < p" using assms(3,6) by (simp add: word_less_nat_alt)
  then have p: "p < current_id b" using in_run[of p] history_keys(2)[OF ok] by auto
  have kept: "\<exists>h. history_at s j = Some h \<and> batch_id h' = batch_id h \<and> history_time h' = history_time h
      \<and> statom_amount h' = statom_amount h \<and> (\<not> released h' \<longrightarrow> \<not> released h)"
    if "history_at ?s j = Some h'" for j h'
    using in_run[of j] outside[of j] that by (cases "last_processed_batch st < j \<and> j \<le> p") (auto simp: release_def)
  have "history_ok ?s b st'"
    unfolding history_ok_def
  proof (intro conjI allI impI)
    fix k
    assume "kv_get (unbond_histories ?s) k \<noteq> None"
    show "\<exists>i. k = u64_be_bytes i \<and> 0 < i \<and> i < current_id b"
    proof (cases "\<exists>j. k = u64_be_bytes j")
      case True
      then obtain j h where "k = u64_be_bytes j" "history_at ?s j = Some h"
        using \<open>kv_get (unbond_histories ?s) k \<noteq> None\<close> by (auto simp: history_at_def)
      then show ?thesis using kept history_keys[OF ok] by blast
    next
      case False
      then have "kv_get (unbond_histories s) k \<noteq> None"
        using store_released_dom[OF wf] \<open>kv_get (unbond_histories ?s) k \<noteq> None\<close> by metis
      then show ?thesis using ok unfolding history_ok_def by blast
    qed
  next
    fix i
    assume i: "0 < i \<and> i < current_id b"
    then obtain h where h: "history_at s i = Some h" "batch_id h = i"
      "released h \<longleftrightarrow> i \<le> last_processed_batch st" "history_time h \<le> last_unbonded_time st"
      using ok unfolding history_ok_def by blast
    show "\<exists>h. history_at ?s i = Some h \<and> batch_id h = i \<and> (released h \<longleftrightarrow> i \<le> last_processed_batch st')
        \<and> history_time h \<le> last_unbonded_time st'"
      using in_run[of i] outside[of i] h assms(7,8) \<open>last_processed_batch st < p\<close>
      by (cases "last_processed_batch st < i \<and> i \<le> p") (auto simp: release_def)
  next
    fix i j h h'
    assume "history_at ?s i = Some h \<and> history_at ?s j = Some h' \<and> i \<le> j"
    then show "history_time h \<le> history_time h'"
      using kept[of i h] kept[of j h'] ok unfolding history_ok_def by fastforce
  qed
  moreover have "claims_ok A ?s b"
    using claims kept unfolding claims_ok_def claimed_def by fastforce
  moreover have "waiting_ok A ?s b" using assms(1) by (simp add: books_ok_def waiting_ok_def)
  ultimately show ?thesis using assms(1,7) p by (simp add: books_ok_def)
qed

lemma kv_wf_filter: "kv_wf m \<Longrightarrow> kv_wf (filter P m)"
  by (simp add: kv_wf_def sorted_wrt_map sorted_wrt_filter)

lemma books_settle:
  assumes "codec_laws A" and "books_ok A s b st"
  shows "books_ok A (s\<lparr>wait_list := filter (\<lambda>e. \<not> settled A s user e) (wait_list s)\<rparr>) b st"
proof -
  let ?s = "s\<lparr>wait_list := filter (\<lambda>e. \<not> settled A s user e) (wait_list s)\<rparr>"
  let ?f = "\<lambda>i k w. if snd k = batch_to_vec A i then unat (wait_amount w) else 0"
  have ok: "history_ok s b st" and claims: "claims_ok A s b" using assms(2) by (simp_all add: books_ok_def)
  have at: "history_at ?s = history_at s" by (simp add: fun_eq_iff history_at_def)
  have split: "claimed A ?s i + weight (\<lambda>k v. if \<not> settled A s user (k, v) then 0 else ?f i k v) (wait_list s)
      = claimed A s i" for i
    using weight_filter[of "?f i" "\<lambda>e. \<not> settled A s user e" "wait_list s"] by (simp add: claimed_def)
  have same: "claimed A ?s i = claimed A s i" if "\<And>h. history_at s i = Some h \<Longrightarrow> \<not> released h" for i
  proof -
    have "\<not> settled A s user (k, v)" if "snd k = batch_to_vec A i" for k v
      using that \<open>\<And>h. history_at s i = Some h \<Longrightarrow> \<not> released h\<close> codec_laws.batch_roundtrip[OF assms(1)]
      by (auto simp: settled_def released_history_def split: option.splits)
    then have "weight (\<lambda>k v. if \<not> settled A s user (k, v) then 0 else ?f i k v) (wait_list s) = 0"
      by (auto simp: weight_def sum_list_eq_0_iff)
    with split[of i] show ?thesis by simp
  qed
  have "claims_ok A ?s b"
    unfolding claims_ok_def at
  proof (intro conjI allI impI)
    have "history_at s (current_id b) \<noteq> Some h" for h using history_keys(2)[OF ok] by blast
    then show "claimed A ?s (current_id b) = unat (requested_statom b)"
      using same[of "current_id b"] claims by (auto simp: claims_ok_def)
  next
    fix i h
    assume h: "history_at s i = Some h"
    then show "claimed A ?s i \<le> unat (statom_amount h)"
      using split[of i] claims unfolding claims_ok_def by fastforce
    show "claimed A ?s i = unat (statom_amount h)" if "\<not> released h"
      using same[of i] h that claims unfolding claims_ok_def by fastforce
  qed
  moreover have "history_ok ?s b st" using ok by (simp add: history_ok_def at)
  moreover have "waiting_ok A ?s b" using assms(2) by (auto simp: books_ok_def waiting_ok_def)
  ultimately show ?thesis using assms(2) by (simp add: books_ok_def kv_wf_filter)
qed

text \<open>The rate step of a withdrawal, on the books and on the rest of the storage.\<close>

lemma process_withdraw_rate_inv:
  assumes "bignum_laws (numbers D)" and "process_withdraw_rate D time balance s = Inr s1"
    and "hub_inv A s"
  shows "hub_inv A s1" and "wait_list s1 = wait_list s"
    and "current_batch_item s1 = current_batch_item s"
    and "map_option prev_hub_balance (state_item s1) = map_option prev_hub_balance (state_item s)"
proof -
  obtain b st where b: "current_batch_item s = Some b" and st: "state_item s = Some st"
    and ok: "books_ok A s b st"
    using assms(3) by (auto simp: hub_inv_def)
  have load: "load_state s = Inr st" and wf: "kv_wf (unbond_histories s)"
    using st ok by (simp_all add: load_state_def books_ok_def)
  have "hub_inv A s1 \<and> wait_list s1 = wait_list s \<and> current_batch_item s1 = current_batch_item s
    \<and> map_option prev_hub_balance (state_item s1) = map_option prev_hub_balance (state_item s)"
  proof (rule process_withdraw_rate_run[OF assms(1,2) load wf])
    fix hs rs p
    let ?s = "store_released (last_processed_batch st + 1) (map2 release hs rs) s"
    let ?st = "st\<lparr>last_processed_batch := p, total_statom_issued := 0\<rparr>"
    assume run: "matured_run s time (last_processed_batch st + 1) hs"
      "unat (last_processed_batch st) + 1 < 2 ^ 64"
      "unat p = unat (last_processed_batch st) + length hs" "length rs = length hs"
      and s1: "s1 = (if hs = [] then s else save_state (st\<lparr>last_processed_batch := p\<rparr>) ?s)"
    show ?thesis
    proof (cases "hs = []")
      case False
      have "books_ok A ?s b ?st" by (rule books_release[OF ok run(1) False run(2,4,3)]) simp_all
      then have "books_ok A s1 b ?st"
        using books_ok_cong[of s1 ?s ?st ?st A b] False by (simp add: s1)
      then show ?thesis using False assms(3) b st by (auto simp: s1 hub_inv_def)
    qed (simp add: s1 assms(3))
  qed
  then show "hub_inv A s1" and "wait_list s1 = wait_list s"
    and "current_batch_item s1 = current_batch_item s"
    and "map_option prev_hub_balance (state_item s1) = map_option prev_hub_balance (state_item s)"
    by simp_all
qed

text \<open>Which batches the rate step releases.\<close>

lemma process_withdraw_rate_releases:
  assumes "bignum_laws (numbers D)" and "process_withdraw_rate D time balance s = Inr s1"
    and "hub_inv A s" and "history_at s j = Some h"
  shows "if released h \<or> time < history_time h then history_at s1 j = Some h
    else \<exists>r. history_at s1 j = Some (release h r)"
proof -
  obtain b st where st: "state_item s = Some st" and ok: "books_ok A s b st"
    using assms(3) by (auto simp: hub_inv_def)
  have load: "load_state s = Inr st" and wf: "kv_wf (unbond_histories s)" and hist: "history_ok s b st"
    using st ok by (simp_all add: load_state_def books_ok_def)
  have released: "released h' \<longleftrightarrow> i \<le> last_processed_batch st" if "history_at s i = Some h'" for i h'
    using hist history_keys[OF hist that] that unfolding history_ok_def by fastforce
  show ?thesis
  proof (rule process_withdraw_rate_run[OF assms(1,2) load wf])
    fix hs rs p
    let ?i = "last_processed_batch st + 1"
    let ?s = "store_released ?i (map2 release hs rs) s"
    assume run: "matured_run s time ?i hs" and bound: "unat (last_processed_batch st) + 1 < 2 ^ 64"
      and p: "unat p = unat (last_processed_batch st) + length hs" and len: "length rs = length hs"
      and s1: "s1 = (if hs = [] then s else save_state (st\<lparr>last_processed_batch := p\<rparr>) ?s)"
    have "history_at s1 j = history_at ?s j" by (simp add: s1 history_at_def)
    note at = released_at[OF run len wf, of j, folded this]
    consider "j \<le> last_processed_batch st" | "last_processed_batch st < j" "j \<le> p" | "p < j"
      by fastforce
    then show ?thesis
    proof cases
      case 1
      then have "history_at s1 j = history_at s j"
        by (intro at(2)) (simp add: next_index[OF bound] word_le_nat_alt)
      with 1 released assms(4) show ?thesis by simp
    next
      case 2
      then have "?i \<le> j" and "unat j < unat ?i + length hs"
        using next_index[OF bound] p by (simp_all add: word_le_nat_alt word_less_nat_alt)
      from at(1)[OF this] show ?thesis using assms(4) by (auto simp: not_less)
    next
      case 3
      then have "history_at s1 j = history_at s j"
        using p by (intro at(2)) (simp add: next_index[OF bound] word_less_nat_alt)
      moreover have "time < history_time h"
      proof -
        have "unat p + 1 < 2 ^ 64"
          using 3 unsigned_less[where 'a = nat, of j] by (simp add: word_less_nat_alt)
        note succ = next_index[OF this]
        have le: "p + 1 \<le> j" using 3 succ by (simp add: word_le_nat_alt word_less_nat_alt)
        have "0 < p + 1" using succ by (simp add: word_less_nat_alt)
        moreover have "p + 1 < current_id b"
          using le history_keys(2)[OF hist assms(4)] by simp
        ultimately obtain h' where h': "history_at s (p + 1) = Some h'"
          using hist unfolding history_ok_def by blast
        have "\<not> released h'" using released[OF h'] succ p by (simp add: word_le_nat_alt)
        moreover have "unreleased_history s time (p + 1) = None"
          using matured_run_end[OF run] succ p next_index[OF bound] by simp
        ultimately have "time < history_time h'"
          using h' by (auto simp: unreleased_history_None history_at_def)
        also have "\<dots> \<le> history_time h"
          using hist h' assms(4) le unfolding history_ok_def by blast
        finally show ?thesis .
      qed
      ultimately show ?thesis using assms(4) by simp
    qed
  qed
qed

lemma hub_inv_histories:
  assumes "hub_inv A s"
  shows "history_at s i \<noteq> None \<longleftrightarrow>
    (\<exists>b. current_batch_item s = Some b \<and> 0 < i \<and> i < current_id b)"
proof -
  obtain b st where b: "current_batch_item s = Some b" and ok: "history_ok s b st"
    using assms by (auto simp: hub_inv_def books_ok_def)
  show ?thesis using b history_keys[OF ok] ok unfolding history_ok_def by fastforce
qed

lemma hub_inv_batch_keys: "hub_inv A s \<Longrightarrow> batch_keys A s"
  by (auto simp: hub_inv_def books_ok_def waiting_ok_def batch_keys_def)

text \<open>A successful withdrawal from books in order.\<close>

lemma withdraw_effect:
  assumes "bignum_laws (numbers D)" and "codec_laws (api D)" and "hub_inv (api D) s"
    and "execute_withdraw_unbonded D env info s = Inr (r, s')"
  obtains p time balance s1 amount prev st where
    "load_parameters s = Inr p" "\<not> is_hub_paused p"
    "unat time + unat (unbonding_period p) = unat (block_seconds env)"
    "query_balance (querier D) (contract_address env) (underlying_coin_denom p) = Inr balance"
    "process_withdraw_rate D time (coin_amount balance) s = Inr s1"
    "hub_inv (api D) s1" "wait_list s1 = wait_list s" "state_item s1 = Some st"
    "amount \<noteq> 0" "unat amount = owed (api D) s1 (info_sender info)"
    "unat (coin_amount balance) = unat amount + unat prev"
    "messages r = [BankSend (info_sender info)
      [\<lparr>coin_denom = underlying_coin_denom p, coin_amount = amount\<rparr>]]"
    "s' = save_state (st\<lparr>prev_hub_balance := prev\<rparr>)
      (s1\<lparr>wait_list := filter (\<lambda>e. \<not> settled (api D) s1 (info_sender info) e) (wait_list s)\<rparr>)"
proof (rule execute_withdraw_Inr[OF assms(4)])
  fix p time balance s1 amount bs prev st
  let ?user = "info_sender info"
  assume rate: "process_withdraw_rate D time (coin_amount balance) s = Inr s1"
    and fin: "get_finished_amount D ?user s1 = Inr (amount, bs)"
    and st: "load_state (remove_unbond_wait_list D bs ?user s1) = Inr st"
    and sub: "uint_checked_sub (numbers D) (coin_amount balance) amount = Inr prev"
    and s': "s' = save_state (st\<lparr>prev_hub_balance := prev\<rparr>) (remove_unbond_wait_list D bs ?user s1)"
    and facts: "load_parameters s = Inr p" "\<not> is_hub_paused p"
      "unat time + unat (unbonding_period p) = unat (block_seconds env)"
      "query_balance (querier D) (contract_address env) (underlying_coin_denom p) = Inr balance"
      "amount \<noteq> 0" "messages r = [BankSend (info_sender info)
        [\<lparr>coin_denom = underlying_coin_denom p, coin_amount = amount\<rparr>]]"
  have dec: "decimal_laws (numbers D)" using assms(1) by (simp add: bignum_laws_def)
  note step = process_withdraw_rate_inv[OF assms(1) rate assms(3)]
  note s2 = remove_finished[OF dec assms(2) hub_inv_batch_keys[OF step(1)] fin]
  have "state_item s1 = Some st" using st by (simp add: s2 load_state_def result_simps)
  moreover have "unat (coin_amount balance) = unat amount + unat prev"
    using sub dec by (simp add: uint128_laws.uint_checked_sub_Inr decimal_laws_def)
  ultimately show thesis
    using that[OF facts(1-4) rate step(1,2)] get_finished_amount_value(1)[OF dec fin] facts(5,6)
    by (simp add: s' s2 step(2))
qed

lemma withdraw_inv:
  assumes "bignum_laws (numbers D)" and "codec_laws (api D)" and "hub_inv (api D) s"
    and "execute_withdraw_unbonded D env info s = Inr (r, s')"
  shows "hub_inv (api D) s'"
proof (rule withdraw_effect[OF assms])
  fix s1 prev st
  let ?user = "info_sender info"
  let ?s2 = "s1\<lparr>wait_list := filter (\<lambda>e. \<not> settled (api D) s1 ?user e) (wait_list s1)\<rparr>"
  assume inv: "hub_inv (api D) s1" and wl: "wait_list s1 = wait_list s" and st: "state_item s1 = Some st"
    and s': "s' = save_state (st\<lparr>prev_hub_balance := prev\<rparr>)
      (s1\<lparr>wait_list := filter (\<lambda>e. \<not> settled (api D) s1 ?user e) (wait_list s)\<rparr>)"
  obtain b where b: "current_batch_item s1 = Some b" and ok: "books_ok (api D) s1 b st"
    using inv st by (auto simp: hub_inv_def)
  have "books_ok (api D) s' b (st\<lparr>prev_hub_balance := prev, total_statom_issued := 0\<rparr>)"
    using books_settle[OF assms(2) ok, of ?user]
      books_ok_cong[of s' ?s2 "st\<lparr>prev_hub_balance := prev, total_statom_issued := 0\<rparr>" st "api D" b]
    by (simp add: s' wl)
  then show "hub_inv (api D) s'" using inv b by (simp add: hub_inv_def s')
qed

section \<open>Runs of the hub\<close>

text \<open>
  The states the hub can be in: after its instantiation on an empty storage, any messages by
  anyone, at any time, with any answers of the chain and the other contracts. The number
  library and the codec are those of the build, the same at every step.
\<close>

inductive hub_reachable :: "num_lib \<Rightarrow> api_lib \<Rightarrow> hub_store \<Rightarrow> bool" for L A where
  start: "hub_instantiate env info msg empty_hub = Inr (r, s) \<Longrightarrow> hub_reachable L A s"
| step: "hub_reachable L A s \<Longrightarrow> numbers D = L \<Longrightarrow> api D = A \<Longrightarrow>
    hub_execute D env info msg s = Inr (r, s') \<Longrightarrow> hub_reachable L A s'"

lemma hook_is_Unbond: "(case hook of Unbond \<Rightarrow> x) = x"
  by (cases hook) simp

lemma receive_Inr:
  assumes "receive_cw20 D env info m s = Inr x"
  obtains p c token where "load_parameters s = Inr p" "\<not> is_hub_paused p" "load_config s = Inr c"
    "statom_token_contract c = Some token" "addr_validate (api D) (info_sender info) = Inr token"
    "execute_unbond_statom D env (cw20_amount m) (cw20_sender m) s = Inr x"
  using assms by (auto simp: receive_cw20_def hook_is_Unbond result_simps split: if_splits)

lemma instantiate_inv:
  assumes "hub_instantiate env info msg empty_hub = Inr (r, s)"
  shows "hub_inv A s"
  using assms
  by (auto simp: hub_instantiate_def hub_inv_def books_ok_def history_ok_def waiting_ok_def claims_ok_def
      claimed_def empty_hub_def save_config_def save_state_def save_parameters_def
      save_current_batch_def history_at_def Let_def)

lemma execute_inv:
  assumes "bignum_laws (numbers D)" and "codec_laws (api D)" and "hub_inv (api D) s"
    and "hub_execute D env info msg s = Inr (r, s')"
  shows "hub_inv (api D) s'"
proof (cases "msg = WithdrawUnbonded \<or> (\<exists>m. msg = Receive m)")
  case False
  then have "same_ledger s s'" using quiet_execute[OF assms(4)] by blast
  then show ?thesis using assms(3) by (rule same_ledger_inv)
next
  case True
  then consider "msg = WithdrawUnbonded" | m where "msg = Receive m" by blast
  then show ?thesis
  proof cases
    case 1
    with assms show ?thesis by (auto simp: hub_execute_def intro: withdraw_inv)
  next
    case (2 m)
    then have "execute_unbond_statom D env (cw20_amount m) (cw20_sender m) s = Inr (r, s')"
      using assms(4) by (auto simp: hub_execute_def elim: receive_Inr)
    moreover have "uint128_laws (numbers D)" using assms(1) by (simp add: bignum_laws_def decimal_laws_def)
    ultimately show ?thesis using assms(2,3) by (blast intro: unbond_inv)
  qed
qed

lemma reachable_inv:
  assumes "hub_reachable L A s" and "bignum_laws L" and "codec_laws A"
  shows "hub_inv A s"
  using assms
  by (induction rule: hub_reachable.induct) (auto intro: instantiate_inv execute_inv)

end
