(* ===== verification/Hub_Run.thy ===== *)
theory Hub_Run
  imports Hub_Ledger
begin

text \<open>
  A run of the hub that ends in \<open>sample_hub\<close>: instantiated at time 100, configured, bob bonds 110
  and asks for 10 back at time 140 (which closes batch 1), ann then asks for 5.
\<close>

definition run_deps :: "u128 \<Rightarrow> deps" where
  "run_deps bonded = reference_deps (fixed_querier
     [\<lparr>delegation_validator = ''a'', delegation_coin = uatom bonded\<rparr>]
     None (uatom 0) bonded
     [\<lparr>total_delegated = bonded, validator_address = ''a''\<rparr>]
     sample_parameters)"

definition run_step :: "deps \<Rightarrow> u64 \<Rightarrow> message_info \<Rightarrow> hub_execute_msg \<Rightarrow> hub_store \<Rightarrow> hub_store" where
  "run_step D t info msg s = snd (projr (hub_execute D (at_time t) info msg s))"

definition run_start :: hub_store where
  "run_start = snd (projr (hub_instantiate (at_time 100) (call_from ''owner'' [])
     \<lparr>init_epoch_period = 30, init_underlying_coin_denom = ''uatom'', init_unbonding_period = 10\<rparr>
     empty_hub))"

definition run_configured :: hub_store where
  "run_configured = run_step (run_deps 0) 100 (call_from ''owner'' [])
     (UpdateConfig None (Some ''disp'') (Some ''reg'') (Some ''tok'')) run_start"

definition run_guarded :: hub_store where
  "run_guarded = run_step (run_deps 0) 100 (call_from ''owner'' []) (AddGuardians [''guard'']) run_configured"

definition run_bonded :: hub_store where
  "run_bonded = run_step (run_deps 0) 110 (call_from ''bob'' [uatom 110]) BondForStAtom run_guarded"

definition run_closed :: hub_store where
  "run_closed = run_step (run_deps 110) 140 (call_from ''tok'' [])
     (Receive \<lparr>cw20_sender = ''bob'', cw20_amount = 10, cw20_msg = [1]\<rparr>) run_bonded"

definition run_end :: hub_store where
  "run_end = run_step (run_deps 100) 145 (call_from ''tok'' [])
     (Receive \<lparr>cw20_sender = ''ann'', cw20_amount = 5, cw20_msg = [1]\<rparr>) run_closed"

lemma run_step_reachable:
  assumes "hub_reachable reference_num reference_api s"
    and "isl (hub_execute D (at_time t) info msg s) = False"
    and "numbers D = reference_num" and "api D = reference_api"
  shows "hub_reachable reference_num reference_api (run_step D t info msg s)"
proof -
  obtain r s' where run: "hub_execute D (at_time t) info msg s = Inr (r, s')"
    using assms(2) by (cases "hub_execute D (at_time t) info msg s") auto
  then show ?thesis using hub_reachable.step[OF assms(1,3,4) run] by (simp add: run_step_def)
qed

lemma run_deps_simps [simp]:
  "numbers (run_deps n) = reference_num" "api (run_deps n) = reference_api"
  by (simp_all add: run_deps_def)

lemma run_end_is_sample: "run_end = sample_hub"
  by code_simp

lemma run_start_reachable: "hub_reachable reference_num reference_api run_start"
proof (rule hub_reachable.start)
  show "hub_instantiate (at_time 100) (call_from ''owner'' [])
     \<lparr>init_epoch_period = 30, init_underlying_coin_denom = ''uatom'', init_unbonding_period = 10\<rparr>
     empty_hub = Inr (new_response, run_start)"
    by (simp add: run_start_def hub_instantiate_def Let_def)
qed

lemma sample_hub_reachable: "hub_reachable reference_num reference_api sample_hub"
  unfolding run_end_is_sample[symmetric] run_end_def run_closed_def run_bonded_def run_guarded_def
    run_configured_def
  by (intro run_step_reachable run_start_reachable run_deps_simps; code_simp)

end
