(* ===== verification/Hub_Access.thy ===== *)
theory Hub_Access
  imports Hub_Run
begin

text \<open>
  Who may do what: the owner's, the guardians' and the other contracts' rights, what a paused
  hub still does, and which messages can change configuration, parameters and guardians at all.
\<close>

section \<open>What the books' messages leave alone\<close>

definition same_admin :: "hub_store \<Rightarrow> hub_store \<Rightarrow> bool" where
  "same_admin s s' \<longleftrightarrow> config_item s' = config_item s \<and> parameters_item s' = parameters_item s
     \<and> guardians s' = guardians s"

lemma same_admin_simps [simp]:
  "same_admin s s"
  "same_admin s (save_state st s') = same_admin s s'"
  "same_admin s (save_current_batch b s') = same_admin s s'"
  "same_admin s (store_unbond_history i h s') = same_admin s s'"
  "same_admin s (s'\<lparr>wait_list := w\<rparr>) = same_admin s s'"
  by (simp_all add: same_admin_def save_state_def save_current_batch_def store_unbond_history_def)

lemma release_loop_admin:
  "release_loop L time T d i st s = Inr (st', s') \<Longrightarrow> same_admin s0 s \<Longrightarrow> same_admin s0 s'"
proof (induction L time T d i st s arbitrary: st' s' rule: release_loop.induct)
  case (1 L time T d i st s)
  then show ?case
    by (cases "unreleased_history s time i")
      (auto simp: release_loop.simps[of L time T d i st s] and_then_Inr_iff Let_def)
qed

lemma process_withdraw_rate_admin:
  "process_withdraw_rate D time balance s = Inr s' \<Longrightarrow> same_admin s s'"
  by (auto simp: process_withdraw_rate_def and_then_Inr_iff split: if_splits elim!: release_loop_admin)

lemma withdraw_admin: "execute_withdraw_unbonded D env info s = Inr (r, s') \<Longrightarrow> same_admin s s'"
  by (auto elim!: execute_withdraw_Inr dest!: process_withdraw_rate_admin simp: remove_wait_list_shape)

lemma store_wait_list_admin: "store_unbond_wait_list D i user amount s = Inr s' \<Longrightarrow> same_admin s0 s' = same_admin s0 s"
  by (auto simp: store_unbond_wait_list_def and_then_Inr_iff Let_def)

lemma unbond_admin:
  assumes "execute_unbond_statom D env amount user s = Inr (r, s')"
  shows "same_admin s s'"
proof (rule execute_unbond_Inr[OF assms])
  fix p b st requested s2 passed ms b2 st2 s3
  assume wl: "store_unbond_wait_list D (current_id b) user amount (save_state st s) = Inr s2"
    and x: "(if passed > epoch_period p
      then process_undelegations D env (b\<lparr>requested_statom := requested\<rparr>) st s2
      else Inr ([], b\<lparr>requested_statom := requested\<rparr>, st, s2)) = Inr (ms, b2, st2, s3)"
    and s': "s' = save_state st2 (save_current_batch b2 s3)"
  have "same_admin s s2" using store_wait_list_admin[OF wl] by simp
  then have "same_admin s s3"
    using x by (auto split: if_splits elim!: process_undelegations_Inr)
  then show "same_admin s s'" by (simp add: s')
qed

lemma bond_admin:
  assumes "execute_bond D env info ty s = Inr (r, s')"
  shows "same_admin s s'"
proof (rule execute_bond_Inr[OF assms])
  fix batch st s1 issued and payment :: coin
  assume "slashing D env s = Inr (st, s1)"
    and "bond_update_state D ty (coin_amount payment) issued (requested_statom batch) s1 = Inr s'"
  then show ?thesis by (auto dest!: slashing_store elim!: bond_update_frame)
qed

definition owner_message :: "hub_execute_msg \<Rightarrow> bool" where
  "owner_message msg = (case msg of
     UpdateConfig _ _ _ _ \<Rightarrow> True | UpdateParams _ _ \<Rightarrow> True | UnpauseContracts \<Rightarrow> True
   | AddGuardians _ \<Rightarrow> True | RemoveGuardians _ \<Rightarrow> True | _ \<Rightarrow> False)"

lemma other_messages_admin:
  assumes "hub_execute D env info msg s = Inr (r, s')"
    and "\<not> owner_message msg" and "msg \<noteq> PauseContracts"
  shows "same_admin s s'"
  using assms
  by (cases msg)
    (auto simp: hub_execute_def owner_message_def execute_dispatch_rewards_def
       execute_redelegate_proxy_def execute_slashing_def and_then_Inr_iff
       elim!: receive_Inr dest!: slashing_store
       intro: bond_admin unbond_admin withdraw_admin split: if_splits)

lemma foldl_guardians_frame:
  "config_item (foldl (\<lambda>s' x. s'\<lparr>guardians := f x (guardians s')\<rparr>) s xs) = config_item s"
  "parameters_item (foldl (\<lambda>s' x. s'\<lparr>guardians := f x (guardians s')\<rparr>) s xs) = parameters_item s"
  using foldl_guardians[of f s xs] by auto

text \<open>The configuration's updates keep the rest, and a token contract once registered.\<close>

definition config_step :: "hub_store \<Rightarrow> hub_store \<Rightarrow> bool" where
  "config_step s s' \<longleftrightarrow> parameters_item s' = parameters_item s \<and> guardians s' = guardians s
     \<and> (\<forall>c. config_item s = Some c \<longrightarrow> (\<exists>c'. config_item s' = Some c'
         \<and> (statom_token_contract c \<noteq> None \<longrightarrow> statom_token_contract c' = statom_token_contract c)))"

lemma config_step_trans: "config_step s s' \<Longrightarrow> config_step s' s'' \<Longrightarrow> config_step s s''"
  unfolding config_step_def by metis

lemma config_step_parts:
  "update_owner D owner s = Inr s' \<Longrightarrow> config_step s s'"
  "update_dispatcher D dispatcher s = Inr (ms, s') \<Longrightarrow> config_step s s'"
  "update_token D token s = Inr s' \<Longrightarrow> config_step s s'"
  "update_registry D registry s = Inr s' \<Longrightarrow> config_step s s'"
  by (auto simp: config_step_def update_owner_def update_dispatcher_def update_token_def
      update_registry_def save_config_def load_config_def result_simps split: option.splits if_splits)

lemma update_config_step:
  assumes "execute_update_config D info owner dispatcher token registry s = Inr (r, s')"
    and "config_item s = Some c"
  shows "config_step s s' \<and> info_sender info = creator c"
proof -
  obtain s1 s2 s3 ms where "update_owner D owner s = Inr s1"
    "update_dispatcher D dispatcher s1 = Inr (ms, s2)" "update_token D token s2 = Inr s3"
    "update_registry D registry s3 = Inr s'" "info_sender info = creator c"
    using assms by (auto simp: execute_update_config_def load_config_def result_simps split: if_splits)
  then show ?thesis by (blast intro: config_step_trans dest: config_step_parts)
qed

section \<open>Properties\<close>

text \<open>
  C26: Rights. The owner's messages are refused to everyone else, pausing to everyone but the owner
  and the guardians; redelegations are accepted only from the owner and the registry, rewards only
  from the dispatcher, unbond requests only from the token contract.
\<close>

theorem hub_access_control:
  assumes "load_config s = Inr c"
  shows "(owner_message msg \<and> info_sender info \<noteq> creator c \<longrightarrow>
      hub_execute D env info msg s = generic_err ''unauthorized'')
    \<and> (info_sender info \<noteq> creator c \<and> kv_get (guardians s) (info_sender info) = None \<longrightarrow>
      hub_execute D env info PauseContracts s = generic_err ''unauthorized'')
    \<and> (hub_execute D env info (RedelegateProxy src reds) s = Inr x \<longrightarrow>
      info_sender info = creator c \<or> validators_registry_contract c = Some (info_sender info))
    \<and> (hub_execute D env info hub_execute_msg.BondRewards s = Inr x \<longrightarrow>
      reward_dispatcher_contract c = Some (info_sender info))
    \<and> (hub_execute D env info (Receive m) s = Inr x \<longrightarrow>
      (\<exists>token. statom_token_contract c = Some token
        \<and> addr_validate (api D) (info_sender info) = Inr token))"
proof (intro conjI impI)
  assume "owner_message msg \<and> info_sender info \<noteq> creator c"
  with assms show "hub_execute D env info msg s = generic_err ''unauthorized''"
    by (cases msg) (auto simp: hub_execute_def owner_message_def execute_update_config_def
        execute_update_params_def execute_unpause_contracts_def execute_add_guardians_def
        execute_remove_guardians_def)
next
  assume "info_sender info \<noteq> creator c \<and> kv_get (guardians s) (info_sender info) = None"
  with assms show "hub_execute D env info PauseContracts s = generic_err ''unauthorized''"
    by (simp add: hub_execute_def execute_pause_contracts_def)
next
  assume "hub_execute D env info (RedelegateProxy src reds) s = Inr x"
  with assms show "info_sender info = creator c \<or> validators_registry_contract c = Some (info_sender info)"
    by (auto simp: hub_execute_def execute_redelegate_proxy_def result_simps split: if_splits)
next
  assume "hub_execute D env info hub_execute_msg.BondRewards s = Inr x"
  with assms show "reward_dispatcher_contract c = Some (info_sender info)"
    by (cases x) (auto simp: hub_execute_def elim!: execute_bond_Inr)
next
  assume "hub_execute D env info (Receive m) s = Inr x"
  with assms show "\<exists>token. statom_token_contract c = Some token
      \<and> addr_validate (api D) (info_sender info) = Inr token"
    by (cases x) (auto simp: hub_execute_def elim!: receive_Inr)
qed

lemma hub_access_control_witness:
  "hub_execute (sample_deps 0) (at_time 150) (call_from ''mallory'' []) UnpauseContracts sample_hub
      = generic_err ''unauthorized''
    \<and> hub_execute (sample_deps 0) (at_time 150) (call_from ''mallory'' []) PauseContracts sample_hub
      = generic_err ''unauthorized''"
proof -
  have c: "load_config sample_hub = Inr sample_config" by (simp add: load_config_def sample_hub_def)
  have g: "kv_get (guardians sample_hub) ''mallory'' = None" by (simp add: sample_hub_def kv_get_def)
  show ?thesis
    using hub_access_control[OF c, of UnpauseContracts "call_from ''mallory'' []"] g
    by (simp add: owner_message_def call_from_def sample_config_def)
qed

text \<open>
  C32: A paused hub refuses deposits, rewards, their dispatch, withdrawals, slashing checks and
  unbond requests, whoever sends them, and so changes nothing.
\<close>

theorem paused_hub_refuses:
  assumes "load_parameters s = Inr p" and "paused p = Some True"
    and "msg \<in> {BondForStAtom, hub_execute_msg.BondRewards, DispatchRewards, WithdrawUnbonded, CheckSlashing}
      \<or> (\<exists>m. msg = Receive m)"
  shows "hub_execute D env info msg s \<in>
    {generic_err ''the contract is temporarily paused'', generic_err ''The contract is temporarily paused''}"
proof -
  have "is_hub_paused p" using assms(2) by (simp add: is_hub_paused_def)
  with assms(1,3) show ?thesis
    by (auto simp: hub_execute_def execute_bond_def execute_dispatch_rewards_def
        execute_withdraw_unbonded_def execute_slashing_def receive_cw20_def)
qed

definition paused_sample :: hub_store where
  "paused_sample = sample_hub\<lparr>parameters_item := Some (sample_parameters\<lparr>paused := Some True\<rparr>)\<rparr>"

lemma paused_hub_refuses_witness:
  "isl (hub_execute (sample_deps 9) (at_time 151) (call_from ''bob'' []) WithdrawUnbonded paused_sample)"
proof -
  have p: "load_parameters paused_sample = Inr (sample_parameters\<lparr>paused := Some True\<rparr>)"
    by (simp add: load_parameters_def paused_sample_def)
  have "hub_execute (sample_deps 9) (at_time 151) (call_from ''bob'' []) WithdrawUnbonded paused_sample
    \<in> {generic_err ''the contract is temporarily paused'', generic_err ''The contract is temporarily paused''}"
    by (rule paused_hub_refuses[OF p]) simp_all
  then show ?thesis by auto
qed

text \<open>
  C27: The administration can only change in the ways meant. Whatever message is accepted: a hub
  becomes paused only through the owner or a guardian and is unpaused only by the owner; the
  configuration and the guardians change only by the owner; a registered token contract and the
  staked denomination never change.
\<close>

theorem admin_transitions:
  assumes "hub_execute D env info msg s = Inr (r, s')"
    and "config_item s = Some c" and "parameters_item s = Some p"
  shows "\<exists>c' p'. config_item s' = Some c' \<and> parameters_item s' = Some p'
    \<and> (\<not> is_hub_paused p \<and> is_hub_paused p' \<longrightarrow> msg = PauseContracts
        \<and> (info_sender info = creator c \<or> kv_get (guardians s) (info_sender info) \<noteq> None))
    \<and> (is_hub_paused p \<and> \<not> is_hub_paused p' \<longrightarrow> msg = UnpauseContracts \<and> info_sender info = creator c)
    \<and> (c' \<noteq> c \<or> guardians s' \<noteq> guardians s \<longrightarrow> info_sender info = creator c)
    \<and> (statom_token_contract c \<noteq> None \<longrightarrow> statom_token_contract c' = statom_token_contract c)
    \<and> underlying_coin_denom p' = underlying_coin_denom p"
proof -
  have cfg: "load_config s = Inr c" and par: "load_parameters s = Inr p"
    using assms(2,3) by (simp_all add: load_config_def load_parameters_def)
  consider "\<not> owner_message msg" "msg \<noteq> PauseContracts" | "msg = PauseContracts"
    | (config) owner dispatcher registry token where "msg = UpdateConfig owner dispatcher registry token"
    | (params) a b where "msg = UpdateParams a b" | "msg = UnpauseContracts"
    | (add) gs where "msg = AddGuardians gs" | (remove) gs where "msg = RemoveGuardians gs"
    by (cases msg) (auto simp: owner_message_def)
  then show ?thesis
  proof cases
    case 1
    then show ?thesis using other_messages_admin[OF assms(1)] assms(2,3) by (simp add: same_admin_def)
  next
    case config
    then have "execute_update_config D info owner dispatcher token registry s = Inr (r, s')"
      using assms(1) by (simp add: hub_execute_def)
    from update_config_step[OF this assms(2)] show ?thesis
      using assms(2,3) by (auto simp: config_step_def)
  qed (use assms(1-3) cfg par in \<open>auto simp: hub_execute_def execute_pause_contracts_def
      execute_unpause_contracts_def execute_update_params_def execute_add_guardians_def
      execute_remove_guardians_def foldl_guardians_frame
      foldl_guardians_frame[of "\<lambda>g. kv_set g True"] is_hub_paused_def save_parameters_def
      result_simps Let_def split: if_splits\<close>)
qed

lemma admin_transitions_witness:
  "\<exists>p'. parameters_item (snd (projr (hub_execute (sample_deps 0) (at_time 150)
        (call_from ''guard'' []) PauseContracts sample_hub))) = Some p'
    \<and> underlying_coin_denom p' = ''uatom''"
proof -
  let ?run = "hub_execute (sample_deps 0) (at_time 150) (call_from ''guard'' []) PauseContracts sample_hub"
  have "isl ?run = False" by code_simp
  then obtain r s' where run: "?run = Inr (r, s')" by (cases ?run) auto
  have items: "config_item sample_hub = Some sample_config" "parameters_item sample_hub = Some sample_parameters"
    by (simp_all add: sample_hub_def)
  show ?thesis using admin_transitions[OF run items] run by (auto simp: sample_parameters_def)
qed

end
