(* ===== verification/Hub_Books.thy ===== *)
theory Hub_Books
  imports Hub_Run
begin

text \<open>
  The properties of the hub's books in every reachable state, and of the message that settles
  them: what a withdrawal releases, pays and removes. (The request that opens an entry is in
  \<open>Hub_Requests\<close>, that the hub can pay what it has released in \<open>Hub_Solvency\<close>, and that it does in
  \<open>Hub_Payout\<close>.)
\<close>

section \<open>Reachable books\<close>

text \<open>
  C1: In every reachable state the books balance. The requests of all users in the current batch
  add up to the amount the batch records; in a batch that is undelegated but not released they add
  up to the amount its history records, in a released one to at most that (the rest has been
  withdrawn); no request names a later batch.
\<close>

theorem books_balance:
  assumes "hub_reachable L A s" and "bignum_laws L" and "codec_laws A"
  shows "\<exists>b. current_batch_item s = Some b
    \<and> claimed A s (current_id b) = unat (requested_statom b)
    \<and> (\<forall>i h. history_at s i = Some h \<longrightarrow> claimed A s i \<le> unat (statom_amount h)
        \<and> (\<not> released h \<longrightarrow> claimed A s i = unat (statom_amount h)))
    \<and> (\<forall>i. current_id b < i \<longrightarrow> claimed A s i = 0)"
  using reachable_inv[OF assms] no_future_claims[OF assms(3)]
  unfolding hub_inv_def books_ok_def claims_ok_def by blast

lemma books_balance_witness:
  "claimed reference_api sample_hub 2 = 5 \<and> claimed reference_api sample_hub 1 = 10"
proof -
  have h: "history_at sample_hub 1 = Some sample_history"
    by (simp add: history_at_def sample_hub_def kv_get_def)
  show ?thesis
    using books_balance[OF sample_hub_reachable reference.bignum_laws_axioms
        reference_codec.codec_laws_axioms] h
    by (auto simp: sample_hub_def sample_history_def)
qed

text \<open>
  C8: In every reachable state the histories are numbered from 1 to one less than the current
  batch without a gap, each under its own number and with non-decreasing times; exactly those up
  to \<open>last_processed_batch\<close> are released, and none is newer than the last undelegation.
\<close>

theorem batches_numbered:
  assumes "hub_reachable L A s" and "bignum_laws L" and "codec_laws A"
  shows "\<exists>b st. current_batch_item s = Some b \<and> state_item s = Some st
    \<and> last_processed_batch st < current_id b
    \<and> (\<forall>i. history_at s i \<noteq> None \<longleftrightarrow> 0 < i \<and> i < current_id b)
    \<and> (\<forall>i h. history_at s i = Some h \<longrightarrow> batch_id h = i
        \<and> (released h \<longleftrightarrow> i \<le> last_processed_batch st) \<and> history_time h \<le> last_unbonded_time st)
    \<and> (\<forall>i j h h'. history_at s i = Some h \<and> history_at s j = Some h' \<and> i \<le> j \<longrightarrow>
        history_time h \<le> history_time h')"
proof -
  obtain b st where b: "current_batch_item s = Some b" "state_item s = Some st"
    and ok: "books_ok A s b st"
    using reachable_inv[OF assms] by (auto simp: hub_inv_def)
  then have hist: "history_ok s b st" and "last_processed_batch st < current_id b"
    by (simp_all add: books_ok_def)
  moreover have "history_at s i \<noteq> None \<longleftrightarrow> 0 < i \<and> i < current_id b" for i
    using hist history_keys[OF hist] unfolding history_ok_def by fastforce
  moreover have "batch_id h = i \<and> (released h \<longleftrightarrow> i \<le> last_processed_batch st)
      \<and> history_time h \<le> last_unbonded_time st" if "history_at s i = Some h" for i h
    using hist history_keys[OF hist that] that unfolding history_ok_def by fastforce
  ultimately show ?thesis using b unfolding history_ok_def by blast
qed

lemma batches_numbered_witness:
  "history_at sample_hub 1 \<noteq> None \<and> history_at sample_hub 2 = None
    \<and> \<not> released (the (history_at sample_hub 1))"
proof -
  have items: "current_batch_item sample_hub = Some \<lparr>current_id = 2, requested_statom = 5\<rparr>"
    "state_item sample_hub = Some sample_state"
    by (simp_all add: sample_hub_def)
  show ?thesis
    using batches_numbered[OF sample_hub_reachable reference.bignum_laws_axioms
        reference_codec.codec_laws_axioms] items
    by (auto simp: sample_state_def)
qed

section \<open>Withdrawing\<close>

text \<open>
  C2: A withdrawal that is accepted pays the sender, in one transfer, exactly what the released
  batches owe it (each request at its batch's rate, rounded down), which is not zero; it removes
  exactly the requests it pays, so the sender is owed nothing afterwards and nobody else's
  requests change; the balance remembered for the next release is what is left on the account.
\<close>

theorem withdraw_pays_owed:
  assumes "hub_reachable L A s" and "bignum_laws L" and "codec_laws A"
    and "numbers D = L" and "api D = A"
    and "hub_execute D env info WithdrawUnbonded s = Inr (r, s')"
  shows "\<exists>p time balance s1 amount st. load_parameters s = Inr p
    \<and> unat time + unat (unbonding_period p) = unat (block_seconds env)
    \<and> query_balance (querier D) (contract_address env) (underlying_coin_denom p) = Inr balance
    \<and> process_withdraw_rate D time (coin_amount balance) s = Inr s1
    \<and> unat amount = owed A s1 (info_sender info) \<and> 0 < amount
    \<and> messages r = [BankSend (info_sender info)
        [\<lparr>coin_denom = underlying_coin_denom p, coin_amount = amount\<rparr>]]
    \<and> wait_list s' = filter (\<lambda>e. \<not> settled A s1 (info_sender info) e) (wait_list s)
    \<and> owed A s' (info_sender info) = 0
    \<and> state_item s' = Some st
    \<and> unat (coin_amount balance) = unat amount + unat (prev_hub_balance st)"
proof -
  have run: "execute_withdraw_unbonded D env info s = Inr (r, s')"
    using assms(6) by (simp add: hub_execute_def)
  have laws: "bignum_laws (numbers D)" "codec_laws (api D)" "hub_inv (api D) s"
    using assms(2-5) reachable_inv[OF assms(1-3)] by simp_all
  show ?thesis
  proof (rule withdraw_effect[OF laws run])
    fix p time balance s1 amount prev st
    assume facts: "load_parameters s = Inr p"
      "unat time + unat (unbonding_period p) = unat (block_seconds env)"
      "query_balance (querier D) (contract_address env) (underlying_coin_denom p) = Inr balance"
      "process_withdraw_rate D time (coin_amount balance) s = Inr s1"
      "amount \<noteq> 0" "unat amount = owed (api D) s1 (info_sender info)"
      "unat (coin_amount balance) = unat amount + unat prev"
      "messages r = [BankSend (info_sender info)
        [\<lparr>coin_denom = underlying_coin_denom p, coin_amount = amount\<rparr>]]"
      and wl: "wait_list s1 = wait_list s"
      and s': "s' = save_state (st\<lparr>prev_hub_balance := prev\<rparr>)
        (s1\<lparr>wait_list := filter (\<lambda>e. \<not> settled (api D) s1 (info_sender info) e) (wait_list s)\<rparr>)"
    have pay: "payable (api D) s' = payable (api D) s1" by (rule payable_cong) (simp add: s')
    have "wait_list s' = filter (\<lambda>e. \<not> settled (api D) s1 (info_sender info) e) (wait_list s1)"
      by (simp add: s' wl)
    then have "owed A s' (info_sender info) = 0"
      unfolding owed_def assms(5)[symmetric] pay using owed_after_settling by simp
    moreover have "0 < amount" using facts(5) by (simp add: word_gt_0)
    ultimately show ?thesis
      using facts(1-4,6-8) assms(5)
      by (intro exI[of _ p] exI[of _ time] exI[of _ balance] exI[of _ s1] exI[of _ amount]
          exI[of _ "st\<lparr>prev_hub_balance := prev, total_statom_issued := 0\<rparr>"])
        (simp add: s')
  qed
qed

lemma withdraw_pays_owed_witness:
  "\<exists>s1. messages (fst (projr (hub_execute (sample_deps 9) (at_time 151) (call_from ''bob'' [])
        WithdrawUnbonded sample_hub)))
      = [BankSend ''bob'' [uatom 8]]
    \<and> owed reference_api s1 ''bob'' = 8"
proof -
  let ?run = "hub_execute (sample_deps 9) (at_time 151) (call_from ''bob'' []) WithdrawUnbonded sample_hub"
  have "isl ?run = False" by code_simp
  then obtain r s' where run: "?run = Inr (r, s')" by (cases ?run) auto
  have sent: "messages (fst (projr ?run)) = [BankSend ''bob'' [uatom 8]]" by code_simp
  show ?thesis
    using withdraw_pays_owed[OF sample_hub_reachable reference.bignum_laws_axioms
        reference_codec.codec_laws_axioms _ _ run] sent run
    by (auto simp: uatom_def call_from_def)
qed

text \<open>
  C9: A withdrawal releases exactly the batches undelegated at least an unbonding period ago: after
  it every such batch is released, a newer one is untouched, and a batch released before keeps
  its rate for ever.
\<close>

theorem withdraw_releases_matured:
  assumes "hub_reachable L A s" and "bignum_laws L" and "codec_laws A"
    and "numbers D = L" and "api D = A"
    and "hub_execute D env info WithdrawUnbonded s = Inr (r, s')"
  shows "\<exists>p time. load_parameters s = Inr p
    \<and> unat time + unat (unbonding_period p) = unat (block_seconds env)
    \<and> (\<forall>i. history_at s i = None \<longleftrightarrow> history_at s' i = None)
    \<and> (\<forall>i h. history_at s i = Some h \<longrightarrow>
        (if released h \<or> time < history_time h then history_at s' i = Some h
         else \<exists>rate. history_at s' i = Some (h\<lparr>statom_withdraw_rate := rate, released := True\<rparr>)))"
proof -
  have run: "execute_withdraw_unbonded D env info s = Inr (r, s')"
    using assms(6) by (simp add: hub_execute_def)
  have laws: "bignum_laws (numbers D)" "codec_laws (api D)" "hub_inv (api D) s"
    using assms(2-5) reachable_inv[OF assms(1-3)] by simp_all
  show ?thesis
  proof (rule withdraw_effect[OF laws run])
    fix p time balance s1 amount prev st
    assume p: "load_parameters s = Inr p"
        "unat time + unat (unbonding_period p) = unat (block_seconds env)"
      and rate: "process_withdraw_rate D time (coin_amount balance) s = Inr s1"
      and inv: "hub_inv (api D) s1"
      and s': "s' = save_state (st\<lparr>prev_hub_balance := prev\<rparr>)
        (s1\<lparr>wait_list := filter (\<lambda>e. \<not> settled (api D) s1 (info_sender info) e) (wait_list s)\<rparr>)"
    have at: "history_at s' i = history_at s1 i" for i by (simp add: s' history_at_def)
    have same: "current_batch_item s1 = current_batch_item s"
      by (rule process_withdraw_rate_inv(3)[OF laws(1) rate laws(3)])
    have defined: "history_at s i = None \<longleftrightarrow> history_at s1 i = None" for i
      using hub_inv_histories[OF laws(3), of i] hub_inv_histories[OF inv, of i, unfolded same] by blast
    show ?thesis
      using p defined process_withdraw_rate_releases[OF laws(1) rate laws(3)]
      unfolding at release_def by blast
  qed
qed

lemma withdraw_releases_matured_witness:
  "\<exists>rate. history_at (snd (projr (hub_execute (sample_deps 9) (at_time 151) (call_from ''bob'' [])
        WithdrawUnbonded sample_hub))) 1
      = Some (sample_history\<lparr>statom_withdraw_rate := rate, released := True\<rparr>)"
proof -
  let ?run = "hub_execute (sample_deps 9) (at_time 151) (call_from ''bob'' []) WithdrawUnbonded sample_hub"
  have "isl ?run = False" by code_simp
  then obtain r s' where run: "?run = Inr (r, s')" by (cases ?run) auto
  have h: "history_at sample_hub 1 = Some sample_history"
    by (simp add: history_at_def sample_hub_def kv_get_def)
  obtain p time where p: "load_parameters sample_hub = Inr p"
    "unat time + unat (unbonding_period p) = unat (block_seconds (at_time 151))"
    "if released sample_history \<or> time < history_time sample_history
      then history_at s' 1 = Some sample_history
      else \<exists>rate. history_at s' 1 = Some (sample_history\<lparr>statom_withdraw_rate := rate, released := True\<rparr>)"
    using withdraw_releases_matured[OF sample_hub_reachable reference.bignum_laws_axioms
        reference_codec.codec_laws_axioms _ _ run] h
    by auto
  have "p = sample_parameters" using p(1) by (simp add: load_parameters_def sample_hub_def)
  then have "unat time = 141" using p(2) by (simp add: sample_parameters_def at_time_def)
  then have "\<not> time < history_time sample_history" by (simp add: sample_history_def word_less_nat_alt)
  then show ?thesis using p(3) run by (simp add: sample_history_def)
qed

end
