(* ===== verification/Hub_Solvency.thy ===== *)
theory Hub_Solvency
  imports Hub_Books
begin

text \<open>
  Solvency: what the hub has released but not yet paid is covered by the balance it remembers.
  Releasing a batch raises the liability by at most what the batch is credited with, the credits
  together are at most what has arrived, and a withdrawal lowers liability and balance alike.
\<close>

section \<open>The liability of releasing\<close>

lemma weight_add: "weight (\<lambda>k v. f k v + g k v) m = weight f m + weight g m"
  by (simp add: weight_def sum_list_addf)

lemma batch_shares:
  "weight (\<lambda>k w. if snd k = batch_to_vec A i then share_value w h else 0) (wait_list s)
    \<le> claimed A s i * unat (atomics (statom_withdraw_rate h)) div fractional"
proof -
  let ?f = "\<lambda>e. if snd (fst e) = batch_to_vec A i then unat (wait_amount (snd e)) else 0"
  have "weight (\<lambda>k w. if snd k = batch_to_vec A i then share_value w h else 0) (wait_list s)
      = (\<Sum>e \<leftarrow> wait_list s. ?f e * unat (atomics (statom_withdraw_rate h)) div fractional)"
    unfolding weight_def by (intro arg_cong[of _ _ sum_list] map_cong) (auto simp: share_value_def)
  also have "\<dots> \<le> (\<Sum>e \<leftarrow> wait_list s. ?f e) * unat (atomics (statom_withdraw_rate h)) div fractional"
    by (rule sum_payouts_le)
  finally show ?thesis by (simp add: claimed_def weight_def)
qed

lemma liability_release_one:
  assumes "codec_laws A" and "kv_wf (unbond_histories s)" and "batch_keys A s"
    and "history_at s i = Some h0" and "\<not> released h0" and "released h"
    and "claimed A s i = unat (statom_amount h)"
  shows "liability A (store_unbond_history i h s) \<le> liability A s + expected h"
proof -
  let ?s = "store_unbond_history i h s"
  let ?new = "\<lambda>k w. if snd k = batch_to_vec A i then share_value w h else 0"
  have at: "history_at ?s j = (if j = i then Some h else history_at s j)" for j
    using assms(2) by (simp add: history_at_def)
  have split: "payable A ?s (snd k) w = payable A s (snd k) w + ?new k w" if "(k, w) \<in> set (wait_list s)" for k w
  proof -
    obtain b where b: "snd k = batch_to_vec A b" using assms(3) \<open>(k, w) \<in> set (wait_list s)\<close>
      unfolding batch_keys_def by (metis fst_conv)
    then show ?thesis
      using assms(4-6) codec_laws.batch_roundtrip[OF assms(1)] codec_laws.batch_to_vec_inject[OF assms(1)]
      by (simp add: payable_def released_history_def at split: option.splits)
  qed
  have "weight (\<lambda>k w. payable A ?s (snd k) w) (wait_list s)
      = weight (\<lambda>k w. payable A s (snd k) w + ?new k w) (wait_list s)"
    by (rule weight_cong) (rule split)
  then have "liability A ?s = liability A s + weight ?new (wait_list s)"
    by (simp add: liability_def weight_add)
  then show ?thesis using batch_shares[of A i h s] assms(7) by (simp add: expected_def)
qed

lemma claimed_store_history [simp]: "claimed A (store_unbond_history i h s) = claimed A s"
  by (simp add: fun_eq_iff claimed_def)

lemma batch_keys_store_history [simp]: "batch_keys A (store_unbond_history i h s) = batch_keys A s"
  by (simp add: batch_keys_def)

lemma liability_release:
  assumes "codec_laws A"
  shows "matured_run s time i hs \<Longrightarrow> length rs = length hs \<Longrightarrow> kv_wf (unbond_histories s) \<Longrightarrow>
    batch_keys A s \<Longrightarrow>
    (\<And>j h. history_at s j = Some h \<Longrightarrow> \<not> released h \<Longrightarrow> claimed A s j = unat (statom_amount h)) \<Longrightarrow>
    liability A (store_released i (map2 release hs rs) s)
      \<le> liability A s + (\<Sum>h \<leftarrow> map2 release hs rs. expected h)"
proof (induction hs arbitrary: i s rs)
  case (Cons h hs)
  obtain r rs' where rs: "rs = r # rs'" and len: "length rs' = length hs"
    using Cons.prems(2) by (cases rs) auto
  let ?h = "release h r"
  let ?s = "store_unbond_history i ?h s"
  have h: "history_at s i = Some h" "\<not> released h"
    using Cons.prems(1) by (auto elim!: matured_run_ConsE simp: unreleased_history_Some history_at_def)
  have "liability A ?s \<le> liability A s + expected ?h"
    using Cons.prems(3-5) h by (intro liability_release_one[OF assms]) (auto simp: release_def)
  moreover have "liability A (store_released (i + 1) (map2 release hs rs') ?s)
      \<le> liability A ?s + (\<Sum>h \<leftarrow> map2 release hs rs'. expected h)"
  proof (rule Cons.IH)
    show "matured_run ?s time (i + 1) hs" by (rule matured_run_step[OF Cons.prems(1,3)])
    fix j h'
    assume "history_at ?s j = Some h'" and "\<not> released h'"
    then show "claimed A ?s j = unat (statom_amount h')"
      using Cons.prems(3,5) by (auto simp: history_at_def release_def split: if_splits)
  qed (use Cons.prems len in simp_all)
  ultimately show ?case by (simp add: rs)
qed simp

section \<open>Covered releases\<close>

text \<open>
  When the rounding of a release is covered: the account did not shrink, and if batches are
  due, something has arrived for them, each of them expects something, and the number of batches
  times what is missing stays below \<open>10\<^sup>1\<^sup>8\<close>.
\<close>

definition covered :: "hub_store \<Rightarrow> u64 \<Rightarrow> u128 \<Rightarrow> bool" where
  "covered s time balance \<longleftrightarrow> (\<exists>st. state_item s = Some st \<and> prev_hub_balance st \<le> balance
     \<and> (\<forall>hs. matured_run s time (last_processed_batch st + 1) hs \<and> hs \<noteq> [] \<longrightarrow>
         prev_hub_balance st < balance \<and> (\<forall>h \<in> set hs. 0 < expected h)
       \<and> length hs * ((\<Sum>h \<leftarrow> hs. expected h) - (unat balance - unat (prev_hub_balance st))) \<le> fractional))"

definition solvent :: "api_lib \<Rightarrow> hub_store \<Rightarrow> bool" where
  "solvent A s \<longleftrightarrow> (\<exists>st. state_item s = Some st \<and> liability A s \<le> unat (prev_hub_balance st))"

lemma covered_release:
  assumes "bignum_laws (numbers D)" and "codec_laws A" and "hub_inv A s"
    and "process_withdraw_rate D time balance s = Inr s1"
    and "solvent A s" and "covered s time balance"
  shows "liability A s1 \<le> unat balance"
proof -
  obtain b st where st: "state_item s = Some st" and ok: "books_ok A s b st"
    using assms(3) by (auto simp: hub_inv_def)
  have load: "load_state s = Inr st" and wf: "kv_wf (unbond_histories s)" and claims: "claims_ok A s b"
    using st ok by (simp_all add: load_state_def books_ok_def)
  have le: "prev_hub_balance st \<le> balance" and liab: "liability A s \<le> unat (prev_hub_balance st)"
    using assms(5,6) st by (auto simp: covered_def solvent_def)
  have due: "prev_hub_balance st < balance \<and> (\<forall>h \<in> set hs. 0 < expected h)
      \<and> length hs * ((\<Sum>h \<leftarrow> hs. expected h) - (unat balance - unat (prev_hub_balance st))) \<le> fractional"
    if "matured_run s time (last_processed_batch st + 1) hs" "hs \<noteq> []" for hs
    using assms(6) st that unfolding covered_def by auto
  show ?thesis
  proof (rule process_withdraw_rate_run[OF assms(1,4) load wf])
    fix hs rs p
    let ?i = "last_processed_batch st + 1"
    let ?T = "\<Sum>h \<leftarrow> hs. expected h" and ?R = "arrived balance (prev_hub_balance st)"
    let ?s = "store_released ?i (map2 release hs rs) s"
    assume run: "matured_run s time ?i hs" and len: "length rs = length hs"
      and credit: "\<And>j. j < length hs \<Longrightarrow>
        expected (release (hs ! j) (rs ! j)) \<le> credit_for (expected (hs ! j)) ?T ?R"
      and s1: "s1 = (if hs = [] then s else save_state (st\<lparr>last_processed_batch := p\<rparr>) ?s)"
    show ?thesis
    proof (cases "hs = []")
      case True
      then show ?thesis using liab le by (simp add: s1 word_le_nat_alt)
    next
      case False
      have R: "?R = unat balance - unat (prev_hub_balance st)" using le by (simp add: arrived_def)
      have "liability A s1 = liability A ?s"
        using False payable_cong[of s1 ?s A] by (simp add: s1 liability_def)
      also have "\<dots> \<le> liability A s + (\<Sum>h \<leftarrow> map2 release hs rs. expected h)"
        using claims hub_inv_batch_keys[OF assms(3)]
        by (intro liability_release[OF assms(2) run len wf]) (auto simp: claims_ok_def)
      also have "(\<Sum>h \<leftarrow> map2 release hs rs. expected h) \<le> ?R"
        using due[OF run False] R by (intro released_sum[OF len credit]) (auto simp: word_less_nat_alt)
      finally show ?thesis using liab le R by (simp add: word_le_nat_alt)
    qed
  qed
qed

section \<open>The other messages\<close>

lemma same_ledger_solvent:
  assumes "same_ledger s s'" and "solvent A s"
  shows "solvent A s'"
proof -
  have "payable A s' = payable A s" using assms(1) by (intro payable_cong) (simp add: same_ledger_def)
  then have "liability A s' = liability A s" using assms(1) by (simp add: liability_def same_ledger_def)
  then show ?thesis using assms by (auto simp: solvent_def same_ledger_def)
qed

text \<open>A request is never payable at once: its batch is not even undelegated.\<close>

lemma request_liability:
  assumes "uint128_laws (numbers D)" and "codec_laws (api D)"
    and "store_unbond_wait_list D i user amount s = Inr s2" and "kv_wf (wait_list s)"
    and "history_at s i = None"
  shows "liability (api D) s2 = liability (api D) s"
proof (rule store_wait_list_Inr[OF assms(1,3)])
  fix w
  let ?k = "(user, batch_to_vec (api D) i)"
  let ?f = "\<lambda>k w. payable (api D) s (snd k) w"
  assume s2: "s2 = s\<lparr>wait_list := kv_set ?k w (wait_list s)\<rparr>"
  have "payable (api D) s2 = payable (api D) s" by (rule payable_cong) (simp add: s2)
  moreover have none: "payable (api D) s (batch_to_vec (api D) i) w' = 0" for w'
    using assms(5) codec_laws.batch_roundtrip[OF assms(2)] by (simp add: payable_def released_history_def)
  moreover have "weight ?f (kv_set ?k w (wait_list s)) = weight ?f (wait_list s)"
    using kv.weight_put[OF assms(4), of ?f ?k w] none by (simp split: option.splits)
  ultimately show ?thesis by (simp add: liability_def s2)
qed

lemma unreleased_payable:
  assumes "kv_wf (unbond_histories s)" and "history_at s i = None" and "\<not> released h"
  shows "payable A (store_unbond_history i h s) = payable A s"
proof (intro ext)
  fix k w
  show "payable A (store_unbond_history i h s) k w = payable A s k w"
    using assms by (auto simp: payable_def released_history_def history_at_def split: sum.splits)
qed

lemma unbond_solvent:
  assumes "uint128_laws (numbers D)" and "codec_laws (api D)" and "hub_inv (api D) s"
    and "execute_unbond_statom D env amount user s = Inr (r, s')" and "solvent (api D) s"
  shows "solvent (api D) s'"
proof (rule execute_unbond_Inr[OF assms(4)])
  fix p b st requested s2 passed ms b2 st2 s3
  assume b: "load_current_batch s = Inr b" and slash: "slashing D env s = Inr (st, save_state st s)"
    and wl: "store_unbond_wait_list D (current_id b) user amount (save_state st s) = Inr s2"
    and x: "(if passed > epoch_period p
      then process_undelegations D env (b\<lparr>requested_statom := requested\<rparr>) st s2
      else Inr ([], b\<lparr>requested_statom := requested\<rparr>, st, s2)) = Inr (ms, b2, st2, s3)"
    and s': "s' = save_state st2 (save_current_batch b2 s3)"
  obtain st0 where st0: "state_item s = Some st0" "prev_hub_balance st = prev_hub_balance st0"
    using slash by (auto elim: slashing_frame)
  have b': "current_batch_item s = Some b" using b by (simp add: load_current_batch_def result_simps)
  have none: "history_at s (current_id b) = None"
    using hub_inv_histories[OF assms(3), of "current_id b"] b' by auto
  have wf: "kv_wf (wait_list s)" "kv_wf (unbond_histories s)"
    using assms(3) by (auto simp: hub_inv_def books_ok_def)
  obtain w where s2: "s2 = save_state st s\<lparr>wait_list := w\<rparr>"
    by (rule store_wait_list_Inr[OF assms(1) wl]) blast
  have "payable (api D) (save_state st s) = payable (api D) s" by (rule payable_cong) simp
  then have "liability (api D) s2 = liability (api D) s"
    using request_liability[OF assms(1,2) wl] none wf by (simp add: history_at_def liability_def)
  moreover have "liability (api D) s3 = liability (api D) s2 \<and> prev_hub_balance st2 = prev_hub_balance st"
  proof (cases "passed > epoch_period p")
    case True
    then have und: "process_undelegations D env (b\<lparr>requested_statom := requested\<rparr>) st s2
        = Inr (ms, b2, st2, s3)" using x by simp
    show ?thesis
      by (rule process_undelegations_Inr[OF und])
        (use none wf in \<open>simp add: liability_def s2 unreleased_payable history_at_def\<close>)
  qed (use x in simp)
  moreover have "payable (api D) s' = payable (api D) s3" by (rule payable_cong) (simp add: s')
  then have "liability (api D) s' = liability (api D) s3" by (simp add: liability_def s')
  ultimately show "solvent (api D) s'" using assms(5) st0 by (simp add: solvent_def s')
qed

lemma withdraw_solvent:
  assumes "bignum_laws (numbers D)" and "codec_laws (api D)" and "hub_inv (api D) s"
    and "execute_withdraw_unbonded D env info s = Inr (r, s')" and "solvent (api D) s"
    and "\<And>p time balance. load_parameters s = Inr p \<Longrightarrow>
      unat time + unat (unbonding_period p) = unat (block_seconds env) \<Longrightarrow>
      query_balance (querier D) (contract_address env) (underlying_coin_denom p) = Inr balance \<Longrightarrow>
      covered s time (coin_amount balance)"
  shows "solvent (api D) s'"
proof (rule withdraw_effect[OF assms(1-4)])
  fix p time balance s1 amount prev st
  let ?keep = "filter (\<lambda>e. \<not> settled (api D) s1 (info_sender info) e) (wait_list s)"
  assume facts: "load_parameters s = Inr p"
      "unat time + unat (unbonding_period p) = unat (block_seconds env)"
      "query_balance (querier D) (contract_address env) (underlying_coin_denom p) = Inr balance"
    and rate: "process_withdraw_rate D time (coin_amount balance) s = Inr s1"
    and wl: "wait_list s1 = wait_list s"
    and owed: "unat amount = owed (api D) s1 (info_sender info)"
    and prev: "unat (coin_amount balance) = unat amount + unat prev"
    and s': "s' = save_state (st\<lparr>prev_hub_balance := prev\<rparr>) (s1\<lparr>wait_list := ?keep\<rparr>)"
  have "liability (api D) s1 \<le> unat (coin_amount balance)"
    by (rule covered_release[OF assms(1-3) rate assms(5) assms(6)[OF facts]])
  moreover have "payable (api D) s' = payable (api D) s1" by (rule payable_cong) (simp add: s')
  then have "liability (api D) s' = weight (\<lambda>k w. payable (api D) s1 (snd k) w) ?keep"
    by (simp add: liability_def s')
  then have "liability (api D) s' + unat amount = liability (api D) s1"
    using liability_settled[of "api D" s1 "info_sender info"] owed wl by simp
  ultimately show "solvent (api D) s'" using prev by (simp add: solvent_def s')
qed

section \<open>A covered sample\<close>

text \<open>Batch 1 of the sample is covered when 9 of the 10 it expects have arrived.\<close>

lemma sample_run:
  assumes "unat time = 141"
  shows "matured_run sample_hub time 1 [sample_history]"
proof -
  have h: "history_at sample_hub 1 = Some sample_history" "history_at sample_hub 2 = None"
    by (simp_all add: history_at_def sample_hub_def kv_get_def)
  show ?thesis
  proof (rule matured_run.more)
    show "unreleased_history sample_hub time 1 = Some sample_history"
      using h(1) assms
      by (simp add: unreleased_history_Some history_at_def sample_history_def word_le_nat_alt)
    show "matured_run sample_hub time 2 []"
      using h(2) by (intro matured_run.stop) (simp add: unreleased_history_None history_at_def)
  qed simp
qed

lemma sample_covered:
  assumes "unat time = 141"
  shows "covered sample_hub time 9"
proof -
  note run = sample_run[OF assms]
  have st: "state_item sample_hub = Some sample_state" by (simp add: sample_hub_def)
  have vals: "last_processed_batch sample_state + 1 = 1" "prev_hub_balance sample_state = 0"
    "expected sample_history = 10"
    by (simp_all add: sample_state_def sample_history_def expected_def decimal_one_def)
  show ?thesis
    unfolding covered_def
  proof (intro exI conjI allI impI)
    fix hs
    assume "matured_run sample_hub time (last_processed_batch sample_state + 1) hs \<and> hs \<noteq> []"
    then have "hs = [sample_history]" using matured_run_unique[OF run] vals(1) by simp
    then show "prev_hub_balance sample_state < 9" and "\<forall>h \<in> set hs. 0 < expected h"
      and "length hs * ((\<Sum>h \<leftarrow> hs. expected h) - (unat (9 :: u128) - unat (prev_hub_balance sample_state)))
        \<le> fractional"
      using vals by simp_all
  qed (use st vals in simp_all)
qed

section \<open>Properties\<close>

text \<open>
  C3: Solvency is preserved by every message from every reachable state: what released batches
  still owe all users stays within the balance the hub remembers, provided that a withdrawal finds
  its due batches covered (\<open>covered\<close>: the account grew, each due batch expects something, and
  the rounding of a loss over the batches stays below one unit). So the users of a covered
  release can all be paid, in any order.
\<close>

theorem hub_stays_solvent:
  assumes "hub_reachable L A s" and "bignum_laws L" and "codec_laws A"
    and "numbers D = L" and "api D = A" and "solvent A s"
    and "hub_execute D env info msg s = Inr (r, s')"
    and "\<And>p time balance. msg = WithdrawUnbonded \<Longrightarrow> load_parameters s = Inr p \<Longrightarrow>
      unat time + unat (unbonding_period p) = unat (block_seconds env) \<Longrightarrow>
      query_balance (querier D) (contract_address env) (underlying_coin_denom p) = Inr balance \<Longrightarrow>
      covered s time (coin_amount balance)"
  shows "solvent A s'"
proof -
  have laws: "bignum_laws (numbers D)" "codec_laws (api D)" "hub_inv (api D) s" "uint128_laws (numbers D)"
    using assms(2-5) reachable_inv[OF assms(1-3)] by (simp_all add: bignum_laws_def decimal_laws_def)
  consider "msg = WithdrawUnbonded" | m where "msg = Receive m"
    | "msg \<noteq> WithdrawUnbonded" "\<nexists>m. msg = Receive m" by blast
  then show ?thesis
  proof cases
    case 1
    then have "execute_withdraw_unbonded D env info s = Inr (r, s')"
      using assms(7) by (simp add: hub_execute_def)
    from withdraw_solvent[OF laws(1-3) this] show ?thesis using assms(5,6,8) 1 by simp
  next
    case (2 m)
    then have "execute_unbond_statom D env (cw20_amount m) (cw20_sender m) s = Inr (r, s')"
      using assms(7) by (auto simp: hub_execute_def elim: receive_Inr)
    from unbond_solvent[OF laws(4,2,3) this] show ?thesis using assms(5,6) by simp
  next
    case 3
    then show ?thesis using quiet_execute[OF assms(7)] assms(6) by (blast intro: same_ledger_solvent)
  qed
qed

lemma hub_stays_solvent_witness:
  "solvent reference_api (snd (projr (hub_execute (sample_deps 9) (at_time 151) (call_from ''bob'' [])
    WithdrawUnbonded sample_hub)))"
proof -
  let ?run = "hub_execute (sample_deps 9) (at_time 151) (call_from ''bob'' []) WithdrawUnbonded sample_hub"
  have "isl ?run = False" by code_simp
  then obtain r s' where run: "?run = Inr (r, s')" by (cases ?run) auto
  have "liability reference_api sample_hub = 0" by code_simp
  then have start: "solvent reference_api sample_hub" by (simp add: solvent_def sample_hub_def)
  have cov: "covered sample_hub time (coin_amount balance)"
    if "load_parameters sample_hub = Inr p"
      "unat time + unat (unbonding_period p) = unat (block_seconds (at_time 151))"
      "query_balance (querier (sample_deps 9)) (contract_address (at_time 151)) (underlying_coin_denom p)
        = Inr balance" for p time balance
  proof -
    have "p = sample_parameters" using that(1) by (simp add: load_parameters_def sample_hub_def)
    then have "unat time = 141" using that(2) by (simp add: sample_parameters_def at_time_def)
    moreover have "coin_amount balance = 9"
      using that(3) by (auto simp: sample_deps_def fixed_querier_def uatom_def)
    ultimately show ?thesis using sample_covered by simp
  qed
  show ?thesis
    using hub_stays_solvent[OF sample_hub_reachable reference.bignum_laws_axioms
        reference_codec.codec_laws_axioms _ _ start run cov] run by simp
qed

text \<open>
  C18: When a release stays within what has arrived: if the account grew by \<open>R\<close>, each due batch
  expects something and the number of batches times what is missing is at most \<open>10\<^sup>1\<^sup>8\<close>, the due
  batches are released with rates at which they pay out at most \<open>R\<close> together.
\<close>

theorem release_within_arrived:
  assumes "bignum_laws (numbers D)" and "process_withdraw_rate D time balance s = Inr s'"
    and "load_state s = Inr st" and "kv_wf (unbond_histories s)"
    and "matured_run s time (last_processed_batch st + 1) hs"
    and "prev_hub_balance st < balance" and "\<And>h. h \<in> set hs \<Longrightarrow> 0 < expected h"
    and "length hs * ((\<Sum>h \<leftarrow> hs. expected h) - (unat balance - unat (prev_hub_balance st))) \<le> fractional"
  shows "\<exists>hs'. length hs' = length hs
    \<and> (\<forall>i < length hs. \<exists>rate. hs' ! i = (hs ! i)\<lparr>statom_withdraw_rate := rate, released := True\<rparr>)
    \<and> unbond_histories s' = unbond_histories (store_released (last_processed_batch st + 1) hs' s)
    \<and> (\<Sum>h \<leftarrow> hs'. expected h) \<le> unat balance - unat (prev_hub_balance st)"
proof (rule process_withdraw_rate_run[OF assms(1-4)])
  fix hs0 rs p
  let ?T = "\<Sum>h \<leftarrow> hs. expected h" and ?R = "arrived balance (prev_hub_balance st)"
  assume run: "matured_run s time (last_processed_batch st + 1) hs0"
    and len0: "length rs = length hs0"
    and credit0: "\<And>j. j < length hs0 \<Longrightarrow> expected (release (hs0 ! j) (rs ! j))
      \<le> credit_for (expected (hs0 ! j)) (\<Sum>h \<leftarrow> hs0. expected h) ?R"
    and s': "s' = (if hs0 = [] then s else save_state (st\<lparr>last_processed_batch := p\<rparr>)
      (store_released (last_processed_batch st + 1) (map2 release hs0 rs) s))"
  have eq: "hs0 = hs" using matured_run_unique[OF assms(5) run] .
  note len = len0[unfolded eq] and credit = credit0[unfolded eq]
  have R: "?R = unat balance - unat (prev_hub_balance st)" and pos: "0 < ?R"
    using assms(6) by (auto simp: arrived_def word_less_nat_alt word_le_nat_alt)
  have "(\<Sum>h \<leftarrow> map2 release hs rs. expected h) \<le> ?R"
    by (rule released_sum[OF len credit pos assms(7)]) (use assms(8) R in simp_all)
  then have "(\<Sum>h \<leftarrow> map2 release hs rs. expected h) \<le> unat balance - unat (prev_hub_balance st)"
    by (simp only: R)
  moreover have "unbond_histories s'
      = unbond_histories (store_released (last_processed_batch st + 1) (map2 release hs rs) s)"
    by (simp add: s' eq save_state_def)
  ultimately show ?thesis using len
    by (intro exI[of _ "map2 release hs rs"]) (auto simp: release_def)
qed

lemma release_within_arrived_witness:
  "\<exists>hs'. length hs' = 1 \<and> (\<Sum>h \<leftarrow> hs'. expected h) \<le> 9
    \<and> unbond_histories (projr (process_withdraw_rate (sample_deps 9) 141 9 sample_hub))
      = unbond_histories (store_released 1 hs' sample_hub)"
proof -
  let ?run = "process_withdraw_rate (sample_deps 9) 141 9 sample_hub"
  have "isl ?run = False" by code_simp
  then obtain s' where run: "?run = Inr s'" by (cases ?run) auto
  have laws: "bignum_laws (numbers (sample_deps 9))" by (simp add: reference.bignum_laws_axioms)
  have st: "load_state sample_hub = Inr sample_state" by (simp add: load_state_def sample_hub_def)
  have wf: "kv_wf (unbond_histories sample_hub)" by (simp add: sample_hub_def kv_wf_def)
  have vals: "last_processed_batch sample_state + 1 = 1" "prev_hub_balance sample_state = 0"
    "expected sample_history = 10"
    by (simp_all add: sample_state_def sample_history_def expected_def decimal_one_def)
  have due: "matured_run sample_hub 141 (last_processed_batch sample_state + 1) [sample_history]"
    unfolding vals(1) by (rule sample_run) simp
  show ?thesis
    using release_within_arrived[OF laws run st wf due] vals run by auto
qed




end
