(* ===== verification/Hub_Requests.thy ===== *)
theory Hub_Requests
  imports Hub_Books
begin

text \<open>
  What an unbond request does, and what the queries then show: the request of a user is added
  to the current batch and can be read back; when an epoch has passed the batch is undelegated
  and recorded; the history is listed page by page in batch order.
\<close>

section \<open>Undelegation\<close>

definition undelegate_messages :: "string \<Rightarrow> (string \<times> u128) list \<Rightarrow> payload cosmos_msg list" where
  "undelegate_messages denom shares =
     map (\<lambda>(v, x). Undelegate v \<lparr>coin_denom = denom, coin_amount = x\<rparr>) shares"

definition undelegates_exactly ::
  "string \<Rightarrow> string set \<Rightarrow> nat \<Rightarrow> payload cosmos_msg list \<Rightarrow> bool" where
  "undelegates_exactly denom targets n ms \<longleftrightarrow>
     (\<exists>ps. ms = undelegate_messages denom ps \<and> total (map snd ps) = n
        \<and> (\<forall>(v, x) \<in> set ps. x \<noteq> 0 \<and> v \<in> targets))"

lemma undelegate_exactly:
  assumes "uint128_laws (numbers D)" and "undelegate D amount delegator s = Inr ms"
  obtains p ds where "load_parameters s = Inr p"
    and "query_all_delegations (querier D) delegator = Inr ds"
    and "undelegates_exactly (underlying_coin_denom p) (delegation_validator ` set ds) (unat amount) ms"
proof -
  obtain p ds vs xs shares where p: "load_parameters s = Inr p"
    and ds: "query_all_delegations (querier D) delegator = Inr ds"
    and vs: "vs = sort_by_delegated_desc (map (\<lambda>d.
        \<lparr>total_delegated = coin_amount (delegation_coin d),
         validator_address = delegation_validator d\<rparr>) ds)"
    and xs: "calculate_undelegations (numbers D) amount vs = Inr xs"
    and shares: "nonzero_shares vs 0 xs = Inr shares"
    and ms: "ms = undelegate_messages (underlying_coin_denom p) shares"
    using assms(2) by (auto simp: undelegate_def result_simps Let_def undelegate_messages_def)
  have "validator_address ` set vs = delegation_validator ` set ds"
    by (simp add: vs sort_by_delegated_desc_def image_image)
  moreover obtain ps where "nonzero_shares vs 0 xs = Inr ps" "total (map snd ps) = unat amount"
    "\<And>v x. (v, x) \<in> set ps \<Longrightarrow> x \<noteq> 0 \<and> v \<in> validator_address ` set vs"
    by (rule uint128_laws.undelegations_shares[OF assms(1) xs]) blast
  ultimately have "undelegates_exactly (underlying_coin_denom p) (delegation_validator ` set ds) (unat amount) ms"
    unfolding undelegates_exactly_def using ms shares by (intro exI[of _ ps]) fastforce
  with p ds show thesis by (rule that)
qed

section \<open>A user's requests\<close>

definition user_request :: "api_lib \<Rightarrow> hub_store \<Rightarrow> string \<Rightarrow> u64 \<Rightarrow> nat" where
  "user_request A s user i =
     (case kv_get (wait_list s) (user, batch_to_vec A i) of None \<Rightarrow> 0 | Some w \<Rightarrow> unat (wait_amount w))"

lemma request_recorded:
  assumes "uint128_laws (numbers D)" and "codec_laws (api D)"
    and "store_unbond_wait_list D i user amount s = Inr s2" and "kv_wf (wait_list s)"
  shows "user_request (api D) s2 u j
    = user_request (api D) s u j + (if u = user \<and> j = i then unat amount else 0)"
proof (rule store_wait_list_Inr[OF assms(1,3)])
  fix w
  assume "s2 = s\<lparr>wait_list := kv_set (user, batch_to_vec (api D) i) w (wait_list s)\<rparr>"
    and "unat (wait_amount w) = unat amount + (case kv_get (wait_list s) (user, batch_to_vec (api D) i) of
      None \<Rightarrow> 0 | Some w0 \<Rightarrow> unat (wait_amount w0))"
  then show ?thesis
    using assms(4) by (auto simp: user_request_def codec_laws.batch_to_vec_inject[OF assms(2)])
qed

lemma user_request_cong: "wait_list s' = wait_list s \<Longrightarrow> user_request A s' = user_request A s"
  by (simp add: fun_eq_iff user_request_def)

text \<open>What the storage holds after a request, without and with an undelegation.\<close>

definition batch_collects :: "current_batch \<Rightarrow> u128 \<Rightarrow> hub_store \<Rightarrow> bool" where
  "batch_collects b requested s' \<longleftrightarrow>
     current_batch_item s' = Some \<lparr>current_id = current_id b, requested_statom = requested\<rparr>"

definition batch_closes :: "env \<Rightarrow> current_batch \<Rightarrow> hub_state \<Rightarrow> u128 \<Rightarrow> u128 \<Rightarrow> hub_store \<Rightarrow> bool" where
  "batch_closes env b st requested amount s' \<longleftrightarrow>
     (\<exists>next_id st'. unat next_id = unat (current_id b) + 1
      \<and> current_batch_item s' = Some \<lparr>current_id = next_id, requested_statom = 0\<rparr>
      \<and> state_item s' = Some st' \<and> last_unbonded_time st' = block_seconds env
      \<and> statom_exchange_rate st' = statom_exchange_rate st
      \<and> unat (total_bond_statom_amount st) = unat amount + unat (total_bond_statom_amount st')
      \<and> history_at s' (current_id b) = Some \<lparr>batch_id = current_id b, history_time = block_seconds env,
          statom_amount = requested, statom_applied_exchange_rate = statom_exchange_rate st,
          statom_withdraw_rate = statom_exchange_rate st, released = False\<rparr>)"

lemma process_undelegations_closes:
  assumes "decimal_laws (numbers D)" and "kv_wf (unbond_histories s)"
    and "process_undelegations D env (b\<lparr>requested_statom := requested\<rparr>) st s = Inr (ms, b2, st2, s3)"
    and "load_parameters s = Inr p"
  obtains amount ds where
    "unat amount = unat requested * unat (atomics (statom_exchange_rate st)) div fractional"
    and "query_all_delegations (querier D) (contract_address env) = Inr ds"
    and "undelegates_exactly (underlying_coin_denom p) (delegation_validator ` set ds) (unat amount) ms"
    and "batch_closes env b st requested amount (save_state st2 (save_current_batch b2 s3))"
    and "wait_list s3 = wait_list s"
proof (rule process_undelegations_Inr[OF assms(3)])
  fix amount bonded next_id
  let ?b = "b\<lparr>requested_statom := requested\<rparr>"
  assume mul: "uint_mul_decimal (numbers D) (requested_statom ?b) (statom_exchange_rate st) = Inr amount"
    and und: "undelegate D amount (contract_address env) s = Inr ms"
    and sub: "uint_checked_sub (numbers D) (total_bond_statom_amount st) amount = Inr bonded"
    and new: "unat next_id = unat (current_id ?b) + 1"
      "b2 = \<lparr>current_id = next_id, requested_statom = 0\<rparr>"
      "st2 = st\<lparr>total_bond_statom_amount := bonded, last_unbonded_time := block_seconds env\<rparr>"
      "s3 = store_unbond_history (current_id ?b) \<lparr>batch_id = current_id ?b,
         history_time = block_seconds env, statom_amount = requested_statom ?b,
         statom_applied_exchange_rate = statom_exchange_rate st,
         statom_withdraw_rate = statom_exchange_rate st, released = False\<rparr> s"
  have laws: "uint128_laws (numbers D)" using assms(1) by (simp add: decimal_laws_def)
  obtain ds where ds: "query_all_delegations (querier D) (contract_address env) = Inr ds"
    "undelegates_exactly (underlying_coin_denom p) (delegation_validator ` set ds) (unat amount) ms"
    by (rule undelegate_exactly[OF laws und]) (use assms(4) in simp)
  have "unat amount = unat requested * unat (atomics (statom_exchange_rate st)) div fractional"
    using decimal_laws.mul_decimal_sound[OF assms(1) mul] by simp
  moreover have "batch_closes env b st requested amount (save_state st2 (save_current_batch b2 s3))"
    using new sub assms(2) uint128_laws.uint_checked_sub_Inr[OF laws]
    by (simp add: batch_closes_def history_at_def)
  ultimately show thesis using ds new(4) by (intro that) simp_all
qed

section \<open>Reading requests back\<close>

lemma unbond_requests_loop_eq:
  assumes "\<And>k w. (k, w) \<in> set items \<Longrightarrow> \<exists>i. batch_from_slice (api D) k = Inr i"
  shows "unbond_requests_loop D items acc
    = Inr (acc @ map (\<lambda>(k, w). (projr (batch_from_slice (api D) k), wait_amount w)) items)"
  using assms
proof (induction items arbitrary: acc)
  case (Cons e items)
  obtain k w where e: "e = (k, w)" by (cases e)
  obtain i where "batch_from_slice (api D) k = Inr i" using Cons.prems[of k w] e by auto
  moreover have "unbond_requests_loop D items (acc @ [(i, wait_amount w)]) = Inr ((acc @ [(i, wait_amount w)])
      @ map (\<lambda>(k, w). (projr (batch_from_slice (api D) k), wait_amount w)) items)" for i
    by (rule Cons.IH) (use Cons.prems in auto)
  ultimately show ?case by (simp add: e)
qed simp

lemma distinct_wait_bucket:
  assumes "kv_wf (wait_list s)"
  shows "distinct (map fst (wait_bucket s user))"
proof -
  have "distinct (map fst (filter (\<lambda>e. fst (fst e) = user) (wait_list s)))"
    using kv_wf_distinct[OF assms] by (simp add: distinct_map_filter)
  then have "distinct (map snd (map fst (filter (\<lambda>e. fst (fst e) = user) (wait_list s))))"
    by (simp add: distinct_map inj_on_def)
  then show ?thesis by (simp add: wait_bucket_def comp_def)
qed

section \<open>Pages of the history\<close>

lemma append_one_le_iff:
  "length xs = length ys \<Longrightarrow> xs @ [c] \<le> ys \<longleftrightarrow> xs < ys" for xs ys :: "'a::linorder list"
  by (induction xs ys rule: list_induct2) auto

lemma filter_above: "filter (\<lambda>n. a < n) [Suc 0..<m] = [Suc a..<m]"
  by (induction m) (auto simp: upt_Suc)

definition batch_key :: "nat \<Rightarrow> bytes" where
  "batch_key n = u64_be_bytes (word_of_nat n)"

lemma histories_in_order:
  assumes "kv_wf (unbond_histories s)" and "history_ok s b st"
  shows "map fst (unbond_histories s) = map batch_key [Suc 0..<unat (current_id b)]"
proof (rule strict_sorted_equal)
  let ?m = "unat (current_id b)"
  have bound: "n < 2 ^ 64" if "n < ?m" for n
    using that unsigned_less[where 'a = nat, of "current_id b"] by simp
  have exact: "unat (word_of_nat n :: u64) = n" if "n < ?m" for n
    using bound[OF that] by (simp add: unat_of_nat)
  show "sorted_wrt (<) (map fst (unbond_histories s))" using assms(1) by (simp add: kv_wf_def)
  show "sorted_wrt (<) (map batch_key [Suc 0..<?m])"
    using exact unfolding sorted_wrt_map batch_key_def u64_be_bytes_less_iff
    by (intro sorted_wrt_mono_rel[OF _ sorted_wrt_upt]) (auto simp: word_less_nat_alt)
  show "set (map fst (unbond_histories s)) = set (map batch_key [Suc 0..<?m])"
  proof (intro set_eqI iffI)
    fix k
    assume "k \<in> set (map fst (unbond_histories s))"
    then have "kv_get (unbond_histories s) k \<noteq> None"
      by (auto simp: kv_get_def map_of_eq_None_iff)
    then obtain i where "k = u64_be_bytes i" "0 < i" "i < current_id b"
      using assms(2) unfolding history_ok_def by blast
    then show "k \<in> set (map batch_key [Suc 0..<?m])"
      by (auto simp: batch_key_def word_less_nat_alt intro!: image_eqI[of _ _ "unat i"])
  next
    fix k
    assume "k \<in> set (map batch_key [Suc 0..<?m])"
    then obtain n where n: "k = u64_be_bytes (word_of_nat n)" "0 < n" "n < ?m"
      by (auto simp: batch_key_def)
    then have "0 < (word_of_nat n :: u64) \<and> (word_of_nat n :: u64) < current_id b"
      using exact by (simp add: word_less_nat_alt)
    then have "history_at s (word_of_nat n) \<noteq> None"
      using assms(2) unfolding history_ok_def by fastforce
    then show "k \<in> set (map fst (unbond_histories s))"
      using n(1) by (auto simp: history_at_def kv_get_def map_of_eq_None_iff)
  qed
qed

lemma page_filter:
  assumes "n < 2 ^ 64"
  shows "(case convert start of None \<Rightarrow> True | Some k \<Rightarrow> k \<le> batch_key n)
    \<longleftrightarrow> (case start of None \<Rightarrow> True | Some i \<Rightarrow> unat i < n)"
  using assms
  by (cases start) (simp_all add: convert_def batch_key_def append_one_le_iff u64_be_bytes_less_iff
      word_less_nat_alt unat_of_nat)

text \<open>The page: numbers from the one after \<open>start\<close>, at most \<open>limit\<close> (10 if absent, 100 at most).\<close>

definition page_spec :: "nat \<Rightarrow> u64 option \<Rightarrow> u32 option \<Rightarrow> nat list" where
  "page_spec m start limit =
     take (min (case limit of None \<Rightarrow> 10 | Some l \<Rightarrow> unat l) 100)
       [Suc (case start of None \<Rightarrow> 0 | Some i \<Rightarrow> unat i)..<m]"

lemma limit_value:
  "unat (min (case limit of None \<Rightarrow> default_limit | Some l \<Rightarrow> l) max_limit)
    = min (case limit of None \<Rightarrow> 10 | Some l \<Rightarrow> unat l) 100"
  by (cases limit) (auto simp: default_limit_def max_limit_def min_def word_le_nat_alt)

lemma map_fst_filter: "map fst (filter (\<lambda>e. P (fst e)) xs) = filter P (map fst xs)"
  by (induction xs) auto

lemma history_page:
  assumes "kv_wf (unbond_histories s)" and "history_ok s b st"
  shows "map (\<lambda>h. unat (batch_id h)) (all_unbond_history s start limit)
      = page_spec (unat (current_id b)) start limit"
    and "h \<in> set (all_unbond_history s start limit) \<Longrightarrow> history_at s (batch_id h) = Some h"
proof -
  let ?m = "unat (current_id b)"
  let ?P = "\<lambda>k. case convert start of None \<Rightarrow> True | Some k' \<Rightarrow> k' \<le> k"
  have entry: "0 < i \<and> k = u64_be_bytes i \<and> batch_id h = i \<and> history_at s i = Some h"
    if "(k, h) \<in> set (unbond_histories s)" "i = batch_id h" for k h i
  proof -
    have get: "kv_get (unbond_histories s) k = Some h"
      using that(1) kv.entries_iff[OF assms(1)] by simp
    then obtain j where j: "k = u64_be_bytes j" "0 < j" "j < current_id b"
      using assms(2) unfolding history_ok_def by blast
    then have "history_at s j = Some h" using get by (simp add: history_at_def)
    moreover from this have "batch_id h = j"
      using assms(2) j unfolding history_ok_def by fastforce
    ultimately show ?thesis using that(2) j by simp
  qed
  define page where "page = filter (\<lambda>e. ?P (fst e)) (unbond_histories s)"
  have page: "all_unbond_history s start limit
      = take (min (case limit of None \<Rightarrow> 10 | Some l \<Rightarrow> unat l) 100) (map snd page)"
    by (simp add: all_unbond_history_def Let_def limit_value page_def)
  have sub: "set page \<subseteq> set (unbond_histories s)" by (auto simp: page_def)
  have "map fst page = filter ?P (map batch_key [Suc 0..<?m])"
    using map_fst_filter[of ?P "unbond_histories s"] histories_in_order[OF assms]
    by (simp add: page_def)
  also have "\<dots> = map batch_key (filter (\<lambda>n. ?P (batch_key n)) [Suc 0..<?m])"
    by (simp add: filter_map comp_def)
  also have "filter (\<lambda>n. ?P (batch_key n)) [Suc 0..<?m]
      = filter (\<lambda>n. (case start of None \<Rightarrow> 0 | Some i \<Rightarrow> unat i) < n) [Suc 0..<?m]"
  proof (rule filter_cong[OF refl])
    fix n
    assume "n \<in> set [Suc 0..<?m]"
    then have "0 < n" "n < 2 ^ 64" using unsigned_less[where 'a = nat, of "current_id b"] by auto
    then show "?P (batch_key n) = ((case start of None \<Rightarrow> 0 | Some i \<Rightarrow> unat i) < n)"
      using page_filter[of n start] by (simp split: option.splits)
  qed
  finally have keys: "map fst page
      = map batch_key [Suc (case start of None \<Rightarrow> 0 | Some i \<Rightarrow> unat i)..<?m]"
    by (simp only: filter_above)
  have "map (\<lambda>e. unat (batch_id (snd e))) page = map be_value (map fst page)"
  proof -
    have "unat (batch_id (snd e)) = be_value (fst e)" if "e \<in> set page" for e
    proof -
      have "(fst e, snd e) \<in> set (unbond_histories s)" using that sub by auto
      from entry[OF this refl] show ?thesis by (simp add: be_value_u64)
    qed
    then show ?thesis by simp
  qed
  also have "\<dots> = map (\<lambda>n. n) [Suc (case start of None \<Rightarrow> 0 | Some i \<Rightarrow> unat i)..<?m]"
    unfolding keys map_map
  proof (rule map_cong[OF refl])
    fix n
    assume "n \<in> set [Suc (case start of None \<Rightarrow> 0 | Some i \<Rightarrow> unat i)..<?m]"
    then have "n < 2 ^ 64" using unsigned_less[where 'a = nat, of "current_id b"] by auto
    then show "(be_value \<circ> batch_key) n = n" by (simp add: batch_key_def be_value_u64 unat_of_nat)
  qed
  finally show "map (\<lambda>h. unat (batch_id h)) (all_unbond_history s start limit) = page_spec ?m start limit"
    by (simp add: page page_spec_def take_map[symmetric] comp_def)
  assume "h \<in> set (all_unbond_history s start limit)"
  then obtain k where "(k, h) \<in> set page" unfolding page by (auto dest!: in_set_takeD)
  then show "history_at s (batch_id h) = Some h" using entry sub by blast
qed

section \<open>Properties\<close>

lemma unbond_request_correct_facts:
  assumes "hub_reachable L A s" and "bignum_laws L" and "codec_laws A"
    and "numbers D = L" and "api D = A"
    and "hub_execute D env info (Receive m) s = Inr (r, s')"
  shows "\<exists>p c token b st requested passed ms.
      load_parameters s = Inr p \<and> load_config s = Inr c \<and> statom_token_contract c = Some token
    \<and> addr_validate A (info_sender info) = Inr token
    \<and> load_current_batch s = Inr b \<and> slashing D env s = Inr (st, save_state st s)
    \<and> unat requested = unat (requested_statom b) + unat (cw20_amount m)
    \<and> unat (block_seconds env) = unat (last_unbonded_time st) + unat passed
    \<and> messages r = ms @ [WasmExecute token (TokenMsg (Burn (cw20_amount m))) []]
    \<and> (\<forall>u i. user_request A s' u i = user_request A s u i
          + (if u = cw20_sender m \<and> i = current_id b then unat (cw20_amount m) else 0))
    \<and> (if passed \<le> epoch_period p then ms = [] \<and> batch_collects b requested s'
       else (\<exists>amount ds. unat amount
            = unat requested * unat (atomics (statom_exchange_rate st)) div fractional
          \<and> query_all_delegations (querier D) (contract_address env) = Inr ds
          \<and> undelegates_exactly (underlying_coin_denom p) (delegation_validator ` set ds) (unat amount) ms
          \<and> batch_closes env b st requested amount s'))"
proof -
  have dec: "decimal_laws (numbers D)" and laws: "uint128_laws (numbers D)" and codec: "codec_laws (api D)"
    and inv: "hub_inv (api D) s"
    using assms(2-5) reachable_inv[OF assms(1-3)] by (simp_all add: bignum_laws_def decimal_laws_def)
  obtain c token where c: "load_config s = Inr c" "statom_token_contract c = Some token"
    "addr_validate (api D) (info_sender info) = Inr token"
    and run: "execute_unbond_statom D env (cw20_amount m) (cw20_sender m) s = Inr (r, s')"
    using assms(6) by (auto simp: hub_execute_def elim: receive_Inr)
  show ?thesis
  proof (rule execute_unbond_Inr[OF run])
    fix p b st requested s2 passed ms b2 st2 s3 config token'
    assume p: "load_parameters s = Inr p" and b: "load_current_batch s = Inr b"
      and slash: "slashing D env s = Inr (st, save_state st s)"
      and req: "uint_add (numbers D) (requested_statom b) (cw20_amount m) = Inr requested"
      and wl: "store_unbond_wait_list D (current_id b) (cw20_sender m) (cw20_amount m) (save_state st s) = Inr s2"
      and passed: "unat (block_seconds env) = unat (last_unbonded_time st) + unat passed"
      and x: "(if passed > epoch_period p
        then process_undelegations D env (b\<lparr>requested_statom := requested\<rparr>) st s2
        else Inr ([], b\<lparr>requested_statom := requested\<rparr>, st, s2)) = Inr (ms, b2, st2, s3)"
      and s': "s' = save_state st2 (save_current_batch b2 s3)"
      and config: "load_config s' = Inr config" "statom_token_contract config = Some token'"
      and ms: "messages r = ms @ [WasmExecute token' (TokenMsg (Burn (cw20_amount m))) []]"
    have wf: "kv_wf (wait_list (save_state st s))" "kv_wf (unbond_histories s)"
      using inv by (auto simp: hub_inv_def books_ok_def)
    obtain w where s2: "s2 = save_state st s\<lparr>wait_list := w\<rparr>"
      by (rule store_wait_list_Inr[OF laws wl]) blast
    have p2: "load_parameters s2 = Inr p" using p by (simp add: s2 load_parameters_def)
    have requests: "user_request A s2 u i = user_request A s u i
        + (if u = cw20_sender m \<and> i = current_id b then unat (cw20_amount m) else 0)" for u i
      using request_recorded[OF laws codec wl wf(1), of u i] user_request_cong[of "save_state st s" s A]
        assms(5) by simp
    have rest: "wait_list s3 = wait_list s2 \<and> config_item s3 = config_item s2
      \<and> (if passed \<le> epoch_period p then ms = [] \<and> batch_collects b requested s'
       else (\<exists>amount ds. unat amount
            = unat requested * unat (atomics (statom_exchange_rate st)) div fractional
          \<and> query_all_delegations (querier D) (contract_address env) = Inr ds
          \<and> undelegates_exactly (underlying_coin_denom p) (delegation_validator ` set ds) (unat amount) ms
          \<and> batch_closes env b st requested amount s'))"
    proof (cases "passed \<le> epoch_period p")
      case True
      then show ?thesis using x by (auto simp: s' batch_collects_def not_less[symmetric])
    next
      case False
      then have und: "process_undelegations D env (b\<lparr>requested_statom := requested\<rparr>) st s2
          = Inr (ms, b2, st2, s3)" using x by (simp add: not_le)
      have wf2: "kv_wf (unbond_histories s2)" using wf(2) by (simp add: s2)
      have "config_item s3 = config_item s2" by (rule process_undelegations_Inr[OF und]) simp
      moreover note process_undelegations_closes[OF dec wf2 und p2, folded s']
      ultimately show ?thesis using False by metis
    qed
    have token: "token' = token"
      using config c rest by (simp add: s' s2 load_config_def result_simps)
    have same: "user_request A s' = user_request A s2"
      using rest by (intro user_request_cong) (simp add: s')
    show ?thesis
    proof (intro exI conjI)
      show "load_parameters s = Inr p" and "load_config s = Inr c" and "load_current_batch s = Inr b"
        and "slashing D env s = Inr (st, save_state st s)" and "statom_token_contract c = Some token"
        and "unat (block_seconds env) = unat (last_unbonded_time st) + unat passed"
        by fact+
      show "addr_validate A (info_sender info) = Inr token" using c(3) assms(5) by simp
      show "unat requested = unat (requested_statom b) + unat (cw20_amount m)"
        using req by (simp add: uint128_laws.uint_add_Inr[OF laws])
      show "messages r = ms @ [WasmExecute token (TokenMsg (Burn (cw20_amount m))) []]"
        using ms token by simp
      show "\<forall>u i. user_request A s' u i = user_request A s u i
          + (if u = cw20_sender m \<and> i = current_id b then unat (cw20_amount m) else 0)"
        using requests same by simp
    qed (use rest in blast)
  qed
qed

text \<open>
  C6: An accepted request to unbond: it comes through the registered token contract; the user's
  request in the current batch grows by the amount and no other request changes; the tokens are
  ordered burnt. Until an epoch has passed the batch only collects; after that it is closed: its
  whole request, at the exchange rate of the slashing check and rounded down, is undelegated in
  non-zero parts from validators the hub delegates to and leaves the bonded amount, its history
  is recorded, and the next batch starts empty.
\<close>

theorem unbond_request_correct:
  assumes "hub_reachable L A s" and "bignum_laws L" and "codec_laws A"
    and "numbers D = L" and "api D = A"
    and "hub_execute D env info (Receive m) s = Inr (r, s')"
  shows "\<exists>p c token b st requested passed ms.
      load_parameters s = Inr p \<and> load_config s = Inr c \<and> statom_token_contract c = Some token
    \<and> addr_validate A (info_sender info) = Inr token
    \<and> load_current_batch s = Inr b \<and> slashing D env s = Inr (st, save_state st s)
    \<and> unat requested = unat (requested_statom b) + unat (cw20_amount m)
    \<and> unat (block_seconds env) = unat (last_unbonded_time st) + unat passed
    \<and> messages r = ms @ [WasmExecute token (TokenMsg (Burn (cw20_amount m))) []]
    \<and> (\<forall>u i. user_request A s' u i = user_request A s u i
          + (if u = cw20_sender m \<and> i = current_id b then unat (cw20_amount m) else 0))
    \<and> (if passed \<le> epoch_period p then ms = [] \<and> batch_collects b requested s'
       else (\<exists>amount ds. unat amount
            = unat requested * unat (atomics (statom_exchange_rate st)) div fractional
          \<and> query_all_delegations (querier D) (contract_address env) = Inr ds
          \<and> undelegates_exactly (underlying_coin_denom p) (delegation_validator ` set ds) (unat amount) ms
          \<and> batch_closes env b st requested amount s'))"
  using assms by (rule unbond_request_correct_facts)

lemma unbond_request_correct_witness:
  "user_request reference_api (snd (projr (hub_execute (sample_deps 0) (at_time 171) (call_from ''tok'' [])
    (Receive \<lparr>cw20_sender = ''bob'', cw20_amount = 3, cw20_msg = [1]\<rparr>) sample_hub))) ''bob'' 2 = 3"
proof -
  let ?m = "\<lparr>cw20_sender = ''bob'', cw20_amount = 3, cw20_msg = [1]\<rparr>"
  let ?run = "hub_execute (sample_deps 0) (at_time 171) (call_from ''tok'' []) (Receive ?m) sample_hub"
  have "isl ?run = False" by code_simp
  then obtain r s' where run: "?run = Inr (r, s')" by (cases ?run) auto
  have b: "load_current_batch sample_hub = Inr \<lparr>current_id = 2, requested_statom = 5\<rparr>"
    by (simp add: load_current_batch_def sample_hub_def)
  have before: "user_request reference_api sample_hub ''bob'' 2 = 0" by code_simp
  have "user_request reference_api s' ''bob'' 2 = user_request reference_api sample_hub ''bob'' 2 + 3"
    using unbond_request_correct[OF sample_hub_reachable reference.bignum_laws_axioms
        reference_codec.codec_laws_axioms _ _ run] b
    by auto
  with before run show ?thesis by simp
qed

text \<open>
  C33: Round trip of a request: in every reachable state the query of a user's requests answers,
  and lists each batch for which the user has a stored request exactly once, with its amount.
\<close>

theorem requests_read_back:
  assumes "hub_reachable L A s" and "bignum_laws L" and "codec_laws A" and "api D = A"
  shows "\<exists>rs. hub_query D env (QueryUnbondRequests user) s = Inr (UnbondRequestsAnswer
        \<lparr>response_address = user, response_requests = rs\<rparr>)
    \<and> distinct (map fst rs)
    \<and> (\<forall>i n. (i, n) \<in> set rs \<longleftrightarrow>
        (\<exists>w. kv_get (wait_list s) (user, batch_to_vec A i) = Some w \<and> wait_amount w = n))"
proof -
  have inv: "hub_inv A s" by (rule reachable_inv[OF assms(1-3)])
  then have wf: "kv_wf (wait_list s)" by (auto simp: hub_inv_def books_ok_def)
  let ?rs = "map (\<lambda>(k, w). (projr (batch_from_slice A k), wait_amount w)) (wait_bucket s user)"
  have key: "\<exists>i. k = batch_to_vec A i" if "(k, w) \<in> set (wait_bucket s user)" for k w
  proof -
    have "((user, k), w) \<in> set (wait_list s)" using that by (simp add: set_wait_bucket)
    then show ?thesis using hub_inv_batch_keys[OF inv] unfolding batch_keys_def by (metis fst_conv snd_conv)
  qed
  have answer: "get_unbond_requests D user s = Inr ?rs"
    using unbond_requests_loop_eq[of "wait_bucket s user" D "[]"] key
      codec_laws.batch_roundtrip[OF assms(3)]
    unfolding get_unbond_requests_def assms(4) by fastforce
  have "inj_on (\<lambda>k. projr (batch_from_slice A k)) (set (map fst (wait_bucket s user)))"
  proof (rule inj_on_inverseI[of _ "batch_to_vec A"])
    fix k
    assume "k \<in> set (map fst (wait_bucket s user))"
    then obtain w where "(k, w) \<in> set (wait_bucket s user)" by auto
    from key[OF this] show "batch_to_vec A (projr (batch_from_slice A k)) = k"
      using codec_laws.batch_roundtrip[OF assms(3)] by auto
  qed
  then have "distinct (map (\<lambda>k. projr (batch_from_slice A k)) (map fst (wait_bucket s user)))"
    using distinct_wait_bucket[OF wf, of user] by (simp only: distinct_map)
  then have "distinct (map fst ?rs)" by (simp add: comp_def case_prod_beta)
  moreover have "(i, n) \<in> set ?rs \<longleftrightarrow>
      (\<exists>w. kv_get (wait_list s) (user, batch_to_vec A i) = Some w \<and> wait_amount w = n)" for i n
  proof -
    have "(i, n) \<in> set ?rs \<longleftrightarrow> (\<exists>w. (batch_to_vec A i, w) \<in> set (wait_bucket s user) \<and> wait_amount w = n)"
    proof
      assume "(i, n) \<in> set ?rs"
      then obtain k w where kw: "(k, w) \<in> set (wait_bucket s user)"
        "i = projr (batch_from_slice A k)" "n = wait_amount w" by auto
      obtain j where "k = batch_to_vec A j" using key[OF kw(1)] by blast
      then show "\<exists>w. (batch_to_vec A i, w) \<in> set (wait_bucket s user) \<and> wait_amount w = n"
        using kw codec_laws.batch_roundtrip[OF assms(3), of j] by auto
    next
      assume "\<exists>w. (batch_to_vec A i, w) \<in> set (wait_bucket s user) \<and> wait_amount w = n"
      then obtain w where "(batch_to_vec A i, w) \<in> set (wait_bucket s user)" "wait_amount w = n" by blast
      then show "(i, n) \<in> set ?rs"
        using codec_laws.batch_roundtrip[OF assms(3), of i]
        unfolding set_map by (intro image_eqI[of _ _ "(batch_to_vec A i, w)"]) simp_all
    qed
    then show ?thesis using kv.entries_iff[OF wf] by (simp add: set_wait_bucket)
  qed
  ultimately show ?thesis
    by (intro exI[of _ ?rs]) (simp add: hub_query_def query_unbond_requests_def answer)
qed

lemma requests_read_back_witness:
  "\<exists>rs. hub_query (sample_deps 0) (at_time 150) (QueryUnbondRequests ''bob'') sample_hub
      = Inr (UnbondRequestsAnswer \<lparr>response_address = ''bob'', response_requests = rs\<rparr>) \<and> (1, 10) \<in> set rs"
proof -
  have w: "kv_get (wait_list sample_hub) (''bob'', batch_to_vec reference_api 1) = Some \<lparr>wait_amount = 10\<rparr>"
    by code_simp
  show ?thesis
    using requests_read_back[OF sample_hub_reachable reference.bignum_laws_axioms
        reference_codec.codec_laws_axioms, of "sample_deps 0" "at_time 150" "''bob''"] w
    by auto
qed

text \<open>
  C35: The history is listed in pages: an answer holds the recorded histories with the consecutive
  numbers that follow \<open>start\<close> (from 1 when it is absent), in ascending order, as many as asked for
  (10 by default) but at most 100 and only existing ones.
\<close>

theorem history_pages_correct:
  assumes "hub_reachable L A s" and "bignum_laws L" and "codec_laws A"
  shows "\<exists>hs b. hub_query D env (QueryAllHistory start limit) s = Inr (AllHistoryAnswer hs)
    \<and> current_batch_item s = Some b
    \<and> map (\<lambda>h. unat (response_batch_id h)) hs = page_spec (unat (current_id b)) start limit
    \<and> length hs \<le> 100
    \<and> (\<forall>x \<in> set hs. \<exists>h. history_at s (response_batch_id x) = Some h \<and> x = history_response h)"
proof -
  obtain b st where b: "current_batch_item s = Some b" and "books_ok A s b st"
    using reachable_inv[OF assms] by (auto simp: hub_inv_def)
  then have wf: "kv_wf (unbond_histories s)" and ok: "history_ok s b st" by (simp_all add: books_ok_def)
  let ?hs = "all_unbond_history s start limit"
  have "hub_query D env (QueryAllHistory start limit) s = Inr (AllHistoryAnswer (map history_response ?hs))"
    by (simp add: hub_query_def query_unbond_requests_limitation_def)
  moreover have "length ?hs \<le> 100"
    using arg_cong[OF history_page(1)[OF wf ok, of start limit], of length] by (simp add: page_spec_def)
  moreover have "response_batch_id (history_response h) = batch_id h" for h
    by (simp add: history_response_def)
  ultimately show ?thesis
    using b history_page[OF wf ok]
    by (intro exI[of _ "map history_response ?hs"] exI[of _ b]) (simp add: comp_def)
qed

lemma history_pages_correct_witness:
  "\<exists>hs. hub_query (sample_deps 0) (at_time 150) (QueryAllHistory None (Some 5)) sample_hub
      = Inr (AllHistoryAnswer hs) \<and> map (\<lambda>h. unat (response_batch_id h)) hs = [1]"
proof -
  have "current_batch_item sample_hub = Some \<lparr>current_id = 2, requested_statom = 5\<rparr>"
    by (simp add: sample_hub_def)
  moreover have "page_spec 2 None (Some 5) = [1]" by (simp add: page_spec_def upt_rec)
  ultimately show ?thesis
    using history_pages_correct[OF sample_hub_reachable reference.bignum_laws_axioms
        reference_codec.codec_laws_axioms, of "sample_deps 0" "at_time 150" None "Some 5"]
    by auto
qed

end
