(* ===== verification/Registry.thy ===== *)
theory Registry
  imports Registry_Common
begin

text \<open>
  The validators registry contract (\<^verbatim>\<open>lido_cosmos_validators_registry/src/contract.rs\<close>,
  \<^verbatim>\<open>registry.rs\<close>, \<^verbatim>\<open>msg.rs\<close>): the whitelist of validators, kept under their addresses, its
  owner's operations, and the query that tells the hub where to delegate.
\<close>

section \<open>State\<close>

record registry_config =
  registry_owner :: addr
  registry_hub :: addr

record registry_store =
  registry_config :: "registry_config option"
  registry_validators :: "(string \<times> validator) list"

record registry_instantiate_msg =
  init_registry :: "validator list"
  init_hub_contract :: string

datatype registry_query_msg = GetValidatorsForDelegation | GetRegistryConfig

datatype registry_answer =
    ValidatorsAnswer "validator_response list"
  | RegistryConfigAnswer registry_config

definition empty_registry :: registry_store where
  "empty_registry = \<lparr>registry_config = None, registry_validators = []\<rparr>"

definition load_registry_config :: "registry_store \<Rightarrow> registry_config result" where
  "load_registry_config s = ok_or (registry_config s) (StdErr NotFound)"

section \<open>Operations\<close>

definition save_validator :: "validator \<Rightarrow> registry_store \<Rightarrow> registry_store" where
  "save_validator v s =
     s\<lparr>registry_validators := kv_set (registered_address v) v (registry_validators s)\<rparr>"

definition registry_instantiate ::
  "deps \<Rightarrow> message_info \<Rightarrow> registry_instantiate_msg \<Rightarrow> registry_store
    \<Rightarrow> (payload response \<times> registry_store) result" where
  "registry_instantiate D info msg s =
     and_then (addr_validate (api D) (init_hub_contract msg)) (\<lambda>hub.
     let s1 = s\<lparr>registry_config := Some \<lparr>registry_owner = info_sender info, registry_hub = hub\<rparr>\<rparr> in
     Inr (new_response, fold save_validator (init_registry msg) s1))"

definition registry_update_config ::
  "deps \<Rightarrow> message_info \<Rightarrow> string option \<Rightarrow> string option \<Rightarrow> registry_store
    \<Rightarrow> (payload response \<times> registry_store) result" where
  "registry_update_config D info owner hub_contract s =
     and_then (load_registry_config s) (\<lambda>config.
     if info_sender info \<noteq> registry_owner config then generic_err ''unauthorized''
     else
       and_then (case owner of
           None \<Rightarrow> Inr s
         | Some addr_o \<Rightarrow>
             and_then (addr_validate (api D) addr_o) (\<lambda>owner_raw.
             and_then (load_registry_config s) (\<lambda>last_config.
             Inr (s\<lparr>registry_config := Some (last_config\<lparr>registry_owner := owner_raw\<rparr>)\<rparr>)))) (\<lambda>s1.
       and_then (case hub_contract of
           None \<Rightarrow> Inr s1
         | Some hub \<Rightarrow>
             and_then (addr_validate (api D) hub) (\<lambda>hub_raw.
             and_then (load_registry_config s1) (\<lambda>last_config.
             Inr (s1\<lparr>registry_config := Some (last_config\<lparr>registry_hub := hub_raw\<rparr>)\<rparr>)))) (\<lambda>s2.
       Inr (new_response, s2))))"

definition add_validator ::
  "message_info \<Rightarrow> validator \<Rightarrow> registry_store \<Rightarrow> (payload response \<times> registry_store) result" where
  "add_validator info v s =
     and_then (load_registry_config s) (\<lambda>config.
     if \<not> (info_sender info = registry_owner config \<or> info_sender info = registry_hub config)
     then generic_err ''unauthorized''
     else Inr (new_response, save_validator v s))"

text \<open>
  The hub's delegations as a hash map (a later entry for a validator replaces an earlier one),
  and the registered validators in key order, each with what is delegated to it or zero.
\<close>

definition delegations_map :: "delegation list \<Rightarrow> (string \<rightharpoonup> u128)" where
  "delegations_map ds =
     foldl (\<lambda>m d. m(delegation_validator d \<mapsto> coin_amount (delegation_coin d))) Map.empty ds"

definition query_validators :: "deps \<Rightarrow> registry_store \<Rightarrow> validator_response list result" where
  "query_validators D s =
     and_then (load_registry_config s) (\<lambda>config.
     and_then (query_all_delegations (querier D) (registry_hub config)) (\<lambda>ds.
     let delegations = delegations_map ds in
     Inr (map (\<lambda>item. \<lparr>total_delegated =
                          (case delegations (registered_address (snd item)) of
                             None \<Rightarrow> 0 | Some amount \<Rightarrow> amount),
                        validator_address = registered_address (snd item)\<rparr>)
            (registry_validators s))))"

definition sort_by_delegated :: "validator_response list \<Rightarrow> validator_response list" where
  "sort_by_delegated vs = sort_key total_delegated vs"

text \<open>
  The messages of a removal: none when the chain has no delegation to the validator (or the
  query fails), none when part of it cannot be redelegated now; otherwise the hub is told to
  redelegate everything, spread over the remaining validators, and to dispatch rewards.
\<close>

definition removal_messages ::
  "deps \<Rightarrow> addr \<Rightarrow> string \<Rightarrow> validator_response list \<Rightarrow> payload cosmos_msg list result" where
  "removal_messages D hub_address removed validators =
     (case query_delegation (querier D) hub_address removed of
        Inl (StdErr e) \<Rightarrow> Inr []
      | Inl f \<Rightarrow> Inl f
      | Inr None \<Rightarrow> Inr []
      | Inr (Some d) \<Rightarrow>
          if coin_amount (full_can_redelegate d) < coin_amount (full_amount d) then Inr []
          else
            and_then (calculate_delegations (numbers D) (coin_amount (full_amount d)) validators)
              (\<lambda>delegations.
            and_then (nonzero_shares validators 0 delegations) (\<lambda>shares.
            let redelegations = map (\<lambda>(v, x).
                  (v, \<lparr>coin_denom = coin_denom (full_amount d), coin_amount = x\<rparr>)) shares in
            Inr [WasmExecute hub_address (HubMsg (RedelegateProxy removed redelegations)) [],
                 WasmExecute hub_address (HubMsg DispatchRewards) []])))"

definition remove_validator ::
  "deps \<Rightarrow> message_info \<Rightarrow> string \<Rightarrow> registry_store \<Rightarrow> (payload response \<times> registry_store) result"
  where
  "remove_validator D info removed s =
     and_then (load_registry_config s) (\<lambda>config.
     if info_sender info \<noteq> registry_owner config then generic_err ''unauthorized''
     else
       let s1 = s\<lparr>registry_validators := kv_remove removed (registry_validators s)\<rparr> in
       and_then (query_validators D s1) (\<lambda>validators.
       if validators = [] then generic_err ''Cannot remove the last validator in the registry''
       else
         and_then (removal_messages D (registry_hub config) removed (sort_by_delegated validators))
           (\<lambda>ms. Inr (add_messages ms new_response, s1))))"

definition registry_execute ::
  "deps \<Rightarrow> env \<Rightarrow> message_info \<Rightarrow> registry_execute_msg \<Rightarrow> registry_store
    \<Rightarrow> (payload response \<times> registry_store) result" where
  "registry_execute D env info msg s =
     (case msg of
        AddValidator v \<Rightarrow> add_validator info v s
      | RemoveValidator removed \<Rightarrow> remove_validator D info removed s
      | RegistryUpdateConfig owner hub_contract \<Rightarrow>
          registry_update_config D info owner hub_contract s)"

definition registry_query :: "deps \<Rightarrow> registry_query_msg \<Rightarrow> registry_store \<Rightarrow> registry_answer result" where
  "registry_query D q s =
     (case q of
        GetValidatorsForDelegation \<Rightarrow>
          and_then (query_validators D s) (\<lambda>vs. Inr (ValidatorsAnswer (sort_by_delegated vs)))
      | GetRegistryConfig \<Rightarrow>
          and_then (load_registry_config s) (\<lambda>c. Inr (RegistryConfigAnswer c)))"

definition registry_migrate :: "registry_store \<Rightarrow> (payload response \<times> registry_store) result" where
  "registry_migrate s = Inr (new_response, s)"

section \<open>Well-formedness\<close>

text \<open>Once instantiated, there is a configuration and every validator is stored under its own address.\<close>

definition registry_wf :: "registry_store \<Rightarrow> bool" where
  "registry_wf s \<longleftrightarrow> registry_config s \<noteq> None \<and> kv_wf (registry_validators s)
    \<and> (\<forall>e \<in> set (registry_validators s). fst e = registered_address (snd e))"

abbreviation registered :: "registry_store \<Rightarrow> string set" where
  "registered s \<equiv> fst ` set (registry_validators s)"

lemma save_validator_registered: "registered (save_validator v s) = insert (registered_address v) (registered s)"
  by (simp add: save_validator_def set_kv_set)

lemma save_validator_nonempty [simp]: "registry_validators (save_validator v s) \<noteq> []"
  using save_validator_registered[of v s] by auto

lemma save_validator_config [simp]: "registry_config (save_validator v s) = registry_config s"
  by (simp add: save_validator_def)

lemma save_validator_wf: "registry_wf s \<Longrightarrow> registry_wf (save_validator v s)"
  using set_kv_set_subset[of "registered_address v" v "registry_validators s"]
  by (auto simp: registry_wf_def save_validator_def)

lemma fold_save_validator:
  "registry_wf s \<Longrightarrow> registry_wf (fold save_validator vs s)
    \<and> registered (fold save_validator vs s) = registered s \<union> registered_address ` set vs"
proof (induction vs arbitrary: s)
  case (Cons v vs)
  then show ?case using Cons.IH[OF save_validator_wf[OF Cons.prems, of v]]
    by (auto simp: save_validator_registered)
qed simp

lemma remove_wf:
  "registry_wf s \<Longrightarrow> registry_wf (s\<lparr>registry_validators := kv_remove k (registry_validators s)\<rparr>)"
  by (auto simp: registry_wf_def kv_remove_def[of k] kv_wf_remove[unfolded kv_remove_def])

lemma query_validators_addresses:
  assumes "query_validators D s = Inr vs" and "registry_wf s"
  shows "map validator_address vs = map fst (registry_validators s)"
  using assms by (auto simp: query_validators_def result_simps Let_def registry_wf_def)

lemma query_validators_amount:
  assumes "query_validators D s = Inr vs" and "v \<in> set vs"
  obtains c ds where "registry_config s = Some c"
    and "query_all_delegations (querier D) (registry_hub c) = Inr ds"
    and "total_delegated v = (case delegations_map ds (validator_address v) of
      None \<Rightarrow> 0 | Some amount \<Rightarrow> amount)"
  using assms
  by (auto simp: query_validators_def result_simps Let_def load_registry_config_def)

lemma sort_by_delegated_set [simp]: "set (sort_by_delegated vs) = set vs"
  by (simp add: sort_by_delegated_def)

lemma sort_by_delegated_Nil [simp]: "sort_by_delegated vs = [] \<longleftrightarrow> vs = []"
  by (metis set_empty sort_by_delegated_set)

section \<open>Runs\<close>

inductive registry_reachable :: "registry_store \<Rightarrow> bool" where
  start: "registry_instantiate D info msg empty_registry = Inr (r, s) \<Longrightarrow> registry_reachable s"
| step: "registry_reachable s \<Longrightarrow> registry_execute D env info msg s = Inr (r, s') \<Longrightarrow>
    registry_reachable s'"

lemma registry_instantiate_wf:
  assumes "registry_instantiate D info msg empty_registry = Inr (r, s)"
  shows "registry_wf s \<and> registered s = registered_address ` set (init_registry msg)"
proof -
  obtain hub where s: "s = fold save_validator (init_registry msg)
      (empty_registry\<lparr>registry_config := Some \<lparr>registry_owner = info_sender info, registry_hub = hub\<rparr>\<rparr>)"
    using assms by (auto simp: registry_instantiate_def result_simps Let_def)
  have "registry_wf (empty_registry\<lparr>registry_config :=
      Some \<lparr>registry_owner = info_sender info, registry_hub = hub\<rparr>\<rparr>)"
    by (simp add: registry_wf_def empty_registry_def)
  from fold_save_validator[OF this, of "init_registry msg"] show ?thesis
    by (simp add: s empty_registry_def)
qed

lemma registry_update_config_store:
  assumes "registry_update_config D info owner hub s = Inr (r, s')"
  shows "registry_validators s' = registry_validators s" and "registry_config s' \<noteq> None"
  using assms
  by (auto simp: registry_update_config_def load_registry_config_def result_simps
      split: option.splits if_splits)

lemma remove_validator_store:
  assumes "remove_validator D info removed s = Inr (r, s')"
  shows "s' = s\<lparr>registry_validators := kv_remove removed (registry_validators s)\<rparr>"
    and "\<exists>c. registry_config s = Some c \<and> info_sender info = registry_owner c"
  using assms
  by (auto simp: remove_validator_def load_registry_config_def result_simps Let_def split: if_splits)

lemma remove_validator_nonempty:
  assumes "remove_validator D info removed s = Inr (r, s')"
  shows "registry_validators s' \<noteq> []"
  using assms
  by (auto simp: remove_validator_def query_validators_def result_simps Let_def split: if_splits)

lemma registry_execute_wf:
  assumes "registry_execute D env info msg s = Inr (r, s')" and "registry_wf s"
  shows "registry_wf s'"
proof (cases msg)
  case (AddValidator v)
  then show ?thesis using assms
    by (auto simp: registry_execute_def add_validator_def result_simps save_validator_wf
        split: if_splits)
next
  case (RemoveValidator removed)
  then have rm: "remove_validator D info removed s = Inr (r, s')"
    using assms(1) by (simp add: registry_execute_def)
  show ?thesis
    using remove_wf[OF assms(2), of removed] remove_validator_store(1)[OF rm] by simp
next
  case (RegistryUpdateConfig owner hub)
  then have "registry_update_config D info owner hub s = Inr (r, s')"
    using assms(1) by (simp add: registry_execute_def)
  then show ?thesis using assms(2) registry_update_config_store
    by (simp add: registry_wf_def)
qed

lemma registry_reachable_wf: "registry_reachable s \<Longrightarrow> registry_wf s"
  by (induction rule: registry_reachable.induct)
    (auto dest: registry_instantiate_wf intro: registry_execute_wf)

lemma registry_stays_nonempty:
  assumes "registry_execute D env info msg s = Inr (r, s')" and "registered s \<noteq> {}"
  shows "registered s' \<noteq> {}"
  using assms
  by (cases msg) (auto simp: registry_execute_def add_validator_def result_simps
      dest!: remove_validator_nonempty registry_update_config_store(1) split: if_splits)

section \<open>Redelegation on removal\<close>

definition redelegation_plan ::
  "full_delegation \<Rightarrow> string set \<Rightarrow> (string \<times> coin) list \<Rightarrow> bool" where
  "redelegation_plan d targets reds \<longleftrightarrow>
     total (map (coin_amount \<circ> snd) reds) = unat (coin_amount (full_amount d))
     \<and> (\<forall>(v, c) \<in> set reds. v \<in> targets \<and> coin_amount c \<noteq> 0
          \<and> coin_denom c = coin_denom (full_amount d))"

text \<open>The delegation a removal has to move: the chain reports one, and all of it can move now.\<close>

definition movable_delegation :: "querier_lib \<Rightarrow> addr \<Rightarrow> string \<Rightarrow> full_delegation option" where
  "movable_delegation Q hub validator = (case query_delegation Q hub validator of
     Inr (Some d) \<Rightarrow> if coin_amount (full_amount d) \<le> coin_amount (full_can_redelegate d) then Some d else None
   | _ \<Rightarrow> None)"

lemma removal_messages_none:
  assumes "removal_messages D hub removed vs = Inr ms"
  shows "ms = [] \<longleftrightarrow> movable_delegation (querier D) hub removed = None"
  using assms
  by (auto simp: removal_messages_def movable_delegation_def result_simps Let_def not_less
      split: sum.splits failure.splits option.splits if_splits)

lemma removal_messages_plan:
  assumes "uint128_laws (numbers D)" and "removal_messages D hub removed vs = Inr ms"
    and "movable_delegation (querier D) hub removed = Some d"
  shows "\<exists>reds. ms = [WasmExecute hub (HubMsg (RedelegateProxy removed reds)) [],
            WasmExecute hub (HubMsg DispatchRewards) []]
    \<and> redelegation_plan d (validator_address ` set vs) reds"
proof -
  obtain xs shares where xs: "calculate_delegations (numbers D) (coin_amount (full_amount d)) vs = Inr xs"
    and shares: "nonzero_shares vs 0 xs = Inr shares"
    and ms: "ms = [WasmExecute hub (HubMsg (RedelegateProxy removed (map (\<lambda>(v, x).
        (v, \<lparr>coin_denom = coin_denom (full_amount d), coin_amount = x\<rparr>)) shares))) [],
      WasmExecute hub (HubMsg DispatchRewards) []]"
    using assms(2,3)
    by (auto simp: removal_messages_def movable_delegation_def result_simps Let_def
        split: sum.splits failure.splits option.splits if_splits)
  obtain ps where ps: "nonzero_shares vs 0 xs = Inr ps"
    "total (map snd ps) = unat (coin_amount (full_amount d))"
    "\<And>v x. (v, x) \<in> set ps \<Longrightarrow> x \<noteq> 0 \<and> v \<in> validator_address ` set vs"
    by (rule uint128_laws.delegations_shares[OF assms(1) xs]) blast
  define reds where "reds = map (\<lambda>(v, x).
    (v, \<lparr>coin_denom = coin_denom (full_amount d), coin_amount = x\<rparr>)) ps"
  have eq: "shares = ps" using shares ps(1) by simp
  have "map (coin_amount \<circ> snd) reds = map snd ps"
    by (simp add: reds_def case_prod_beta)
  then have "total (map (coin_amount \<circ> snd) reds) = unat (coin_amount (full_amount d))"
    using ps(2) by (simp only:)
  moreover have "\<forall>(v, c) \<in> set reds. v \<in> validator_address ` set vs \<and> coin_amount c \<noteq> 0
      \<and> coin_denom c = coin_denom (full_amount d)"
    using ps(3) by (auto simp: reds_def)
  ultimately have "redelegation_plan d (validator_address ` set vs) reds"
    by (simp only: redelegation_plan_def)
  then show ?thesis using ms unfolding eq reds_def by blast
qed

section \<open>A sample registry\<close>

definition sample_registry :: registry_store where
  "sample_registry = \<lparr>
     registry_config = Some \<lparr>registry_owner = ''owner'', registry_hub = ''hub''\<rparr>,
     registry_validators = [(''a'', Validator ''a''), (''b'', Validator ''b''), (''c'', Validator ''c'')]\<rparr>"

definition sample_registry_deps :: deps where
  "sample_registry_deps = reference_deps (fixed_querier
     [\<lparr>delegation_validator = ''a'', delegation_coin = uatom 10\<rparr>,
      \<lparr>delegation_validator = ''b'', delegation_coin = uatom 6\<rparr>]
     (Some \<lparr>full_validator = ''a'', full_amount = uatom 10, full_can_redelegate = uatom 10\<rparr>)
     (uatom 0) 0 [] sample_parameters)"

definition owner_info :: message_info where
  "owner_info = \<lparr>info_sender = ''owner'', info_funds = []\<rparr>"

lemma sample_registry_wf: "registry_wf sample_registry"
  by (simp add: registry_wf_def sample_registry_def kv_wf_def)

section \<open>Properties\<close>

lemma remove_validator_correct_facts:
  assumes "uint128_laws (numbers D)" and "registry_wf s"
    and "remove_validator D info removed s = Inr (r, s')"
  shows "(\<exists>c. registry_config s = Some c \<and> registry_config s' = Some c
        \<and> info_sender info = registry_owner c
        \<and> (case movable_delegation (querier D) (registry_hub c) removed of
             None \<Rightarrow> messages r = []
           | Some d \<Rightarrow> \<exists>reds.
               messages r = [WasmExecute (registry_hub c) (HubMsg (RedelegateProxy removed reds)) [],
                 WasmExecute (registry_hub c) (HubMsg DispatchRewards) []]
             \<and> redelegation_plan d (registered s') reds))
    \<and> registered s' = registered s - {removed} \<and> registered s' \<noteq> {}"
proof -
  note store = remove_validator_store(1)[OF assms(3)]
  obtain c where c: "registry_config s = Some c" "info_sender info = registry_owner c"
    using remove_validator_store(2)[OF assms(3)] by blast
  obtain vs ms where vs: "query_validators D s' = Inr vs"
    and ms: "removal_messages D (registry_hub c) removed (sort_by_delegated vs) = Inr ms"
    and r: "messages r = ms"
    using assms(3) c unfolding store
    by (auto simp: remove_validator_def load_registry_config_def result_simps Let_def split: if_splits)
  have wf: "registry_wf s'" unfolding store by (rule remove_wf[OF assms(2)])
  have targets: "validator_address ` set (sort_by_delegated vs) = registered s'"
    using arg_cong[OF query_validators_addresses[OF vs wf], of set] by simp
  moreover have "registered s' = registered s - {removed}"
    unfolding store by (auto simp: kv_remove_def)
  moreover have "registered s' \<noteq> {}" using remove_validator_nonempty[OF assms(3)] by simp
  moreover have "registry_config s' = Some c" unfolding store by (simp add: c(1))
  moreover have "case movable_delegation (querier D) (registry_hub c) removed of
      None \<Rightarrow> messages r = []
    | Some d \<Rightarrow> \<exists>reds.
        messages r = [WasmExecute (registry_hub c) (HubMsg (RedelegateProxy removed reds)) [],
          WasmExecute (registry_hub c) (HubMsg DispatchRewards) []]
      \<and> redelegation_plan d (registered s') reds"
  proof (cases "movable_delegation (querier D) (registry_hub c) removed")
    case None
    then show ?thesis using removal_messages_none[OF ms] by (simp add: r)
  next
    case (Some d)
    show ?thesis
      using removal_messages_plan[OF assms(1) ms Some] targets by (simp add: Some r)
  qed
  ultimately show ?thesis using c by blast
qed

text \<open>
  C22: Removing a validator, where it succeeds: the sender is the owner, exactly that validator
  leaves the registry and at least one remains. If the chain reports a delegation of the hub to it,
  all of which can be redelegated now (\<open>movable_delegation\<close>), the hub is told to redelegate exactly
  the whole amount, in non-zero parts, only to validators still registered, and then to dispatch
  rewards; otherwise no message is sent.
\<close>

theorem remove_validator_correct:
  assumes "uint128_laws (numbers D)" and "registry_wf s"
    and "remove_validator D info removed s = Inr (r, s')"
  shows "(\<exists>c. registry_config s = Some c \<and> registry_config s' = Some c
        \<and> info_sender info = registry_owner c
        \<and> (case movable_delegation (querier D) (registry_hub c) removed of
             None \<Rightarrow> messages r = []
           | Some d \<Rightarrow> \<exists>reds.
               messages r = [WasmExecute (registry_hub c) (HubMsg (RedelegateProxy removed reds)) [],
                 WasmExecute (registry_hub c) (HubMsg DispatchRewards) []]
             \<and> redelegation_plan d (registered s') reds))
    \<and> registered s' = registered s - {removed} \<and> registered s' \<noteq> {}"
  using assms by (rule remove_validator_correct_facts)

lemma remove_validator_correct_witness:
  "\<exists>reds. messages (fst (projr (remove_validator sample_registry_deps owner_info ''a'' sample_registry)))
      = [WasmExecute ''hub'' (HubMsg (RedelegateProxy ''a'' reds)) [],
         WasmExecute ''hub'' (HubMsg DispatchRewards) []]
    \<and> total (map (coin_amount \<circ> snd) reds) = 10 \<and> fst ` set reds \<subseteq> {''b'', ''c''}
    \<and> registered (snd (projr (remove_validator sample_registry_deps owner_info ''a'' sample_registry)))
      = {''b'', ''c''}"
proof -
  have ok: "isl (remove_validator sample_registry_deps owner_info ''a'' sample_registry) = False"
    by code_simp
  then obtain r s' where run:
    "remove_validator sample_registry_deps owner_info ''a'' sample_registry = Inr (r, s')"
    by (cases "remove_validator sample_registry_deps owner_info ''a'' sample_registry") auto
  have laws: "uint128_laws (numbers sample_registry_deps)"
    by (simp add: sample_registry_deps_def reference.uint128_laws_axioms)
  have movable: "movable_delegation (querier sample_registry_deps) ''hub'' ''a''
      = Some \<lparr>full_validator = ''a'', full_amount = uatom 10, full_can_redelegate = uatom 10\<rparr>"
    by (simp add: movable_delegation_def sample_registry_deps_def fixed_querier_def)
  note facts = remove_validator_correct[OF laws sample_registry_wf run]
  have left: "registered s' = {''b'', ''c''}"
    using conjunct1[OF conjunct2[OF facts]] by (auto simp: sample_registry_def)
  obtain c where c: "registry_config sample_registry = Some c"
    and sent: "case movable_delegation (querier sample_registry_deps) (registry_hub c) ''a'' of
        None \<Rightarrow> messages r = []
      | Some d \<Rightarrow> \<exists>reds.
          messages r = [WasmExecute (registry_hub c) (HubMsg (RedelegateProxy ''a'' reds)) [],
            WasmExecute (registry_hub c) (HubMsg DispatchRewards) []]
        \<and> redelegation_plan d (registered s') reds"
    using facts by blast
  have "registry_hub c = ''hub''" using c by (auto simp: sample_registry_def)
  then obtain reds where "messages r = [WasmExecute ''hub'' (HubMsg (RedelegateProxy ''a'' reds)) [],
         WasmExecute ''hub'' (HubMsg DispatchRewards) []]"
    and plan: "redelegation_plan \<lparr>full_validator = ''a'', full_amount = uatom 10, full_can_redelegate = uatom 10\<rparr>
      (registered s') reds"
    using sent by (simp only: movable option.case) blast
  moreover have "total (map (coin_amount \<circ> snd) reds) = 10" "fst ` set reds \<subseteq> registered s'"
    using plan by (auto simp: redelegation_plan_def uatom_def)
  ultimately show ?thesis using left unfolding run by (intro exI[of _ reds]) simp
qed

text \<open>
  C37: What the hub is told for delegating: exactly the registered validators, in ascending
  order of what the hub has delegated to them.
\<close>

theorem validators_for_delegation_sorted:
  assumes "registry_wf s" and "registry_query D GetValidatorsForDelegation s = Inr (ValidatorsAnswer vs)"
  shows "sorted (map total_delegated vs)
    \<and> mset (map validator_address vs) = mset (map fst (registry_validators s))
    \<and> distinct (map validator_address vs)"
proof -
  obtain us where us: "query_validators D s = Inr us" and vs: "vs = sort_by_delegated us"
    using assms(2) by (auto simp: registry_query_def result_simps)
  note addresses = query_validators_addresses[OF us assms(1)]
  have m: "mset (map validator_address vs) = mset (map fst (registry_validators s))"
    using addresses by (simp add: vs sort_by_delegated_def flip: addresses)
  moreover have "distinct (map fst (registry_validators s))"
    using assms(1) by (simp add: registry_wf_def kv_wf_distinct)
  ultimately have "distinct (map validator_address vs)" by (metis mset_eq_imp_distinct_iff)
  with m show ?thesis by (simp add: vs sort_by_delegated_def)
qed

lemma validators_for_delegation_sorted_witness:
  "registry_query sample_registry_deps GetValidatorsForDelegation sample_registry
      = Inr (ValidatorsAnswer (sample_validators [(''c'', 0), (''b'', 6), (''a'', 10)]))
    \<and> sorted (map total_delegated (sample_validators [(''c'', 0), (''b'', 6), (''a'', 10)]))"
proof -
  have run: "registry_query sample_registry_deps GetValidatorsForDelegation sample_registry
      = Inr (ValidatorsAnswer (sample_validators [(''c'', 0), (''b'', 6), (''a'', 10)]))"
    by code_simp
  then show ?thesis
    using validators_for_delegation_sorted[OF sample_registry_wf run] by blast
qed

text \<open>
  C31: Only the owner changes the registry or its configuration; the hub may only add a
  validator. Everybody else's message is refused.
\<close>

theorem registry_access_control:
  assumes "registry_config s = Some c"
  shows "(info_sender info \<noteq> registry_owner c \<and> info_sender info \<noteq> registry_hub c \<longrightarrow>
      registry_execute D env info msg s = generic_err ''unauthorized'')
    \<and> (info_sender info \<noteq> registry_owner c \<and> (\<nexists>v. msg = AddValidator v) \<longrightarrow>
      registry_execute D env info msg s = generic_err ''unauthorized'')"
  using assms
  by (cases msg) (auto simp: registry_execute_def add_validator_def remove_validator_def
      registry_update_config_def load_registry_config_def)

lemma registry_access_control_witness:
  "registry_execute sample_registry_deps \<lparr>block_seconds = 0, contract_address = ''registry''\<rparr>
      \<lparr>info_sender = ''hub'', info_funds = []\<rparr> (RemoveValidator ''a'') sample_registry
    = generic_err ''unauthorized''"
  using registry_access_control[of sample_registry "\<lparr>registry_owner = ''owner'', registry_hub = ''hub''\<rparr>"
      "\<lparr>info_sender = ''hub'', info_funds = []\<rparr>" sample_registry_deps
      "\<lparr>block_seconds = 0, contract_address = ''registry''\<rparr>" "RemoveValidator ''a''"]
  by (simp add: sample_registry_def)

text \<open>
  C30: In every reachable state the configuration is present and every validator is stored
  once, under its own address; a registry that holds a validator is never emptied by a message.
\<close>

theorem registry_invariant:
  assumes "registry_reachable s"
  shows "registry_wf s \<and> (\<forall>D env info msg r s'.
    registry_execute D env info msg s = Inr (r, s') \<and> registered s \<noteq> {} \<longrightarrow> registered s' \<noteq> {})"
proof (intro conjI allI impI)
  show "registry_wf s" using assms by (rule registry_reachable_wf)
  fix D env info msg r s'
  assume "registry_execute D env info msg s = Inr (r, s') \<and> registered s \<noteq> {}"
  then show "registered s' \<noteq> {}" by (elim conjE) (rule registry_stays_nonempty)
qed

lemma registry_invariant_witness:
  "registry_wf (snd (projr (registry_instantiate sample_registry_deps owner_info
    \<lparr>init_registry = [Validator ''a''], init_hub_contract = ''hub''\<rparr> empty_registry)))"
proof -
  let ?run = "registry_instantiate sample_registry_deps owner_info
    \<lparr>init_registry = [Validator ''a''], init_hub_contract = ''hub''\<rparr> empty_registry"
  have "isl ?run = False" by code_simp
  then obtain r s where run: "?run = Inr (r, s)" by (cases ?run) auto
  then show ?thesis using registry_invariant[OF registry_reachable.start[OF run]] by simp
qed

end
