(* ===== verification/Dispatcher.thy ===== *)
theory Dispatcher
  imports Basset
begin

text \<open>
  The rewards dispatcher contract (\<^verbatim>\<open>lido_cosmos_rewards_dispatcher/src/contract.rs\<close>,
  \<^verbatim>\<open>state.rs\<close>, \<^verbatim>\<open>msg.rs\<close>): it holds the staking rewards the hub withdraws, takes the fee from
  them and sends the rest back to the hub to be bonded.
\<close>

section \<open>State\<close>

record dispatcher_config =
  dispatcher_owner :: addr
  dispatcher_hub :: addr
  statom_reward_denom :: string
  lido_fee_address :: addr
  lido_fee_rate :: decimal

record dispatcher_store =
  dispatcher_config_item :: "dispatcher_config option"

record dispatcher_instantiate_msg =
  init_dispatcher_hub :: string
  init_reward_denom :: string
  init_fee_address :: string
  init_fee_rate :: decimal

datatype dispatcher_query_msg = GetBufferedRewards | GetDispatcherConfig

definition load_dispatcher_config :: "dispatcher_store \<Rightarrow> dispatcher_config result" where
  "load_dispatcher_config s = ok_or (dispatcher_config_item s) (StdErr NotFound)"

section \<open>Operations\<close>

definition dispatcher_instantiate ::
  "deps \<Rightarrow> message_info \<Rightarrow> dispatcher_instantiate_msg \<Rightarrow> dispatcher_store
    \<Rightarrow> (payload response \<times> dispatcher_store) result" where
  "dispatcher_instantiate D info msg s =
     and_then (addr_validate (api D) (init_dispatcher_hub msg)) (\<lambda>hub.
     and_then (addr_validate (api D) (init_fee_address msg)) (\<lambda>fee_address.
     Inr (new_response, s\<lparr>dispatcher_config_item := Some \<lparr>dispatcher_owner = info_sender info,
            dispatcher_hub = hub, statom_reward_denom = init_reward_denom msg,
            lido_fee_address = fee_address, lido_fee_rate = init_fee_rate msg\<rparr>\<rparr>)))"

text \<open>One \<open>CONFIG.update(..)\<close> of the optional updates: validate, then change the stored value.\<close>

definition update_address ::
  "deps \<Rightarrow> string option \<Rightarrow> (addr \<Rightarrow> dispatcher_config \<Rightarrow> dispatcher_config) \<Rightarrow> dispatcher_store
    \<Rightarrow> dispatcher_store result" where
  "update_address D new set_address s =
     (case new of
        None \<Rightarrow> Inr s
      | Some a \<Rightarrow>
          and_then (addr_validate (api D) a) (\<lambda>raw.
          and_then (load_dispatcher_config s) (\<lambda>last_config.
          Inr (s\<lparr>dispatcher_config_item := Some (set_address raw last_config)\<rparr>))))"

definition dispatcher_update_config ::
  "deps \<Rightarrow> message_info \<Rightarrow> string option \<Rightarrow> string option \<Rightarrow> string option \<Rightarrow> string option
    \<Rightarrow> decimal option \<Rightarrow> dispatcher_store \<Rightarrow> (payload response \<times> dispatcher_store) result" where
  "dispatcher_update_config D info owner hub_contract reward_denom fee_address fee_rate s =
     and_then (load_dispatcher_config s) (\<lambda>conf.
     and_then (addr_validate (api D) (info_sender info)) (\<lambda>sender_raw.
     if sender_raw \<noteq> dispatcher_owner conf then generic_err ''unauthorized''
     else
     and_then (update_address D owner (\<lambda>a c. c\<lparr>dispatcher_owner := a\<rparr>) s) (\<lambda>s1.
     and_then (update_address D hub_contract (\<lambda>a c. c\<lparr>dispatcher_hub := a\<rparr>) s1) (\<lambda>s2.
     if reward_denom \<noteq> None then generic_err ''updating statom reward denom is forbidden''
     else
     and_then (case fee_rate of
         None \<Rightarrow> Inr s2
       | Some r \<Rightarrow>
           and_then (load_dispatcher_config s2) (\<lambda>last_config.
           Inr (s2\<lparr>dispatcher_config_item := Some (last_config\<lparr>lido_fee_rate := r\<rparr>)\<rparr>))) (\<lambda>s3.
     and_then (update_address D fee_address (\<lambda>a c. c\<lparr>lido_fee_address := a\<rparr>) s3) (\<lambda>s4.
     Inr (new_response, s4)))))))"

definition compute_lido_fee :: "num_lib \<Rightarrow> u128 \<Rightarrow> decimal \<Rightarrow> u128 result" where
  "compute_lido_fee L amount fee_rate = uint_mul_decimal L amount fee_rate"

definition dispatcher_dispatch_rewards ::
  "deps \<Rightarrow> env \<Rightarrow> message_info \<Rightarrow> dispatcher_store \<Rightarrow> (payload response \<times> dispatcher_store) result"
  where
  "dispatcher_dispatch_rewards D env info s =
     and_then (load_dispatcher_config s) (\<lambda>config.
     and_then (is_paused D (dispatcher_hub config)) (\<lambda>stopped.
     if stopped then generic_err ''the contract is temporarily paused''
     else if info_sender info \<noteq> dispatcher_hub config then generic_err ''unauthorized''
     else
     and_then (query_balance (querier D) (contract_address env) (statom_reward_denom config))
       (\<lambda>balance.
     and_then (compute_lido_fee (numbers D) (coin_amount balance) (lido_fee_rate config)) (\<lambda>fee.
     and_then (uint_checked_sub (numbers D) (coin_amount balance) fee) (\<lambda>rest.
     let rewards = balance\<lparr>coin_amount := rest\<rparr>;
         fee_coin = \<lparr>coin_denom = statom_reward_denom config, coin_amount = fee\<rparr>;
         lido_fees = (if fee \<noteq> 0 then [fee_coin] else []);
         fees_attrs = (if fee \<noteq> 0 then [(''lido_statom_fee'', AttrCoin fee_coin)] else []);
         bond_msgs = (if coin_amount rewards \<noteq> 0
           then [WasmExecute (dispatcher_hub config) (HubMsg hub_execute_msg.BondRewards) [rewards]]
           else []);
         fee_msgs = (if lido_fees \<noteq> [] then [BankSend (lido_fee_address config) lido_fees] else [])
     in Inr (add_attributes fees_attrs
              (add_attributes [(''action'', AttrStr ''claim_reward''),
                               (''statom_rewards'', AttrCoin rewards)]
                 (add_messages (bond_msgs @ fee_msgs) new_response)), s))))))"

definition dispatcher_execute ::
  "deps \<Rightarrow> env \<Rightarrow> message_info \<Rightarrow> dispatcher_execute_msg \<Rightarrow> dispatcher_store
    \<Rightarrow> (payload response \<times> dispatcher_store) result" where
  "dispatcher_execute D env info msg s =
     (case msg of
        DispatcherDispatchRewards \<Rightarrow> dispatcher_dispatch_rewards D env info s
      | DispatcherUpdateConfig owner hub_contract reward_denom fee_address fee_rate \<Rightarrow>
          dispatcher_update_config D info owner hub_contract reward_denom fee_address fee_rate s)"

text \<open>\<open>GetBufferedRewards\<close> is \<open>unimplemented!()\<close>.\<close>

definition dispatcher_query :: "dispatcher_query_msg \<Rightarrow> dispatcher_store \<Rightarrow> dispatcher_config result" where
  "dispatcher_query q s =
     (case q of
        GetDispatcherConfig \<Rightarrow> load_dispatcher_config s
      | GetBufferedRewards \<Rightarrow> Inl Panic)"

definition dispatcher_migrate ::
  "dispatcher_store \<Rightarrow> (payload response \<times> dispatcher_store) result" where
  "dispatcher_migrate s = Inr (new_response, s)"

section \<open>Facts\<close>

text \<open>The optional updates keep a configuration and its reward denomination.\<close>

definition keeps_denom :: "dispatcher_store \<Rightarrow> dispatcher_store \<Rightarrow> bool" where
  "keeps_denom s s' \<longleftrightarrow> (\<forall>c. dispatcher_config_item s = Some c \<longrightarrow>
     (\<exists>c'. dispatcher_config_item s' = Some c' \<and> statom_reward_denom c' = statom_reward_denom c))"

lemma keeps_denom_trans: "keeps_denom s s' \<Longrightarrow> keeps_denom s' s'' \<Longrightarrow> keeps_denom s s''"
  unfolding keeps_denom_def by metis

lemma update_address_keeps:
  assumes "update_address D new f s = Inr s'"
    and "\<And>a c. statom_reward_denom (f a c) = statom_reward_denom c"
  shows "keeps_denom s s'"
  using assms
  by (auto simp: update_address_def keeps_denom_def load_dispatcher_config_def result_simps
      split: option.splits)

lemma update_config_keeps:
  assumes "dispatcher_update_config D info owner hub denom fee_address fee_rate s = Inr (r, s')"
    and "dispatcher_config_item s = Some c"
  shows "keeps_denom s s' \<and> addr_validate (api D) (info_sender info) = Inr (dispatcher_owner c) \<and> denom = None"
proof -
  obtain s1 s2 s3 where parts: "update_address D owner (\<lambda>a c. c\<lparr>dispatcher_owner := a\<rparr>) s = Inr s1"
    "update_address D hub (\<lambda>a c. c\<lparr>dispatcher_hub := a\<rparr>) s1 = Inr s2"
    "update_address D fee_address (\<lambda>a c. c\<lparr>lido_fee_address := a\<rparr>) s3 = Inr s'"
    and rate: "(case fee_rate of
         None \<Rightarrow> Inr s2
       | Some r \<Rightarrow>
           and_then (load_dispatcher_config s2) (\<lambda>last_config.
           Inr (s2\<lparr>dispatcher_config_item := Some (last_config\<lparr>lido_fee_rate := r\<rparr>)\<rparr>))) = Inr s3"
    and sender: "addr_validate (api D) (info_sender info) = Inr (dispatcher_owner c)" "denom = None"
    using assms
    by (auto simp: dispatcher_update_config_def load_dispatcher_config_def result_simps
        split: if_splits)
  have "keeps_denom s2 s3"
    using rate by (auto simp: keeps_denom_def load_dispatcher_config_def result_simps split: option.splits)
  moreover have "keeps_denom s s1" and "keeps_denom s1 s2" and "keeps_denom s3 s'"
    using parts by (auto elim!: update_address_keeps)
  ultimately show ?thesis using sender by (blast intro: keeps_denom_trans)
qed

section \<open>A sample dispatcher\<close>

definition sample_dispatcher_config :: dispatcher_config where
  "sample_dispatcher_config = \<lparr>dispatcher_owner = ''owner'', dispatcher_hub = ''hub'',
     statom_reward_denom = ''uatom'', lido_fee_address = ''fee'',
     lido_fee_rate = Decimal 50000000000000000\<rparr>"

definition sample_dispatcher :: dispatcher_store where
  "sample_dispatcher = \<lparr>dispatcher_config_item = Some sample_dispatcher_config\<rparr>"

definition rewards_deps :: "u128 \<Rightarrow> deps" where
  "rewards_deps n = reference_deps (fixed_querier [] None (uatom n) 0 [] sample_parameters)"

lemma dispatcher_execute_denom:
  assumes "dispatcher_execute D env info msg s = Inr (r, s')" and "dispatcher_config_item s = Some c"
  shows "\<exists>c'. dispatcher_config_item s' = Some c' \<and> statom_reward_denom c' = statom_reward_denom c"
proof (cases msg)
  case (DispatcherUpdateConfig owner hub denom fee rate)
  then show ?thesis using assms update_config_keeps[OF _ assms(2)]
    by (auto simp: dispatcher_execute_def keeps_denom_def)
next
  case DispatcherDispatchRewards
  then show ?thesis using assms
    by (auto simp: dispatcher_execute_def dispatcher_dispatch_rewards_def result_simps Let_def
        split: if_splits)
qed

section \<open>Properties\<close>

lemma dispatch_rewards_conserves_facts:
  assumes "decimal_laws (numbers D)"
    and "dispatcher_execute D env info DispatcherDispatchRewards s = Inr (r, s')"
  shows "\<exists>c balance fee rest. dispatcher_config_item s = Some c \<and> s' = s
    \<and> info_sender info = dispatcher_hub c \<and> is_paused D (dispatcher_hub c) = Inr False
    \<and> query_balance (querier D) (contract_address env) (statom_reward_denom c) = Inr balance
    \<and> unat fee = unat (coin_amount balance) * unat (atomics (lido_fee_rate c)) div fractional
    \<and> unat fee + unat rest = unat (coin_amount balance)
    \<and> messages r =
        (if rest = 0 then [] else [WasmExecute (dispatcher_hub c) (HubMsg hub_execute_msg.BondRewards)
           [balance\<lparr>coin_amount := rest\<rparr>]])
        @ (if fee = 0 then [] else [BankSend (lido_fee_address c)
           [\<lparr>coin_denom = statom_reward_denom c, coin_amount = fee\<rparr>]])"
proof -
  have laws: "uint128_laws (numbers D)" using assms(1) by (simp add: decimal_laws_def)
  obtain c balance fee rest where c: "dispatcher_config_item s = Some c"
    "info_sender info = dispatcher_hub c" "is_paused D (dispatcher_hub c) = Inr False"
    and balance: "query_balance (querier D) (contract_address env) (statom_reward_denom c) = Inr balance"
    and fee: "uint_mul_decimal (numbers D) (coin_amount balance) (lido_fee_rate c) = Inr fee"
    and rest: "uint_checked_sub (numbers D) (coin_amount balance) fee = Inr rest"
    using assms(2)
    by (auto simp: dispatcher_execute_def dispatcher_dispatch_rewards_def load_dispatcher_config_def
        compute_lido_fee_def result_simps Let_def simp del: if_Inr_iff split: if_split_asm)
  have out: "s' = s" "messages r =
        (if rest = 0 then [] else [WasmExecute (dispatcher_hub c) (HubMsg hub_execute_msg.BondRewards)
           [balance\<lparr>coin_amount := rest\<rparr>]])
        @ (if fee = 0 then [] else [BankSend (lido_fee_address c)
           [\<lparr>coin_denom = statom_reward_denom c, coin_amount = fee\<rparr>]])"
    using assms(2) c balance fee rest
    by (cases "rest = 0"; cases "fee = 0"; auto simp: dispatcher_execute_def
        dispatcher_dispatch_rewards_def load_dispatcher_config_def compute_lido_fee_def Let_def)+
  have "unat fee + unat rest = unat (coin_amount balance)"
    using rest by (simp add: uint128_laws.uint_checked_sub_Inr[OF laws])
  then show ?thesis
    using c balance decimal_laws.mul_decimal_sound[OF assms(1) fee] out by blast
qed

text \<open>
  C28: Dispatching rewards, when accepted, is asked for by the hub while it is not paused, changes
  nothing stored, and sends away exactly the balance in the reward denomination: the fee (the
  balance times the fee rate, rounded down) to the fee address and the rest to the hub as rewards
  to bond; a part that is zero is not sent.
\<close>

theorem dispatch_rewards_conserves:
  assumes "decimal_laws (numbers D)"
    and "dispatcher_execute D env info DispatcherDispatchRewards s = Inr (r, s')"
  shows "\<exists>c balance fee rest. dispatcher_config_item s = Some c \<and> s' = s
    \<and> info_sender info = dispatcher_hub c \<and> is_paused D (dispatcher_hub c) = Inr False
    \<and> query_balance (querier D) (contract_address env) (statom_reward_denom c) = Inr balance
    \<and> unat fee = unat (coin_amount balance) * unat (atomics (lido_fee_rate c)) div fractional
    \<and> unat fee + unat rest = unat (coin_amount balance)
    \<and> messages r =
        (if rest = 0 then [] else [WasmExecute (dispatcher_hub c) (HubMsg hub_execute_msg.BondRewards)
           [balance\<lparr>coin_amount := rest\<rparr>]])
        @ (if fee = 0 then [] else [BankSend (lido_fee_address c)
           [\<lparr>coin_denom = statom_reward_denom c, coin_amount = fee\<rparr>]])"
  using assms by (rule dispatch_rewards_conserves_facts)

lemma dispatch_rewards_conserves_witness:
  "\<exists>fee rest. messages (fst (projr (dispatcher_execute (rewards_deps 1000)
      \<lparr>block_seconds = 0, contract_address = ''disp''\<rparr> \<lparr>info_sender = ''hub'', info_funds = []\<rparr>
      DispatcherDispatchRewards sample_dispatcher)))
    = [WasmExecute ''hub'' (HubMsg hub_execute_msg.BondRewards) [uatom rest], BankSend ''fee'' [uatom fee]]
    \<and> unat fee = 50 \<and> unat rest = 950"
proof -
  let ?run = "dispatcher_execute (rewards_deps 1000) \<lparr>block_seconds = 0, contract_address = ''disp''\<rparr>
    \<lparr>info_sender = ''hub'', info_funds = []\<rparr> DispatcherDispatchRewards sample_dispatcher"
  have "isl ?run = False" by code_simp
  then obtain r s' where run: "?run = Inr (r, s')" by (cases ?run) auto
  have laws: "decimal_laws (numbers (rewards_deps 1000))"
    by (simp add: rewards_deps_def reference.decimal_laws_axioms)
  show ?thesis
    using dispatch_rewards_conserves[OF laws run] run
    by (auto simp: sample_dispatcher_def sample_dispatcher_config_def rewards_deps_def
        fixed_querier_def uatom_def split: if_splits)
qed

text \<open>
  C38: The dispatcher's configuration changes only when its owner updates it, stays present, and
  its reward denomination never changes: an update that names one is refused.
\<close>

theorem dispatcher_config_guarded:
  assumes "dispatcher_config_item s = Some c"
  shows "(\<forall>r s'. dispatcher_execute D env info msg s = Inr (r, s') \<longrightarrow>
      (\<exists>c'. dispatcher_config_item s' = Some c' \<and> statom_reward_denom c' = statom_reward_denom c
        \<and> (c' \<noteq> c \<longrightarrow> addr_validate (api D) (info_sender info) = Inr (dispatcher_owner c))))
    \<and> (\<forall>d. isl (dispatcher_execute D env info (DispatcherUpdateConfig owner hub (Some d) fee rate) s))"
proof (intro conjI allI impI)
  fix r s'
  assume run: "dispatcher_execute D env info msg s = Inr (r, s')"
  show "\<exists>c'. dispatcher_config_item s' = Some c' \<and> statom_reward_denom c' = statom_reward_denom c
        \<and> (c' \<noteq> c \<longrightarrow> addr_validate (api D) (info_sender info) = Inr (dispatcher_owner c))"
  proof (cases msg)
    case (DispatcherUpdateConfig owner hub denom fee rate)
    then show ?thesis using run update_config_keeps[OF _ assms] assms
      by (auto simp: dispatcher_execute_def keeps_denom_def)
  next
    case DispatcherDispatchRewards
    then have "s' = s" using run
      by (auto simp: dispatcher_execute_def dispatcher_dispatch_rewards_def result_simps Let_def
          split: if_splits)
    with assms show ?thesis by simp
  qed
next
  fix d
  show "isl (dispatcher_execute D env info (DispatcherUpdateConfig owner hub (Some d) fee rate) s)"
    using update_config_keeps[OF _ assms, of D info owner hub "Some d" fee rate]
    by (cases "dispatcher_update_config D info owner hub (Some d) fee rate s")
      (fastforce simp: dispatcher_execute_def)+
qed

lemma dispatcher_config_guarded_witness:
  "isl (dispatcher_execute (rewards_deps 0) \<lparr>block_seconds = 0, contract_address = ''disp''\<rparr>
    \<lparr>info_sender = ''owner'', info_funds = []\<rparr>
    (DispatcherUpdateConfig None None (Some ''uluna'') None None) sample_dispatcher)"
proof -
  have c: "dispatcher_config_item sample_dispatcher = Some sample_dispatcher_config"
    by (simp add: sample_dispatcher_def)
  show ?thesis using dispatcher_config_guarded[OF c] by blast
qed

text \<open>
  Dispatching is refused while the hub is paused, and to everyone but the hub.
\<close>

theorem dispatch_refused:
  assumes "dispatcher_config_item s = Some c" and "is_paused D (dispatcher_hub c) = Inr stopped"
    and "stopped \<or> info_sender info \<noteq> dispatcher_hub c"
  shows "dispatcher_execute D env info DispatcherDispatchRewards s
    = (if stopped then generic_err ''the contract is temporarily paused'' else generic_err ''unauthorized'')"
  using assms by (auto simp: dispatcher_execute_def dispatcher_dispatch_rewards_def load_dispatcher_config_def)

lemma dispatch_refused_witness:
  "dispatcher_execute (rewards_deps 5) \<lparr>block_seconds = 0, contract_address = ''disp''\<rparr>
    \<lparr>info_sender = ''bob'', info_funds = []\<rparr> DispatcherDispatchRewards sample_dispatcher
    = generic_err ''unauthorized''"
proof -
  have c: "dispatcher_config_item sample_dispatcher = Some sample_dispatcher_config"
    by (simp add: sample_dispatcher_def)
  have run: "is_paused (rewards_deps 5) (dispatcher_hub sample_dispatcher_config) = Inr False"
    by (simp add: is_paused_def rewards_deps_def fixed_querier_def sample_parameters_def)
  show ?thesis
    using dispatch_refused[OF c run, of "\<lparr>info_sender = ''bob'', info_funds = []\<rparr>"]
    by (simp add: sample_dispatcher_config_def)
qed

end
