(* ===== verification/Cw20.thy ===== *)
theory Cw20
  imports Basset
begin

text \<open>
  The interface to the crate \<^verbatim>\<open>cw20_base\<close>, on which the token contract is built. Its operations are
  the fields of \<open>cw20_base\<close>, over a token storage \<open>'t\<close> of their own; \<open>base_operation\<close> selects the one
  a message of the token stands for. What the contracts rely on is the locale \<open>cw20_laws\<close>: which
  messages an operation emits, and what it does to the total supply. \<open>reference_cw20\<close> is one
  implementation, on which the locale is interpreted.
\<close>

section \<open>Operations\<close>

record cw20_coin =
  cw20_address :: string
  cw20_balance :: u128

record minter =
  minter_address :: string
  minter_cap :: "u128 option"

record marketing_info =
  marketing_project :: "string option"
  marketing_description :: "string option"
  marketing_address :: "string option"
  marketing_logo :: "logo option"

record cw20_instantiate_msg =
  token_name :: string
  token_symbol :: string
  token_decimals :: u8
  token_initial_balances :: "cw20_coin list"
  token_mint :: "minter option"
  token_marketing :: "marketing_info option"

type_synonym 't cw20_op = "'t \<Rightarrow> (payload response \<times> 't) result"

record 't cw20_base =
  cw20_init :: "deps \<Rightarrow> env \<Rightarrow> message_info \<Rightarrow> cw20_instantiate_msg \<Rightarrow> 't cw20_op"
  cw20_transfer :: "deps \<Rightarrow> env \<Rightarrow> message_info \<Rightarrow> string \<Rightarrow> u128 \<Rightarrow> 't cw20_op"
  cw20_burn :: "deps \<Rightarrow> env \<Rightarrow> message_info \<Rightarrow> u128 \<Rightarrow> 't cw20_op"
  cw20_mint :: "deps \<Rightarrow> env \<Rightarrow> message_info \<Rightarrow> string \<Rightarrow> u128 \<Rightarrow> 't cw20_op"
  cw20_send :: "deps \<Rightarrow> env \<Rightarrow> message_info \<Rightarrow> string \<Rightarrow> u128 \<Rightarrow> bytes \<Rightarrow> 't cw20_op"
  cw20_increase_allowance ::
    "deps \<Rightarrow> env \<Rightarrow> message_info \<Rightarrow> string \<Rightarrow> u128 \<Rightarrow> expiration option \<Rightarrow> 't cw20_op"
  cw20_decrease_allowance ::
    "deps \<Rightarrow> env \<Rightarrow> message_info \<Rightarrow> string \<Rightarrow> u128 \<Rightarrow> expiration option \<Rightarrow> 't cw20_op"
  cw20_transfer_from :: "deps \<Rightarrow> env \<Rightarrow> message_info \<Rightarrow> string \<Rightarrow> string \<Rightarrow> u128 \<Rightarrow> 't cw20_op"
  cw20_burn_from :: "deps \<Rightarrow> env \<Rightarrow> message_info \<Rightarrow> string \<Rightarrow> u128 \<Rightarrow> 't cw20_op"
  cw20_send_from :: "deps \<Rightarrow> env \<Rightarrow> message_info \<Rightarrow> string \<Rightarrow> string \<Rightarrow> u128 \<Rightarrow> bytes \<Rightarrow> 't cw20_op"
  cw20_update_marketing ::
    "deps \<Rightarrow> env \<Rightarrow> message_info \<Rightarrow> string option \<Rightarrow> string option \<Rightarrow> string option \<Rightarrow> 't cw20_op"
  cw20_upload_logo :: "deps \<Rightarrow> env \<Rightarrow> message_info \<Rightarrow> logo \<Rightarrow> 't cw20_op"

fun base_operation ::
  "'t cw20_base \<Rightarrow> deps \<Rightarrow> env \<Rightarrow> message_info \<Rightarrow> cw20_execute \<Rightarrow> 't cw20_op" where
  "base_operation B D env info (Transfer recipient amount) = cw20_transfer B D env info recipient amount"
| "base_operation B D env info (Burn amount) = cw20_burn B D env info amount"
| "base_operation B D env info (Send contract amount m) = cw20_send B D env info contract amount m"
| "base_operation B D env info (Mint recipient amount) = cw20_mint B D env info recipient amount"
| "base_operation B D env info (IncreaseAllowance spender amount expires) =
     cw20_increase_allowance B D env info spender amount expires"
| "base_operation B D env info (DecreaseAllowance spender amount expires) =
     cw20_decrease_allowance B D env info spender amount expires"
| "base_operation B D env info (TransferFrom owner recipient amount) =
     cw20_transfer_from B D env info owner recipient amount"
| "base_operation B D env info (BurnFrom owner amount) = cw20_burn_from B D env info owner amount"
| "base_operation B D env info (SendFrom owner contract amount m) =
     cw20_send_from B D env info owner contract amount m"
| "base_operation B D env info (UpdateMarketing project description marketing) =
     cw20_update_marketing B D env info project description marketing"
| "base_operation B D env info (UploadLogo l) = cw20_upload_logo B D env info l"

section \<open>What the contracts rely on\<close>

text \<open>
  Only sending tokens to a contract emits a message: it notifies the contract, with the account
  that asked for it as the sender. Tokens come into being and vanish only by minting and burning.
\<close>

fun notices :: "addr \<Rightarrow> cw20_execute \<Rightarrow> payload cosmos_msg list" where
  "notices sender (Send contract amount m) = [WasmExecute contract
     (HubMsg (Receive \<lparr>cw20_sender = sender, cw20_amount = amount, cw20_msg = m\<rparr>)) []]"
| "notices sender (SendFrom owner contract amount m) = [WasmExecute contract
     (HubMsg (Receive \<lparr>cw20_sender = sender, cw20_amount = amount, cw20_msg = m\<rparr>)) []]"
| "notices sender msg = []"

fun minted :: "cw20_execute \<Rightarrow> nat" where
  "minted (Mint recipient amount) = unat amount"
| "minted msg = 0"

fun burnt :: "cw20_execute \<Rightarrow> nat" where
  "burnt (Burn amount) = unat amount"
| "burnt (BurnFrom owner amount) = unat amount"
| "burnt msg = 0"

locale cw20_laws =
  fixes B :: "'t cw20_base" and total_supply :: "'t \<Rightarrow> u128"
  assumes library_messages:
      "base_operation B D env info msg t = Inr (r, t') \<Longrightarrow> messages r = notices (info_sender info) msg"
    and library_supply:
      "base_operation B D env info msg t = Inr (r, t') \<Longrightarrow>
        unat (total_supply t') + burnt msg = unat (total_supply t) + minted msg"

section \<open>A reference implementation\<close>

text \<open>
  Balances, allowances, the minter and the total supply. Allowances do not expire, and the
  marketing data, of which the contracts make no use, is not kept.
\<close>

record cw20_state =
  cw20_balances :: "(string \<times> u128) list"
  cw20_allowances :: "((string \<times> string) \<times> u128) list"
  cw20_minter :: "string option"
  cw20_supply :: u128

definition amount_at :: "('k \<times> u128) list \<Rightarrow> 'k \<Rightarrow> u128" where
  "amount_at m k = (case kv_get m k of None \<Rightarrow> 0 | Some n \<Rightarrow> n)"

definition take_from :: "'k::linorder \<Rightarrow> u128 \<Rightarrow> ('k \<times> u128) list \<Rightarrow> ('k \<times> u128) list result" where
  "take_from k n m = (if n \<le> amount_at m k then Inr (kv_set k (amount_at m k - n) m)
     else Inl (StdErr OverflowErr))"

definition add_to :: "'k::linorder \<Rightarrow> u128 \<Rightarrow> ('k \<times> u128) list \<Rightarrow> ('k \<times> u128) list result" where
  "add_to k n m = and_then (prim_add (amount_at m k) n) (\<lambda>x. Inr (kv_set k x m))"

definition move_tokens :: "string \<Rightarrow> string \<Rightarrow> u128 \<Rightarrow> cw20_state \<Rightarrow> cw20_state result" where
  "move_tokens a b n t = and_then (take_from a n (cw20_balances t)) (\<lambda>m.
     and_then (add_to b n m) (\<lambda>m'. Inr (t\<lparr>cw20_balances := m'\<rparr>)))"

definition burn_tokens :: "string \<Rightarrow> u128 \<Rightarrow> cw20_state \<Rightarrow> cw20_state result" where
  "burn_tokens a n t = and_then (take_from a n (cw20_balances t)) (\<lambda>m.
     and_then (prim_sub (cw20_supply t) n) (\<lambda>x. Inr (t\<lparr>cw20_balances := m, cw20_supply := x\<rparr>)))"

definition mint_tokens :: "string \<Rightarrow> u128 \<Rightarrow> cw20_state \<Rightarrow> cw20_state result" where
  "mint_tokens a n t = and_then (add_to a n (cw20_balances t)) (\<lambda>m.
     and_then (prim_add (cw20_supply t) n) (\<lambda>x. Inr (t\<lparr>cw20_balances := m, cw20_supply := x\<rparr>)))"

definition spend_allowance :: "string \<Rightarrow> string \<Rightarrow> u128 \<Rightarrow> cw20_state \<Rightarrow> cw20_state result" where
  "spend_allowance owner spender n t = and_then (take_from (owner, spender) n (cw20_allowances t))
     (\<lambda>m. Inr (t\<lparr>cw20_allowances := m\<rparr>))"

definition done_with :: "string \<Rightarrow> payload cosmos_msg list \<Rightarrow> 't result \<Rightarrow> (payload response \<times> 't) result" where
  "done_with action ms x = and_then x (\<lambda>t.
     Inr (add_attributes [(''action'', AttrStr action)] (add_messages ms new_response), t))"

definition reference_cw20 :: "cw20_state cw20_base" where
  "reference_cw20 = \<lparr>
     cw20_init = (\<lambda>D env info msg t. done_with ''init'' [] (fold (\<lambda>c r. and_then r
        (mint_tokens (cw20_address c) (cw20_balance c))) (token_initial_balances msg)
        (Inr (t\<lparr>cw20_minter := map_option minter_address (token_mint msg)\<rparr>)))),
     cw20_transfer = (\<lambda>D env info a n t. done_with ''transfer'' [] (move_tokens (info_sender info) a n t)),
     cw20_burn = (\<lambda>D env info n t. done_with ''burn'' [] (burn_tokens (info_sender info) n t)),
     cw20_mint = (\<lambda>D env info a n t. done_with ''mint'' [] (if cw20_minter t = Some (info_sender info)
        then mint_tokens a n t else generic_err ''Unauthorized'')),
     cw20_send = (\<lambda>D env info a n m t. done_with ''send'' (notices (info_sender info) (Send a n m))
        (move_tokens (info_sender info) a n t)),
     cw20_increase_allowance = (\<lambda>D env info a n e t. done_with ''increase_allowance'' []
        (and_then (add_to (info_sender info, a) n (cw20_allowances t)) (\<lambda>m. Inr (t\<lparr>cw20_allowances := m\<rparr>)))),
     cw20_decrease_allowance = (\<lambda>D env info a n e t. done_with ''decrease_allowance'' []
        (Inr (t\<lparr>cw20_allowances := (let k = (info_sender info, a); m = cw20_allowances t in
           if n < amount_at m k then kv_set k (amount_at m k - n) m else kv_remove k m)\<rparr>))),
     cw20_transfer_from = (\<lambda>D env info a b n t. done_with ''transfer_from'' []
        (and_then (spend_allowance a (info_sender info) n t) (move_tokens a b n))),
     cw20_burn_from = (\<lambda>D env info a n t. done_with ''burn_from'' []
        (and_then (spend_allowance a (info_sender info) n t) (burn_tokens a n))),
     cw20_send_from = (\<lambda>D env info a b n m t. done_with ''send_from''
        (notices (info_sender info) (SendFrom a b n m))
        (and_then (spend_allowance a (info_sender info) n t) (move_tokens a b n))),
     cw20_update_marketing = (\<lambda>D env info p d m t. done_with ''update_marketing'' [] (Inr t)),
     cw20_upload_logo = (\<lambda>D env info l t. done_with ''upload_logo'' [] (Inr t))\<rparr>"

lemma done_with_Inr [result_simps]:
  "done_with action ms x = Inr (r, t) \<longleftrightarrow> x = Inr t \<and> r = \<lparr>messages = ms, attributes = [(''action'', AttrStr action)]\<rparr>"
  by (cases x) (auto simp: done_with_def add_messages_def add_attributes_def new_response_def)

lemma reference_supply:
  "move_tokens a b n t = Inr t' \<Longrightarrow> cw20_supply t' = cw20_supply t"
  "spend_allowance a b n t = Inr t' \<Longrightarrow> cw20_supply t' = cw20_supply t"
  "burn_tokens a n t = Inr t' \<Longrightarrow> unat (cw20_supply t') + unat n = unat (cw20_supply t)"
  "mint_tokens a n t = Inr t' \<Longrightarrow> unat (cw20_supply t') = unat (cw20_supply t) + unat n"
  by (auto simp: move_tokens_def spend_allowance_def burn_tokens_def mint_tokens_def result_simps)

interpretation reference_cw20: cw20_laws reference_cw20 cw20_supply
proof
  fix D env info msg t r t'
  assume run: "base_operation reference_cw20 D env info msg t = Inr (r, t')"
  show "messages r = notices (info_sender info) msg"
    using run by (cases msg) (auto simp: reference_cw20_def result_simps)
  show "unat (cw20_supply t') + burnt msg = unat (cw20_supply t) + minted msg"
    using run by (cases msg)
      (auto simp: reference_cw20_def result_simps dest!: reference_supply split: if_splits)
qed

end
