(* ===== verification/Token.thy ===== *)
theory Token
  imports Cw20
begin

text \<open>
  The stAtom token contract (\<^verbatim>\<open>lido_cosmos_token_statom/src\<close>): a cw20 token whose operations are
  those of the crate \<^verbatim>\<open>cw20_base\<close>, guarded by the hub's pause flag, and which asks the hub to check
  slashing whenever tokens are burnt. The library is the parameter \<open>B\<close> of every operation, a
  \<open>cw20_base\<close> of theory \<open>Cw20\<close> over a token storage \<open>'t\<close> of its own.
\<close>

section \<open>State and library\<close>

record 't token_store =
  hub_contract_item :: "addr option"
  base_store :: 't

record token_init_msg =
  init_name :: string
  init_symbol :: string
  init_decimals :: u8
  init_balances :: "cw20_coin list"
  init_token_hub :: string
  init_marketing :: "marketing_info option"

definition load_hub_contract :: "'t token_store \<Rightarrow> addr result" where
  "load_hub_contract s = ok_or (hub_contract_item s) (StdErr NotFound)"

text \<open>Run an operation of the library on its part of the storage.\<close>

definition on_base ::
  "'t cw20_op \<Rightarrow> 't token_store \<Rightarrow> (payload response \<times> 't token_store) result" where
  "on_base op s = and_then (op (base_store s)) (\<lambda>(r, t). Inr (r, s\<lparr>base_store := t\<rparr>))"

definition check_slashing_msg :: "addr \<Rightarrow> payload cosmos_msg" where
  "check_slashing_msg hub = WasmExecute hub (HubMsg CheckSlashing) []"

section \<open>Operations\<close>

definition token_instantiate ::
  "'t cw20_base \<Rightarrow> deps \<Rightarrow> env \<Rightarrow> message_info \<Rightarrow> token_init_msg \<Rightarrow> 't token_store
    \<Rightarrow> (payload response \<times> 't token_store) result" where
  "token_instantiate B D env info msg s =
     and_then (addr_validate (api D) (init_token_hub msg)) (\<lambda>hub.
     let s1 = s\<lparr>hub_contract_item := Some hub\<rparr> in
     and_then (on_base (cw20_init B D env info
         \<lparr>token_name = init_name msg, token_symbol = init_symbol msg,
          token_decimals = init_decimals msg, token_initial_balances = init_balances msg,
          token_mint = Some \<lparr>minter_address = init_token_hub msg, minter_cap = None\<rparr>,
          token_marketing = init_marketing msg\<rparr>) s1) (\<lambda>(_, s2).
     Inr (new_response, s2)))"

definition token_burn ::
  "'t cw20_base \<Rightarrow> deps \<Rightarrow> env \<Rightarrow> message_info \<Rightarrow> u128 \<Rightarrow> 't token_store
    \<Rightarrow> (payload response \<times> 't token_store) result" where
  "token_burn B D env info amount s =
     and_then (load_hub_contract s) (\<lambda>hub.
     let ms = [check_slashing_msg hub] @
           (if info_sender info \<noteq> hub then [check_slashing_msg hub] else []) in
     and_then (on_base (cw20_burn B D env info amount) s) (\<lambda>(res, s1).
     Inr (add_attributes (attributes res) (add_messages ms new_response), s1)))"

definition token_burn_from ::
  "'t cw20_base \<Rightarrow> deps \<Rightarrow> env \<Rightarrow> message_info \<Rightarrow> string \<Rightarrow> u128 \<Rightarrow> 't token_store
    \<Rightarrow> (payload response \<times> 't token_store) result" where
  "token_burn_from B D env info owner amount s =
     and_then (load_hub_contract s) (\<lambda>hub.
     and_then (on_base (cw20_burn_from B D env info owner amount) s) (\<lambda>(res, s1).
     Inr (add_attributes (attributes res) (add_messages [check_slashing_msg hub] new_response), s1)))"

definition token_transfer ::
  "'t cw20_base \<Rightarrow> deps \<Rightarrow> env \<Rightarrow> message_info \<Rightarrow> string \<Rightarrow> u128 \<Rightarrow> 't token_store
    \<Rightarrow> (payload response \<times> 't token_store) result" where
  "token_transfer B D env info recipient amount s =
     on_base (cw20_transfer B D env info recipient amount) s"

definition token_mint_op ::
  "'t cw20_base \<Rightarrow> deps \<Rightarrow> env \<Rightarrow> message_info \<Rightarrow> string \<Rightarrow> u128 \<Rightarrow> 't token_store
    \<Rightarrow> (payload response \<times> 't token_store) result" where
  "token_mint_op B D env info recipient amount s =
     on_base (cw20_mint B D env info recipient amount) s"

definition token_send ::
  "'t cw20_base \<Rightarrow> deps \<Rightarrow> env \<Rightarrow> message_info \<Rightarrow> string \<Rightarrow> u128 \<Rightarrow> bytes \<Rightarrow> 't token_store
    \<Rightarrow> (payload response \<times> 't token_store) result" where
  "token_send B D env info recipient amount msg s =
     on_base (cw20_send B D env info recipient amount msg) s"

definition token_transfer_from ::
  "'t cw20_base \<Rightarrow> deps \<Rightarrow> env \<Rightarrow> message_info \<Rightarrow> string \<Rightarrow> string \<Rightarrow> u128 \<Rightarrow> 't token_store
    \<Rightarrow> (payload response \<times> 't token_store) result" where
  "token_transfer_from B D env info owner recipient amount s =
     on_base (cw20_transfer_from B D env info owner recipient amount) s"

definition token_send_from ::
  "'t cw20_base \<Rightarrow> deps \<Rightarrow> env \<Rightarrow> message_info \<Rightarrow> string \<Rightarrow> string \<Rightarrow> u128 \<Rightarrow> bytes \<Rightarrow> 't token_store
    \<Rightarrow> (payload response \<times> 't token_store) result" where
  "token_send_from B D env info owner recipient amount msg s =
     on_base (cw20_send_from B D env info owner recipient amount msg) s"

definition token_update_marketing ::
  "'t cw20_base \<Rightarrow> deps \<Rightarrow> env \<Rightarrow> message_info \<Rightarrow> string option \<Rightarrow> string option \<Rightarrow> string option
    \<Rightarrow> 't token_store \<Rightarrow> (payload response \<times> 't token_store) result" where
  "token_update_marketing B D env info project description marketing s =
     on_base (cw20_update_marketing B D env info project description marketing) s"

definition token_upload_logo ::
  "'t cw20_base \<Rightarrow> deps \<Rightarrow> env \<Rightarrow> message_info \<Rightarrow> logo \<Rightarrow> 't token_store
    \<Rightarrow> (payload response \<times> 't token_store) result" where
  "token_upload_logo B D env info l s = on_base (cw20_upload_logo B D env info l) s"

definition token_execute ::
  "'t cw20_base \<Rightarrow> deps \<Rightarrow> env \<Rightarrow> message_info \<Rightarrow> cw20_execute \<Rightarrow> 't token_store
    \<Rightarrow> (payload response \<times> 't token_store) result" where
  "token_execute B D env info msg s =
     and_then (load_hub_contract s) (\<lambda>hub_addr.
     and_then (is_paused D hub_addr) (\<lambda>stopped.
     if stopped then generic_err ''The contract is temporarily paused''
     else
       (case msg of
          Transfer recipient amount \<Rightarrow> token_transfer B D env info recipient amount s
        | Burn amount \<Rightarrow> token_burn B D env info amount s
        | Send contract amount m \<Rightarrow> token_send B D env info contract amount m s
        | Mint recipient amount \<Rightarrow> token_mint_op B D env info recipient amount s
        | IncreaseAllowance spender amount expires \<Rightarrow>
            on_base (cw20_increase_allowance B D env info spender amount expires) s
        | DecreaseAllowance spender amount expires \<Rightarrow>
            on_base (cw20_decrease_allowance B D env info spender amount expires) s
        | TransferFrom owner recipient amount \<Rightarrow>
            token_transfer_from B D env info owner recipient amount s
        | BurnFrom owner amount \<Rightarrow> token_burn_from B D env info owner amount s
        | SendFrom owner contract amount m \<Rightarrow>
            token_send_from B D env info owner contract amount m s
        | UpdateMarketing project description marketing \<Rightarrow>
            token_update_marketing B D env info project description marketing s
        | UploadLogo l \<Rightarrow> token_upload_logo B D env info l s)))"

text \<open>The queries are those of the library, given here as a function of the storage.\<close>

definition token_query ::
  "(deps \<Rightarrow> env \<Rightarrow> 'q \<Rightarrow> 't \<Rightarrow> 'a result) \<Rightarrow> deps \<Rightarrow> env \<Rightarrow> 'q \<Rightarrow> 't token_store \<Rightarrow> 'a result" where
  "token_query cw20_query D env msg s = cw20_query D env msg (base_store s)"

section \<open>The token as a wrapper\<close>

text \<open>
  The specification of the wrapper: which operation of the library a message stands for, and
  what is added to its response. A burn keeps the attributes and replaces the messages by
  slashing checks.
\<close>

fun slashing_checks :: "addr \<Rightarrow> addr \<Rightarrow> cw20_execute \<Rightarrow> nat" where
  "slashing_checks hub sender (Burn amount) = (if sender = hub then 1 else 2)"
| "slashing_checks hub sender (BurnFrom owner amount) = 1"
| "slashing_checks hub sender msg = 0"

definition wrapped_response ::
  "addr \<Rightarrow> addr \<Rightarrow> cw20_execute \<Rightarrow> payload response \<Rightarrow> payload response" where
  "wrapped_response hub sender msg res =
     (if slashing_checks hub sender msg = 0 then res
      else \<lparr>messages = replicate (slashing_checks hub sender msg) (check_slashing_msg hub),
            attributes = attributes res\<rparr>)"

lemma token_execute_wraps:
  assumes "hub_contract_item s = Some hub" and "is_paused D hub = Inr False"
  shows "token_execute B D env info msg s =
    and_then (base_operation B D env info msg (base_store s)) (\<lambda>(res, t).
      Inr (wrapped_response hub (info_sender info) msg res, s\<lparr>base_store := t\<rparr>))"
  using assms
  by (cases msg; cases "base_operation B D env info msg (base_store s)")
    (auto simp: token_execute_def load_hub_contract_def on_base_def wrapped_response_def
      token_transfer_def token_burn_def token_send_def token_mint_op_def token_transfer_from_def
      token_burn_from_def token_send_from_def token_update_marketing_def token_upload_logo_def
      add_messages_def add_attributes_def new_response_def Let_def numeral_2_eq_2)

lemma token_execute_Inr:
  assumes "token_execute B D env info msg s = Inr (r, s')"
  obtains hub res t where "hub_contract_item s = Some hub" "is_paused D hub = Inr False"
    "base_operation B D env info msg (base_store s) = Inr (res, t)"
    "r = wrapped_response hub (info_sender info) msg res" "s' = s\<lparr>base_store := t\<rparr>"
proof -
  obtain hub where hub: "hub_contract_item s = Some hub" "is_paused D hub = Inr False"
    using assms by (auto simp: token_execute_def load_hub_contract_def result_simps split: if_splits)
  show thesis
    using assms that[OF hub] by (auto simp: token_execute_wraps[OF hub] result_simps)
qed

section \<open>A sample token\<close>

definition token_state :: "u128 \<Rightarrow> u128 \<Rightarrow> cw20_state" where
  "token_state n k = \<lparr>cw20_balances = [(''bob'', n), (''hub'', k)], cw20_allowances = [],
     cw20_minter = Some ''hub'', cw20_supply = n + k\<rparr>"

definition sample_token :: "cw20_state token_store" where
  "sample_token = \<lparr>hub_contract_item = Some ''hub'', base_store = token_state 10 5\<rparr>"

definition empty_token :: "cw20_state token_store" where
  "empty_token = \<lparr>hub_contract_item = None, base_store =
     \<lparr>cw20_balances = [], cw20_allowances = [], cw20_minter = None, cw20_supply = 0\<rparr>\<rparr>"

definition token_deps :: "bool \<Rightarrow> deps" where
  "token_deps stopped = reference_deps (fixed_querier [] None (uatom 0) 0 []
     (sample_parameters\<lparr>paused := Some stopped\<rparr>))"

section \<open>Properties\<close>

text \<open>
  C29: While the hub is not paused, the token behaves as the cw20 library does on its part of the
  storage, on every message and every failure; the registered hub never changes. Only burning
  adds something: the hub is asked to check slashing (once when the hub burns or an allowance is
  used, and twice when a holder burns).
\<close>

theorem token_refines_cw20:
  assumes "hub_contract_item s = Some hub" and "is_paused D hub = Inr False"
  shows "token_execute B D env info msg s =
    and_then (base_operation B D env info msg (base_store s)) (\<lambda>(res, t).
      Inr (wrapped_response hub (info_sender info) msg res, \<lparr>hub_contract_item = Some hub, base_store = t\<rparr>))"
  using token_execute_wraps[OF assms] assms(1) by (cases s) simp

lemma token_refines_cw20_witness:
  "token_execute reference_cw20 (token_deps False) \<lparr>block_seconds = 0, contract_address = ''tok''\<rparr>
      \<lparr>info_sender = ''bob'', info_funds = []\<rparr> (Burn 4) sample_token
    = Inr (\<lparr>messages = [check_slashing_msg ''hub'', check_slashing_msg ''hub''],
            attributes = [(''action'', AttrStr ''burn'')]\<rparr>,
           \<lparr>hub_contract_item = Some ''hub'', base_store = token_state 6 5\<rparr>)"
proof -
  have hub: "hub_contract_item sample_token = Some ''hub''" by (simp add: sample_token_def)
  have run: "is_paused (token_deps False) ''hub'' = Inr False"
    by (simp add: is_paused_def token_deps_def fixed_querier_def)
  have base: "base_operation reference_cw20 (token_deps False)
      \<lparr>block_seconds = 0, contract_address = ''tok''\<rparr> \<lparr>info_sender = ''bob'', info_funds = []\<rparr> (Burn 4)
      (base_store sample_token)
    = Inr (\<lparr>messages = [], attributes = [(''action'', AttrStr ''burn'')]\<rparr>, token_state 6 5)"
    by code_simp
  show ?thesis
    unfolding token_refines_cw20[OF hub run] base
    by (simp add: wrapped_response_def numeral_2_eq_2)
qed

text \<open>
  While the hub is paused every message to the token is refused, also transfers and burns.
\<close>

theorem paused_token_refuses:
  assumes "hub_contract_item s = Some hub" and "is_paused D hub = Inr True"
  shows "token_execute B D env info msg s = generic_err ''The contract is temporarily paused''"
  using assms by (simp add: token_execute_def load_hub_contract_def)

lemma paused_token_refuses_witness:
  "token_execute reference_cw20 (token_deps True) \<lparr>block_seconds = 0, contract_address = ''tok''\<rparr>
      \<lparr>info_sender = ''bob'', info_funds = []\<rparr> (Transfer ''ann'' 4) sample_token
    = generic_err ''The contract is temporarily paused''"
proof (rule paused_token_refuses)
  show "hub_contract_item sample_token = Some ''hub''" by (simp add: sample_token_def)
  show "is_paused (token_deps True) ''hub'' = Inr True"
    by (simp add: is_paused_def token_deps_def fixed_querier_def)
qed

text \<open>
  Instantiating the token registers the validated hub, and sets up the library with the hub as
  the only minter, without a cap, and with the given balances.
\<close>

theorem token_minter_is_hub:
  assumes "token_instantiate B D env info msg s = Inr (r, s')"
  shows "\<exists>hub init res. addr_validate (api D) (init_token_hub msg) = Inr hub
    \<and> hub_contract_item s' = Some hub
    \<and> token_mint init = Some \<lparr>minter_address = init_token_hub msg, minter_cap = None\<rparr>
    \<and> token_initial_balances init = init_balances msg
    \<and> cw20_init B D env info init (base_store s) = Inr (res, base_store s')"
proof -
  let ?init = "\<lparr>token_name = init_name msg, token_symbol = init_symbol msg,
    token_decimals = init_decimals msg, token_initial_balances = init_balances msg,
    token_mint = Some \<lparr>minter_address = init_token_hub msg, minter_cap = None\<rparr>,
    token_marketing = init_marketing msg\<rparr>"
  obtain hub res where "addr_validate (api D) (init_token_hub msg) = Inr hub"
    "hub_contract_item s' = Some hub"
    "cw20_init B D env info ?init (base_store s) = Inr (res, base_store s')"
    using assms by (auto simp: token_instantiate_def on_base_def result_simps Let_def)
  then show ?thesis by (intro exI[of _ hub] exI[of _ ?init] exI[of _ res]) simp
qed

lemma token_minter_is_hub_witness:
  "hub_contract_item (snd (projr (token_instantiate reference_cw20 (token_deps False)
      \<lparr>block_seconds = 0, contract_address = ''tok''\<rparr> \<lparr>info_sender = ''owner'', info_funds = []\<rparr>
      \<lparr>init_name = ''stAtom'', init_symbol = ''STATOM'', init_decimals = 6, init_balances = [],
        init_token_hub = ''hub'', init_marketing = None\<rparr>
      empty_token))) = Some ''hub''"
proof -
  let ?run = "token_instantiate reference_cw20 (token_deps False)
      \<lparr>block_seconds = 0, contract_address = ''tok''\<rparr> \<lparr>info_sender = ''owner'', info_funds = []\<rparr>
      \<lparr>init_name = ''stAtom'', init_symbol = ''STATOM'', init_decimals = 6, init_balances = [],
        init_token_hub = ''hub'', init_marketing = None\<rparr>
      empty_token"
  have "isl ?run = False" by code_simp
  then obtain r s' where run: "?run = Inr (r, s')" by (cases ?run) auto
  show ?thesis using token_minter_is_hub[OF run] run by (auto simp: token_deps_def reference_api_def)
qed

end
