(* ===== verification/World.thy ===== *)
theory World
  imports Hub_Access Hub_Solvency Hub_Requests Registry Dispatcher Token
begin

text \<open>
  The four contracts together. A \<open>world\<close> holds the storage of each contract and the state of the
  chain; a \<open>platform\<close> says at which addresses the contracts are and holds everything that is not
  part of the repository: the number library, the codec, the cw20 library and the chain (its
  queries, its bank and staking modules and all other contracts). The queries a contract makes of
  another contract of the repository are answered from that contract's storage by its own query
  function (\<open>connected\<close>).

  A response's messages are delivered to the contracts later in the same transaction. The
  development does not fix in which order: a transaction is any sequence of deliveries that
  starts with the user's message and ends with nothing left to deliver (\<open>settles\<close>). A delivery
  that fails is no step, since the chain then takes the whole transaction back.
\<close>

section \<open>The contracts and what surrounds them\<close>

record ('t, 'c) world =
  hub_part :: hub_store
  registry_part :: registry_store
  dispatcher_part :: dispatcher_store
  token_part :: "'t token_store"
  chain_part :: 'c

type_synonym envelope = "addr \<times> payload cosmos_msg"

record ('t, 'c) platform =
  hub_at :: addr
  registry_at :: addr
  dispatcher_at :: addr
  token_at :: addr
  number_lib :: num_lib
  codec :: api_lib
  cw20 :: "'t cw20_base"
  supply_of :: "'t \<Rightarrow> u128"
  chain_queries :: "'c \<Rightarrow> querier_lib"
  move_funds :: "addr \<Rightarrow> addr \<Rightarrow> coin list \<Rightarrow> 'c \<Rightarrow> 'c result"
  chain_module :: "addr \<Rightarrow> payload cosmos_msg \<Rightarrow> 'c \<Rightarrow> 'c result"
  other_contract :: "addr \<Rightarrow> payload cosmos_msg \<Rightarrow> 'c \<Rightarrow> (envelope list \<times> 'c) result"

definition contracts :: "('t, 'c) platform \<Rightarrow> addr set" where
  "contracts P = {hub_at P, registry_at P, dispatcher_at P, token_at P}"

definition env_at :: "u64 \<Rightarrow> addr \<Rightarrow> env" where
  "env_at now a = \<lparr>block_seconds = now, contract_address = a\<rparr>"

text \<open>The chain answers the queries about itself and about other contracts.\<close>

definition chain_deps :: "('t, 'c) platform \<Rightarrow> ('t, 'c) world \<Rightarrow> deps" where
  "chain_deps P w = \<lparr>numbers = number_lib P, api = codec P, querier = chain_queries P (chain_part w)\<rparr>"

definition supply_answer :: "('t, 'c) platform \<Rightarrow> ('t, 'c) world \<Rightarrow> addr \<Rightarrow> u128 result" where
  "supply_answer P w a =
     (if a = token_at P then Inr (supply_of P (base_store (token_part w)))
      else query_token_supply (chain_queries P (chain_part w)) a)"

definition validators_answer ::
  "('t, 'c) platform \<Rightarrow> ('t, 'c) world \<Rightarrow> addr \<Rightarrow> validator_response list result" where
  "validators_answer P w a =
     (if a = registry_at P then
        and_then (registry_query (chain_deps P w) GetValidatorsForDelegation (registry_part w)) (\<lambda>x.
        case x of ValidatorsAnswer vs \<Rightarrow> Inr vs | RegistryConfigAnswer c \<Rightarrow> Inl (StdErr ParseErr))
      else query_validators_for_delegation (chain_queries P (chain_part w)) a)"

definition parameters_answer ::
  "('t, 'c) platform \<Rightarrow> u64 \<Rightarrow> ('t, 'c) world \<Rightarrow> addr \<Rightarrow> parameters result" where
  "parameters_answer P now w a =
     (if a = hub_at P then
        and_then (hub_query (chain_deps P w) (env_at now a) QueryParameters (hub_part w)) (\<lambda>x.
        case x of ParametersAnswer p \<Rightarrow> Inr p | _ \<Rightarrow> Inl (StdErr ParseErr))
      else query_hub_parameters (chain_queries P (chain_part w)) a)"

definition connected :: "('t, 'c) platform \<Rightarrow> u64 \<Rightarrow> ('t, 'c) world \<Rightarrow> deps" where
  "connected P now w = \<lparr>numbers = number_lib P, api = codec P,
     querier = (chain_queries P (chain_part w))\<lparr>
       query_token_supply := supply_answer P w,
       query_validators_for_delegation := validators_answer P w,
       query_hub_parameters := parameters_answer P now w\<rparr>\<rparr>"

lemma connected_simps [simp]:
  "numbers (connected P now w) = number_lib P"
  "api (connected P now w) = codec P"
  "query_all_delegations (querier (connected P now w)) = query_all_delegations (chain_queries P (chain_part w))"
  "query_delegation (querier (connected P now w)) = query_delegation (chain_queries P (chain_part w))"
  "query_balance (querier (connected P now w)) = query_balance (chain_queries P (chain_part w))"
  "query_token_supply (querier (connected P now w)) = supply_answer P w"
  "query_validators_for_delegation (querier (connected P now w)) = validators_answer P w"
  "query_hub_parameters (querier (connected P now w)) = parameters_answer P now w"
  by (simp_all add: connected_def)

lemma parameters_answer_hub:
  "parameters_answer P now w (hub_at P) = load_parameters (hub_part w)"
  by (cases "load_parameters (hub_part w)") (simp_all add: parameters_answer_def hub_query_def query_params_def)

section \<open>Delivering messages\<close>

text \<open>
  What a contract reads in a message. Messages travel as JSON, \<open>{"variant": {fields}}\<close> with the
  variant in snake case, so a message written with one contract's type is read by another contract
  that has a variant of the same name: \<open>dispatch_rewards\<close> of the hub and of the dispatcher, and
  \<open>update_config\<close> of hub, registry and dispatcher, all of whose fields are optional. The reader ignores
  fields it does not have and takes a missing field as \<open>None\<close>; \<open>owner\<close> is common to the three,
  \<open>hub_contract\<close> to registry and dispatcher. No other names are shared; the token has none of these.
\<close>

fun hub_reads :: "payload \<Rightarrow> hub_execute_msg option" where
  "hub_reads (HubMsg m) = Some m"
| "hub_reads (DispatcherMsg DispatcherDispatchRewards) = Some DispatchRewards"
| "hub_reads (DispatcherMsg (DispatcherUpdateConfig owner hub_contract denom fee_address fee_rate)) =
     Some (UpdateConfig owner None None None)"
| "hub_reads (RegistryMsg (RegistryUpdateConfig owner hub_contract)) =
     Some (UpdateConfig owner None None None)"
| "hub_reads p = None"

fun registry_reads :: "payload \<Rightarrow> registry_execute_msg option" where
  "registry_reads (RegistryMsg m) = Some m"
| "registry_reads (HubMsg (UpdateConfig owner dispatcher registry token)) =
     Some (RegistryUpdateConfig owner None)"
| "registry_reads (DispatcherMsg (DispatcherUpdateConfig owner hub_contract denom fee_address fee_rate)) =
     Some (RegistryUpdateConfig owner hub_contract)"
| "registry_reads p = None"

fun dispatcher_reads :: "payload \<Rightarrow> dispatcher_execute_msg option" where
  "dispatcher_reads (DispatcherMsg m) = Some m"
| "dispatcher_reads (HubMsg DispatchRewards) = Some DispatcherDispatchRewards"
| "dispatcher_reads (HubMsg (UpdateConfig owner dispatcher registry token)) =
     Some (DispatcherUpdateConfig owner None None None None)"
| "dispatcher_reads (RegistryMsg (RegistryUpdateConfig owner hub_contract)) =
     Some (DispatcherUpdateConfig owner hub_contract None None None)"
| "dispatcher_reads p = None"

fun token_reads :: "payload \<Rightarrow> cw20_execute option" where
  "token_reads (TokenMsg m) = Some m"
| "token_reads p = None"

text \<open>
  The message as the contract at an address reads it, \<open>None\<close> when it does not parse. On a chain the
  four contracts have four addresses, and then the address alone selects the reader; the first
  case only makes the definition total where two of them were given the same address.
\<close>

fun own_address :: "('t, 'c) platform \<Rightarrow> payload \<Rightarrow> addr" where
  "own_address P (HubMsg m) = hub_at P"
| "own_address P (RegistryMsg m) = registry_at P"
| "own_address P (DispatcherMsg m) = dispatcher_at P"
| "own_address P (TokenMsg m) = token_at P"

definition read_at :: "('t, 'c) platform \<Rightarrow> addr \<Rightarrow> payload \<Rightarrow> payload option" where
  "read_at P a p =
     (if a = own_address P p then Some p
      else if a = hub_at P then map_option HubMsg (hub_reads p)
      else if a = registry_at P then map_option RegistryMsg (registry_reads p)
      else if a = dispatcher_at P then map_option DispatcherMsg (dispatcher_reads p)
      else if a = token_at P then map_option TokenMsg (token_reads p)
      else None)"

lemma read_at_own [simp]:
  "read_at P (hub_at P) (HubMsg m) = Some (HubMsg m)"
  "read_at P (registry_at P) (RegistryMsg g) = Some (RegistryMsg g)"
  "read_at P (dispatcher_at P) (DispatcherMsg d) = Some (DispatcherMsg d)"
  "read_at P (token_at P) (TokenMsg t) = Some (TokenMsg t)"
  by (simp_all add: read_at_def)

lemma read_at_address: "read_at P a p = Some q \<Longrightarrow> a = own_address P q"
  by (auto simp: read_at_def split: if_splits)

text \<open>With four addresses, the contract at the address reads the message by its own rules.\<close>

lemma read_at_distinct:
  assumes "distinct [hub_at P, registry_at P, dispatcher_at P, token_at P]"
  shows "read_at P (hub_at P) p = map_option HubMsg (hub_reads p)"
    and "read_at P (registry_at P) p = map_option RegistryMsg (registry_reads p)"
    and "read_at P (dispatcher_at P) p = map_option DispatcherMsg (dispatcher_reads p)"
    and "read_at P (token_at P) p = map_option TokenMsg (token_reads p)"
  using assms by (cases p; auto simp: read_at_def)+

text \<open>A call of one of the contracts.\<close>

definition call_contract ::
  "('t, 'c) platform \<Rightarrow> u64 \<Rightarrow> addr \<Rightarrow> addr \<Rightarrow> payload \<Rightarrow> coin list \<Rightarrow> ('t, 'c) world
    \<Rightarrow> (payload cosmos_msg list \<times> ('t, 'c) world) result" where
  "call_contract P now sender a p funds w =
     (let D = connected P now w; env = env_at now a;
          info = \<lparr>info_sender = sender, info_funds = funds\<rparr> in
      case read_at P a p of
        None \<Rightarrow> Inl (StdErr ParseErr)
      | Some (HubMsg m) \<Rightarrow> and_then (hub_execute D env info m (hub_part w))
          (\<lambda>(r, s). Inr (messages r, w\<lparr>hub_part := s\<rparr>))
      | Some (RegistryMsg m) \<Rightarrow> and_then (registry_execute D env info m (registry_part w))
          (\<lambda>(r, s). Inr (messages r, w\<lparr>registry_part := s\<rparr>))
      | Some (DispatcherMsg m) \<Rightarrow> and_then (dispatcher_execute D env info m (dispatcher_part w))
          (\<lambda>(r, s). Inr (messages r, w\<lparr>dispatcher_part := s\<rparr>))
      | Some (TokenMsg m) \<Rightarrow> and_then (token_execute (cw20 P) D env info m (token_part w))
          (\<lambda>(r, s). Inr (messages r, w\<lparr>token_part := s\<rparr>)))"

text \<open>
  Delivering a message from an account: the funds attached to a call are moved first; the
  messages of the response go out in the name of the contract.
\<close>

definition deliver ::
  "('t, 'c) platform \<Rightarrow> u64 \<Rightarrow> addr \<Rightarrow> payload cosmos_msg \<Rightarrow> ('t, 'c) world
    \<Rightarrow> (envelope list \<times> ('t, 'c) world) result" where
  "deliver P now sender m w =
     (case m of
        WasmExecute a p funds \<Rightarrow>
          if a \<in> contracts P then
            and_then (if funds = [] then Inr (chain_part w) else move_funds P sender a funds (chain_part w)) (\<lambda>c.
            and_then (call_contract P now sender a p funds (w\<lparr>chain_part := c\<rparr>)) (\<lambda>(ms, w').
            Inr (map (Pair a) ms, w')))
          else and_then (other_contract P sender m (chain_part w)) (\<lambda>(ms, c). Inr (ms, w\<lparr>chain_part := c\<rparr>))
      | _ \<Rightarrow> and_then (chain_module P sender m (chain_part w)) (\<lambda>c. Inr ([], w\<lparr>chain_part := c\<rparr>)))"

type_synonym ('t, 'c) pending = "envelope multiset \<times> ('t, 'c) world"

inductive delivery :: "('t, 'c) platform \<Rightarrow> u64 \<Rightarrow> ('t, 'c) pending \<Rightarrow> ('t, 'c) pending \<Rightarrow> bool" for P now where
  delivery: "deliver P now a m w = Inr (ms, w') \<Longrightarrow> delivery P now (add_mset (a, m) M, w) (mset ms + M, w')"

inductive_cases deliveryE: "delivery P now (M, w) (M', w')"

definition settles ::
  "('t, 'c) platform \<Rightarrow> u64 \<Rightarrow> envelope multiset \<Rightarrow> ('t, 'c) world \<Rightarrow> ('t, 'c) world \<Rightarrow> bool" where
  "settles P now M w w' \<longleftrightarrow> (delivery P now)\<^sup>*\<^sup>* (M, w) ({#}, w')"

text \<open>The same with the list of the messages delivered, in their order.\<close>

inductive settled_by ::
  "('t, 'c) platform \<Rightarrow> u64 \<Rightarrow> envelope multiset \<Rightarrow> ('t, 'c) world \<Rightarrow> envelope list \<Rightarrow> ('t, 'c) world \<Rightarrow> bool"
  for P now where
  settled: "settled_by P now {#} w [] w"
| delivered: "deliver P now a m w = Inr (ms, w1) \<Longrightarrow> settled_by P now (mset ms + M) w1 es w2 \<Longrightarrow>
    settled_by P now (add_mset (a, m) M) w ((a, m) # es) w2"

lemma settled_by_settles: "settled_by P now M w es w' \<Longrightarrow> settles P now M w w'"
proof (induction rule: settled_by.induct)
  case (delivered a m w ms w1 M es w2)
  then show ?case using delivery.delivery[OF delivered(1), of M]
    by (simp add: settles_def converse_rtranclp_into_rtranclp)
qed (simp add: settles_def)

lemma settled_by_all: "settled_by P now M w es w' \<Longrightarrow> M \<subseteq># mset es"
proof (induction rule: settled_by.induct)
  case (delivered a m w ms w1 M es w2)
  have "M \<subseteq># mset ms + M" by simp
  then have "M \<subseteq># mset es" using delivered(3) by (rule subset_mset.order_trans)
  then show ?case by simp
qed simp

section \<open>Reachable worlds\<close>

text \<open>
  The contracts are instantiated on empty storage, in any order and by anyone; afterwards any
  account but the contracts sends transactions, and the chain changes on its own.
\<close>

inductive world_reachable :: "('t, 'c) platform \<Rightarrow> ('t, 'c) world \<Rightarrow> bool" for P where
  start: "hub_instantiate henv hinfo hmsg empty_hub = Inr (r1, h) \<Longrightarrow>
    registry_instantiate RD rinfo rmsg empty_registry = Inr (r2, g) \<Longrightarrow>
    dispatcher_instantiate DD dinfo dmsg \<lparr>dispatcher_config_item = None\<rparr> = Inr (r3, d) \<Longrightarrow>
    token_instantiate (cw20 P) TD tenv tinfo tmsg \<lparr>hub_contract_item = None, base_store = t0\<rparr> = Inr (r4, t) \<Longrightarrow>
    world_reachable P \<lparr>hub_part = h, registry_part = g, dispatcher_part = d, token_part = t, chain_part = c\<rparr>"
| transaction: "world_reachable P w \<Longrightarrow> sender \<notin> contracts P \<Longrightarrow> settles P now {#(sender, m)#} w w' \<Longrightarrow>
    world_reachable P w'"
| chain: "world_reachable P w \<Longrightarrow> world_reachable P (w\<lparr>chain_part := c\<rparr>)"

section \<open>What a delivery does\<close>

text \<open>Every delivery runs one handler of one contract, or changes the chain only.\<close>

lemma call_contract_cases:
  assumes "call_contract P now sender a p funds w = Inr (ms, w')"
  obtains (hub) m r s where "read_at P a p = Some (HubMsg m)" "a = hub_at P" "ms = messages r" "w' = w\<lparr>hub_part := s\<rparr>"
      "hub_execute (connected P now w) (env_at now a) \<lparr>info_sender = sender, info_funds = funds\<rparr> m (hub_part w) = Inr (r, s)"
  | (registry) m r s where "read_at P a p = Some (RegistryMsg m)" "a = registry_at P" "ms = messages r" "w' = w\<lparr>registry_part := s\<rparr>"
      "registry_execute (connected P now w) (env_at now a) \<lparr>info_sender = sender, info_funds = funds\<rparr> m (registry_part w) = Inr (r, s)"
  | (dispatcher) m r s where "read_at P a p = Some (DispatcherMsg m)" "a = dispatcher_at P" "ms = messages r" "w' = w\<lparr>dispatcher_part := s\<rparr>"
      "dispatcher_execute (connected P now w) (env_at now a) \<lparr>info_sender = sender, info_funds = funds\<rparr> m (dispatcher_part w) = Inr (r, s)"
  | (token) m r s where "read_at P a p = Some (TokenMsg m)" "a = token_at P" "ms = messages r" "w' = w\<lparr>token_part := s\<rparr>"
      "token_execute (cw20 P) (connected P now w) (env_at now a) \<lparr>info_sender = sender, info_funds = funds\<rparr> m (token_part w) = Inr (r, s)"
proof -
  obtain q where q: "read_at P a p = Some q"
    using assms by (cases "read_at P a p") (simp_all add: call_contract_def Let_def)
  note a = read_at_address[OF q]
  show thesis
    by (cases q)
      (use assms q a in \<open>auto simp: call_contract_def Let_def result_simps split: prod.splits
         intro: hub registry dispatcher token\<close>)
qed

lemma deliver_cases:
  assumes "deliver P now sender m w = Inr (ms, w')"
  obtains (chain) c where "w' = w\<lparr>chain_part := c\<rparr>" "ms = []" "\<not> is_WasmExecute m"
  | (other) c a p funds where "w' = w\<lparr>chain_part := c\<rparr>" "m = WasmExecute a p funds" "a \<notin> contracts P"
      "other_contract P sender m (chain_part w) = Inr (ms, c)"
  | (contract) c a p funds ms' where "m = WasmExecute a p funds" "a \<in> contracts P" "ms = map (Pair a) ms'"
      "funds = [] \<Longrightarrow> c = chain_part w" "funds \<noteq> [] \<Longrightarrow> move_funds P sender a funds (chain_part w) = Inr c"
      "call_contract P now sender a p funds (w\<lparr>chain_part := c\<rparr>) = Inr (ms', w')"
  using assms
  by (cases m) (auto simp: deliver_def result_simps split: if_splits prod.splits)

end
