(* ===== verification/World_Samples.thy ===== *)
theory World_Samples
  imports World
begin

text \<open>
  A small chain on which whole transactions run, and two worlds: one just after all contracts have
  been instantiated, one in the middle of its life around \<open>sample_hub\<close>. The chain keeps balances
  in one denomination; it reports fixed delegations and carries out staking messages without
  moving coins. \<open>run_all\<close> delivers the messages of a transaction depth first.
\<close>

type_synonym sample_chain = "(string \<times> u128) list"

definition chain_answers :: "sample_chain \<Rightarrow> querier_lib" where
  "chain_answers c = \<lparr>
     query_all_delegations = (\<lambda>a. Inr (if a = ''hub'' then
       [\<lparr>delegation_validator = ''a'', delegation_coin = uatom 60\<rparr>,
        \<lparr>delegation_validator = ''b'', delegation_coin = uatom 35\<rparr>] else [])),
     query_delegation = (\<lambda>a v. Inr (if a = ''hub'' \<and> v = ''a'' then Some \<lparr>full_validator = ''a'',
        full_amount = uatom 60, full_can_redelegate = uatom 60\<rparr> else None)),
     query_balance = (\<lambda>a d. Inr \<lparr>coin_denom = d, coin_amount = (if d = ''uatom'' then amount_at c a else 0)\<rparr>),
     query_token_supply = (\<lambda>a. Inl (StdErr NotFound)),
     query_validators_for_delegation = (\<lambda>a. Inl (StdErr NotFound)),
     query_hub_parameters = (\<lambda>a. Inl (StdErr NotFound))\<rparr>"

fun move_coins :: "addr \<Rightarrow> addr \<Rightarrow> coin list \<Rightarrow> sample_chain \<Rightarrow> sample_chain result" where
  "move_coins a b [] c = Inr c"
| "move_coins a b (x # xs) c = and_then (take_from a (coin_amount x) c) (\<lambda>c1.
     and_then (add_to b (coin_amount x) c1) (move_coins a b xs))"

definition sample_module :: "addr \<Rightarrow> payload cosmos_msg \<Rightarrow> sample_chain \<Rightarrow> sample_chain result" where
  "sample_module a m c = (case m of BankSend b coins \<Rightarrow> move_coins a b coins c | _ \<Rightarrow> Inr c)"

definition sample_platform :: "(cw20_state, sample_chain) platform" where
  "sample_platform = \<lparr>hub_at = ''hub'', registry_at = ''reg'', dispatcher_at = ''disp'', token_at = ''tok'',
     number_lib = reference_num, codec = reference_api, cw20 = reference_cw20, supply_of = cw20_supply,
     chain_queries = chain_answers, move_funds = move_coins, chain_module = sample_module,
     other_contract = (\<lambda>a m c. Inr ([], c))\<rparr>"

lemma sample_platform_simps [simp]:
  "hub_at sample_platform = ''hub''" "registry_at sample_platform = ''reg''"
  "dispatcher_at sample_platform = ''disp''" "token_at sample_platform = ''tok''"
  "number_lib sample_platform = reference_num" "codec sample_platform = reference_api"
  "cw20 sample_platform = reference_cw20" "supply_of sample_platform = cw20_supply"
  by (simp_all add: sample_platform_def)

lemma sample_platform_laws:
  "bignum_laws (number_lib sample_platform)" "decimal_laws (number_lib sample_platform)"
  "uint128_laws (number_lib sample_platform)" "codec_laws (codec sample_platform)"
  "cw20_laws (cw20 sample_platform) (supply_of sample_platform)"
  by (simp_all add: reference.bignum_laws_axioms reference.decimal_laws_axioms
      reference.uint128_laws_axioms reference_codec.codec_laws_axioms reference_cw20.cw20_laws_axioms)

fun run_all ::
  "nat \<Rightarrow> ('t, 'c) platform \<Rightarrow> u64 \<Rightarrow> envelope list \<Rightarrow> ('t, 'c) world \<Rightarrow> ('t, 'c) world option" where
  "run_all n P now [] w = Some w"
| "run_all 0 P now (e # es) w = None"
| "run_all (Suc n) P now ((a, m) # es) w =
     (case deliver P now a m w of Inl f \<Rightarrow> None | Inr (ms, w') \<Rightarrow> run_all n P now (ms @ es) w')"

lemma run_all_settles: "run_all n P now es w = Some w' \<Longrightarrow> settles P now (mset es) w w'"
proof (induction n P now es w rule: run_all.induct)
  case (1 n P now w)
  then show ?case by (simp add: settles_def)
next
  case (3 n P now a m es w)
  then obtain ms w1 where step: "deliver P now a m w = Inr (ms, w1)"
    and "run_all n P now (ms @ es) w1 = Some w'"
    by (auto split: sum.splits)
  then have "(delivery P now)\<^sup>*\<^sup>* (mset ms + mset es, w1) ({#}, w')"
    using 3(1)[OF step refl] by (simp add: settles_def)
  moreover have "delivery P now (add_mset (a, m) (mset es), w) (mset ms + mset es, w1)"
    using step by (rule delivery.delivery)
  ultimately show ?case by (simp add: settles_def converse_rtranclp_into_rtranclp)
qed simp

definition user_message :: "addr \<Rightarrow> payload \<Rightarrow> addr \<Rightarrow> coin list \<Rightarrow> envelope" where
  "user_message sender p contract funds = (sender, WasmExecute contract p funds)"

definition after_tx :: "u64 \<Rightarrow> envelope \<Rightarrow> (cw20_state, sample_chain) world \<Rightarrow> (cw20_state, sample_chain) world" where
  "after_tx now e w = the (run_all 20 sample_platform now [e] w)"

lemma after_tx_settles:
  assumes "\<not> Option.is_none (run_all 20 sample_platform now [e] w)"
  shows "settles sample_platform now {#e#} w (after_tx now e w)"
  using assms run_all_settles[of 20 sample_platform now "[e]" w] by (auto simp: after_tx_def Option.is_none_def)

definition sample_world :: "(cw20_state, sample_chain) world" where
  "sample_world = \<lparr>hub_part = sample_hub, registry_part = sample_registry,
     dispatcher_part = sample_dispatcher,
     token_part = \<lparr>hub_contract_item = Some ''hub'', base_store =
       \<lparr>cw20_balances = [(''ann'', 40), (''bob'', 45)], cw20_allowances = [],
        cw20_minter = Some ''hub'', cw20_supply = 85\<rparr>\<rparr>,
     chain_part = [(''disp'', 40), (''hub'', 20)]\<rparr>"

definition new_token :: "cw20_state token_store" where
  "new_token = snd (projr (token_instantiate reference_cw20 (token_deps False) (env_at 100 ''tok'') owner_info
     \<lparr>init_name = ''stAtom'', init_symbol = ''STATOM'', init_decimals = 6, init_balances = [],
      init_token_hub = ''hub'', init_marketing = None\<rparr> empty_token))"

definition new_world :: "(cw20_state, sample_chain) world" where
  "new_world = \<lparr>hub_part = run_start,
     registry_part = \<lparr>registry_config = Some \<lparr>registry_owner = ''owner'', registry_hub = ''hub''\<rparr>,
       registry_validators = [(''a'', Validator ''a'')]\<rparr>,
     dispatcher_part = sample_dispatcher, token_part = new_token, chain_part = []\<rparr>"

lemma new_world_reachable: "world_reachable sample_platform new_world"
  unfolding new_world_def
proof (rule world_reachable.start)
  show "hub_instantiate (at_time 100) (call_from ''owner'' [])
     \<lparr>init_epoch_period = 30, init_underlying_coin_denom = ''uatom'', init_unbonding_period = 10\<rparr>
     empty_hub = Inr (new_response, run_start)"
    by (simp add: run_start_def hub_instantiate_def Let_def)
  show "registry_instantiate sample_registry_deps owner_info
     \<lparr>init_registry = [Validator ''a''], init_hub_contract = ''hub''\<rparr> empty_registry
    = Inr (new_response, \<lparr>registry_config = Some \<lparr>registry_owner = ''owner'', registry_hub = ''hub''\<rparr>,
       registry_validators = [(''a'', Validator ''a'')]\<rparr>)"
    by code_simp
  show "dispatcher_instantiate sample_registry_deps owner_info
     \<lparr>init_dispatcher_hub = ''hub'', init_reward_denom = ''uatom'', init_fee_address = ''fee'',
      init_fee_rate = Decimal 50000000000000000\<rparr> \<lparr>dispatcher_config_item = None\<rparr>
    = Inr (new_response, sample_dispatcher)"
    by code_simp
  show "token_instantiate (cw20 sample_platform) (token_deps False) (env_at 100 ''tok'') owner_info
     \<lparr>init_name = ''stAtom'', init_symbol = ''STATOM'', init_decimals = 6, init_balances = [],
      init_token_hub = ''hub'', init_marketing = None\<rparr> \<lparr>hub_contract_item = None, base_store =
     \<lparr>cw20_balances = [], cw20_allowances = [], cw20_minter = None, cw20_supply = 0\<rparr>\<rparr> = Inr (new_response, new_token)"
    by code_simp
qed

end
