(* ===== verification/Transactions.thy ===== *)
theory Transactions
  imports World_Samples
begin

text \<open>
  Whole transactions over all four contracts, whichever order their messages are delivered in:
  each contract of a reachable world is in a state it can reach alone, every transaction ends,
  and a paused hub freezes itself and the token until its owner acts.
\<close>

section \<open>The messages a handler emits\<close>

text \<open>
  A rank for messages: a handler only emits messages of a lower rank than the one it handles.
  The chain's own messages have rank zero.
\<close>

fun hub_rank :: "hub_execute_msg \<Rightarrow> nat" where
  "hub_rank DispatchRewards = 4"
| "hub_rank (Receive m) = 3"
| "hub_rank BondForStAtom = 2"
| "hub_rank hub_execute_msg.BondRewards = 2"
| "hub_rank msg = 1"

fun token_rank :: "cw20_execute \<Rightarrow> nat" where
  "token_rank (Send contract amount m) = 4"
| "token_rank (SendFrom owner contract amount m) = 4"
| "token_rank (Burn amount) = 2"
| "token_rank (BurnFrom owner amount) = 2"
| "token_rank msg = 1"

fun dispatcher_rank :: "dispatcher_execute_msg \<Rightarrow> nat" where
  "dispatcher_rank DispatcherDispatchRewards = 3"
| "dispatcher_rank msg = 1"

fun registry_rank :: "registry_execute_msg \<Rightarrow> nat" where
  "registry_rank (RemoveValidator v) = 5"
| "registry_rank msg = 1"

fun payload_rank :: "payload \<Rightarrow> nat" where
  "payload_rank (HubMsg m) = hub_rank m"
| "payload_rank (TokenMsg m) = token_rank m"
| "payload_rank (DispatcherMsg m) = dispatcher_rank m"
| "payload_rank (RegistryMsg m) = registry_rank m"

fun rank :: "payload cosmos_msg \<Rightarrow> nat" where
  "rank (WasmExecute a p funds) = payload_rank p"
| "rank m = 0"

definition below :: "nat \<Rightarrow> payload cosmos_msg list \<Rightarrow> bool" where
  "below n ms \<longleftrightarrow> (\<forall>m \<in> set ms. rank m < n)"

lemma below_simps [simp]:
  "below n []"
  "below n (m # ms) \<longleftrightarrow> rank m < n \<and> below n ms"
  "below n (ms @ ms') \<longleftrightarrow> below n ms \<and> below n ms'"
  by (auto simp: below_def)

lemma below_delegate [simp]: "0 < n \<Longrightarrow> below n (delegate_messages denom shares)"
  by (auto simp: below_def delegate_messages_def)

lemma bond_below:
  assumes "execute_bond D env info ty s = Inr (r, s')"
  shows "below 2 (messages r)"
  using assms
  by (auto simp: execute_bond_def result_simps Let_def split: if_splits prod.splits)

lemma undelegate_below: "undelegate D claim delegator s = Inr ms \<Longrightarrow> below 3 ms"
  by (auto simp: undelegate_def result_simps Let_def below_def)

lemma unbond_below:
  assumes "execute_unbond_statom D env amount user s = Inr (r, s')"
  shows "below 3 (messages r)"
proof (rule execute_unbond_Inr[OF assms])
  fix p b st requested s2 passed undelegations b2 st2 s3 token
  assume step: "(if passed > epoch_period p
      then process_undelegations D env (b\<lparr>requested_statom := requested\<rparr>) st s2
      else Inr ([], b\<lparr>requested_statom := requested\<rparr>, st, s2)) = Inr (undelegations, b2, st2, s3)"
    and r: "messages r = undelegations @ [WasmExecute token (TokenMsg (Burn amount)) []]"
  have "below 3 undelegations"
    using step by (auto elim!: process_undelegations_Inr dest: undelegate_below split: if_splits)
  then show ?thesis by (simp add: r)
qed

lemma hub_below:
  assumes "hub_execute D env info m s = Inr (r, s')"
  shows "below (hub_rank m) (messages r)"
proof (cases m)
  case BondForStAtom
  then show ?thesis using assms by (auto simp: hub_execute_def dest: bond_below)
next
  case BondRewards
  then show ?thesis using assms by (auto simp: hub_execute_def dest: bond_below)
next
  case (Receive x)
  then show ?thesis using assms by (auto simp: hub_execute_def dest: unbond_below elim!: receive_Inr)
next
  case WithdrawUnbonded
  then show ?thesis using assms by (auto simp: hub_execute_def elim!: execute_withdraw_Inr)
next
  case (UpdateConfig owner dispatcher registry token)
  then show ?thesis using assms
    by (auto simp: hub_execute_def execute_update_config_def update_dispatcher_def result_simps
        split: if_splits prod.splits option.splits)
qed (use assms in \<open>auto simp: hub_execute_def execute_update_params_def execute_pause_contracts_def
       execute_unpause_contracts_def execute_dispatch_rewards_def withdraw_all_rewards_def
       execute_redelegate_proxy_def execute_slashing_def execute_add_guardians_def
       execute_remove_guardians_def result_simps Let_def below_def split: if_splits prod.splits\<close>)

lemma registry_below:
  assumes "registry_execute D env info m s = Inr (r, s')"
  shows "below (registry_rank m) (messages r)"
proof (cases m)
  case (RemoveValidator removed)
  have "below 5 ms" if "removal_messages D hub removed vs = Inr ms" for hub vs ms
    using that by (auto simp: removal_messages_def result_simps Let_def
        split: sum.splits option.splits if_splits failure.splits)
  then show ?thesis using assms RemoveValidator
    by (auto simp: registry_execute_def remove_validator_def result_simps Let_def split: if_splits)
qed (use assms in \<open>auto simp: registry_execute_def add_validator_def registry_update_config_def
       result_simps Let_def split: if_splits option.splits\<close>)

lemma dispatcher_below:
  assumes "dispatcher_execute D env info m s = Inr (r, s')"
  shows "below (dispatcher_rank m) (messages r)"
  using assms
  by (cases m) (auto simp: dispatcher_execute_def dispatcher_dispatch_rewards_def
      dispatcher_update_config_def result_simps Let_def split: if_splits)

context cw20_laws
begin

lemma token_below:
  assumes "token_execute B D env info m s = Inr (r, s')"
  shows "below (token_rank m) (messages r)"
proof (rule token_execute_Inr[OF assms])
  fix hub res t
  assume "base_operation B D env info m (base_store s) = Inr (res, t)"
    and r: "r = wrapped_response hub (info_sender info) m res"
  then have res: "messages res = notices (info_sender info) m" by (simp add: library_messages)
  show ?thesis
    by (cases m) (auto simp: r res wrapped_response_def check_slashing_msg_def below_def)
qed

end

section \<open>The hub as its own dispatcher\<close>

text \<open>
  The hub's \<open>dispatch_rewards\<close> ends with a \<open>dispatch_rewards\<close> for its rewards dispatcher. If the hub
  itself is registered as that, it reads this message as its own, and so on for ever.
\<close>

definition own_dispatcher :: "('t, 'c) platform \<Rightarrow> ('t, 'c) world \<Rightarrow> bool" where
  "own_dispatcher P w \<longleftrightarrow>
     (\<exists>c. load_config (hub_part w) = Inr c \<and> reward_dispatcher_contract c = Some (hub_at P))"

definition appoints_hub :: "('t, 'c) platform \<Rightarrow> payload cosmos_msg \<Rightarrow> bool" where
  "appoints_hub P m \<longleftrightarrow> (\<exists>a owner d registry token funds.
     m = WasmExecute a (HubMsg (UpdateConfig owner (Some d) registry token)) funds
     \<and> addr_validate (codec P) d = Inr (hub_at P))"

text \<open>
  What a handler emits besides: only the hub writes to a dispatcher, to the one it has registered,
  and nobody writes an \<open>update_config\<close>.
\<close>

fun modest_message :: "addr option \<Rightarrow> payload cosmos_msg \<Rightarrow> bool" where
  "modest_message dispatcher (WasmExecute a (DispatcherMsg x) funds) = (dispatcher = Some a)"
| "modest_message dispatcher (WasmExecute a (HubMsg (UpdateConfig owner d registry token)) funds) = False"
| "modest_message dispatcher m = True"

definition modest :: "addr option \<Rightarrow> payload cosmos_msg list \<Rightarrow> bool" where
  "modest dispatcher ms \<longleftrightarrow> (\<forall>m \<in> set ms. modest_message dispatcher m)"

lemma modest_simps [simp]:
  "modest d []"
  "modest d (m # ms) \<longleftrightarrow> modest_message d m \<and> modest d ms"
  "modest d (ms @ ms') \<longleftrightarrow> modest d ms \<and> modest d ms'"
  by (auto simp: modest_def)

lemma modest_chain: "\<forall>m \<in> set ms. \<not> is_WasmExecute m \<Longrightarrow> modest d ms"
  unfolding modest_def by (metis cosmos_msg.disc(1) modest_message.elims(3))

lemma modest_delegate [simp]: "modest d (delegate_messages denom shares)"
  by (rule modest_chain) (auto simp: delegate_messages_def)

lemma bond_modest:
  assumes "execute_bond D env info ty s = Inr (r, s')"
  shows "modest d (messages r)"
  using assms
  by (auto simp: execute_bond_def result_simps Let_def split: if_splits prod.splits)

lemma undelegate_modest: "undelegate D claim delegator s = Inr ms \<Longrightarrow> modest d ms"
  by (rule modest_chain) (auto simp: undelegate_def result_simps Let_def)

lemma unbond_modest:
  assumes "execute_unbond_statom D env amount user s = Inr (r, s')"
  shows "modest d (messages r)"
proof (rule execute_unbond_Inr[OF assms])
  fix p b st requested s2 passed undelegations b2 st2 s3 token
  assume step: "(if passed > epoch_period p
      then process_undelegations D env (b\<lparr>requested_statom := requested\<rparr>) st s2
      else Inr ([], b\<lparr>requested_statom := requested\<rparr>, st, s2)) = Inr (undelegations, b2, st2, s3)"
    and r: "messages r = undelegations @ [WasmExecute token (TokenMsg (Burn amount)) []]"
  have "modest d undelegations"
    using step by (auto elim!: process_undelegations_Inr dest: undelegate_modest split: if_splits)
  then show ?thesis by (simp add: r)
qed

lemma hub_modest:
  assumes "hub_execute D env info m s = Inr (r, s')" and "load_config s = Inr c"
  shows "modest (reward_dispatcher_contract c) (messages r)"
proof (cases m)
  case BondForStAtom
  then show ?thesis using assms by (auto simp: hub_execute_def dest: bond_modest)
next
  case BondRewards
  then show ?thesis using assms by (auto simp: hub_execute_def dest: bond_modest)
next
  case (Receive x)
  then show ?thesis using assms by (auto simp: hub_execute_def dest: unbond_modest elim!: receive_Inr)
next
  case WithdrawUnbonded
  then show ?thesis using assms by (auto simp: hub_execute_def elim!: execute_withdraw_Inr)
next
  case DispatchRewards
  then show ?thesis using assms
    by (auto simp: hub_execute_def execute_dispatch_rewards_def withdraw_all_rewards_def result_simps
        modest_def split: if_splits)
next
  case (UpdateConfig owner dispatcher registry token)
  then show ?thesis using assms
    by (auto simp: hub_execute_def execute_update_config_def update_dispatcher_def result_simps
        split: if_splits prod.splits option.splits)
qed (use assms in \<open>auto simp: hub_execute_def execute_update_params_def execute_pause_contracts_def
       execute_unpause_contracts_def execute_redelegate_proxy_def execute_slashing_def
       execute_add_guardians_def execute_remove_guardians_def result_simps Let_def modest_def
       split: if_splits prod.splits\<close>)

lemma registry_modest:
  assumes "registry_execute D env info m s = Inr (r, s')"
  shows "modest d (messages r)"
proof (cases m)
  case (RemoveValidator removed)
  have "modest d ms" if "removal_messages D hub removed vs = Inr ms" for hub vs ms
    using that by (auto simp: removal_messages_def result_simps Let_def
        split: sum.splits option.splits if_splits failure.splits)
  then show ?thesis using assms RemoveValidator
    by (auto simp: registry_execute_def remove_validator_def result_simps Let_def split: if_splits)
qed (use assms in \<open>auto simp: registry_execute_def add_validator_def registry_update_config_def
       result_simps Let_def split: if_splits option.splits\<close>)

lemma dispatcher_modest:
  assumes "dispatcher_execute D env info m s = Inr (r, s')"
  shows "modest d (messages r)"
  using assms
  by (cases m) (auto simp: dispatcher_execute_def dispatcher_dispatch_rewards_def
      dispatcher_update_config_def result_simps Let_def split: if_splits)

lemma token_modest:
  assumes "cw20_laws B supply" and "token_execute B D env info m s = Inr (r, s')"
  shows "modest d (messages r)"
proof (rule token_execute_Inr[OF assms(2)])
  fix hub res t
  assume "base_operation B D env info m (base_store s) = Inr (res, t)"
    and r: "r = wrapped_response hub (info_sender info) m res"
  then have res: "messages res = notices (info_sender info) m"
    using cw20_laws.library_messages[OF assms(1)] by simp
  show ?thesis
    by (cases m) (auto simp: r res wrapped_response_def check_slashing_msg_def modest_def)
qed

text \<open>Only an \<open>update_config\<close> that names a new dispatcher changes it.\<close>

definition registered_dispatcher :: "hub_store \<Rightarrow> addr option" where
  "registered_dispatcher s = Option.bind (config_item s) reward_dispatcher_contract"

lemma update_config_dispatcher:
  assumes "execute_update_config D info owner dispatcher token registry s = Inr (r, s')"
  shows "registered_dispatcher s' = registered_dispatcher s
    \<or> (\<exists>x d. dispatcher = Some x \<and> addr_validate (api D) x = Inr d \<and> registered_dispatcher s' = Some d)"
proof -
  obtain s1 s2 s3 ms where parts: "update_owner D owner s = Inr s1"
    "update_dispatcher D dispatcher s1 = Inr (ms, s2)" "update_token D token s2 = Inr s3"
    "update_registry D registry s3 = Inr s'"
    using assms by (auto simp: execute_update_config_def result_simps split: if_splits)
  have "registered_dispatcher s1 = registered_dispatcher s"
    using parts(1) by (auto simp: update_owner_def registered_dispatcher_def load_config_def
        save_config_def result_simps split: option.splits)
  moreover have "registered_dispatcher s2 = registered_dispatcher s1
    \<or> (\<exists>x d. dispatcher = Some x \<and> addr_validate (api D) x = Inr d \<and> registered_dispatcher s2 = Some d)"
    using parts(2) by (auto simp: update_dispatcher_def registered_dispatcher_def load_config_def
        save_config_def result_simps split: option.splits)
  moreover have "registered_dispatcher s3 = registered_dispatcher s2"
    using parts(3) by (auto simp: update_token_def registered_dispatcher_def load_config_def
        save_config_def result_simps split: option.splits if_splits)
  moreover have "registered_dispatcher s' = registered_dispatcher s3"
    using parts(4) by (auto simp: update_registry_def registered_dispatcher_def load_config_def
        save_config_def result_simps split: option.splits)
  ultimately show ?thesis by simp
qed

lemma hub_dispatcher_changes:
  assumes "hub_execute D env info m s = Inr (r, s')"
  shows "registered_dispatcher s' = registered_dispatcher s
    \<or> (\<exists>owner x registry token d. m = UpdateConfig owner (Some x) registry token
        \<and> addr_validate (api D) x = Inr d \<and> registered_dispatcher s' = Some d)"
proof (cases "\<exists>owner x registry token. m = UpdateConfig owner x registry token")
  case True
  then obtain owner x registry token where m: "m = UpdateConfig owner x registry token" by blast
  then have "execute_update_config D info owner x token registry s = Inr (r, s')"
    using assms by (simp add: hub_execute_def)
  from update_config_dispatcher[OF this] m show ?thesis by auto
next
  case False
  have "config_item s' = config_item s"
  proof (cases "owner_message m \<or> m = PauseContracts")
    case True
    with assms False show ?thesis
      by (cases m) (auto simp: owner_message_def hub_execute_def execute_pause_contracts_def
          execute_unpause_contracts_def execute_update_params_def execute_add_guardians_def
          execute_remove_guardians_def foldl_guardians_frame save_parameters_def
          foldl_guardians_frame[of "\<lambda>g. kv_set g True"] result_simps Let_def split: if_splits)
  qed (use other_messages_admin[OF assms] in \<open>simp add: same_admin_def\<close>)
  then show ?thesis by (simp add: registered_dispatcher_def)
qed

section \<open>Every transaction ends\<close>

definition quiet :: "('t, 'c) platform \<Rightarrow> bool" where
  "quiet P \<longleftrightarrow> (\<forall>a m c ms c'. other_contract P a m c = Inr (ms, c') \<longrightarrow> ms = [])"

text \<open>A pending message counts with the rank it has where it arrives.\<close>

fun arrival_rank :: "('t, 'c) platform \<Rightarrow> payload cosmos_msg \<Rightarrow> nat" where
  "arrival_rank P (WasmExecute a p funds) =
     (if a = hub_at P \<and> p = DispatcherMsg DispatcherDispatchRewards then 4 else payload_rank p)"
| "arrival_rank P m = 0"

lemma read_rank: "read_at P a p = Some q \<Longrightarrow> payload_rank q \<le> arrival_rank P (WasmExecute a p funds)"
  by (cases p rule: hub_reads.cases; cases p rule: registry_reads.cases;
      cases p rule: dispatcher_reads.cases)
    (auto simp: read_at_def split: if_splits)

lemma read_config:
  "read_at P a p = Some (HubMsg (UpdateConfig owner (Some d) registry token)) \<Longrightarrow>
    p = HubMsg (UpdateConfig owner (Some d) registry token)"
  by (cases p rule: hub_reads.cases) (auto simp: read_at_def split: if_splits)

lemma arrival_modest:
  assumes "modest d ms" and "below n ms" and "d \<noteq> Some (hub_at P)" and "m \<in> set ms"
  shows "arrival_rank P m < n" and "\<not> appoints_hub P m"
proof -
  have m: "rank m < n" "modest_message d m" using assms by (auto simp: below_def modest_def)
  with assms(3) show "arrival_rank P m < n" by (cases m) auto
  from m(2) show "\<not> appoints_hub P m" by (auto simp: appoints_hub_def)
qed

lemma call_below:
  assumes "cw20_laws (cw20 P) (supply_of P)" and "\<not> own_dispatcher P w"
    and "call_contract P now sender a p funds w = Inr (ms, w')"
  shows "\<exists>d. d \<noteq> Some (hub_at P) \<and> modest d ms \<and> below (arrival_rank P (WasmExecute a p funds')) ms"
proof -
  have rank: "below (arrival_rank P (WasmExecute a p funds')) ms"
    if "read_at P a p = Some q" "below (payload_rank q) ms" for q
    using that read_rank[of P a p q funds'] by (auto simp: below_def)
  from assms(3) show ?thesis
  proof (cases rule: call_contract_cases)
    case (hub m r s)
    show ?thesis
    proof (cases "load_config (hub_part w)")
      case (Inr c)
      then have "reward_dispatcher_contract c \<noteq> Some (hub_at P)"
        using assms(2) by (auto simp: own_dispatcher_def)
      with hub_modest[OF hub(5) Inr] hub_below[OF hub(5)] rank[OF hub(1)] hub(3) show ?thesis by auto
    next
      case (Inl e)
      with hub(5) have "modest None (messages r)"
        by (cases m) (auto simp: hub_execute_def execute_bond_def execute_dispatch_rewards_def
            execute_update_config_def execute_redelegate_proxy_def execute_pause_contracts_def
            execute_unpause_contracts_def execute_update_params_def execute_add_guardians_def
            execute_remove_guardians_def execute_slashing_def receive_cw20_def
            result_simps split: if_splits elim!: execute_withdraw_Inr)
      with hub_below[OF hub(5)] rank[OF hub(1)] hub(3) show ?thesis by auto
    qed
  next
    case (registry m r s)
    with registry_modest[OF registry(5)] registry_below[OF registry(5)] rank[OF registry(1)]
    show ?thesis by auto
  next
    case (dispatcher m r s)
    with dispatcher_modest[OF dispatcher(5)] dispatcher_below[OF dispatcher(5)] rank[OF dispatcher(1)]
    show ?thesis by auto
  next
    case (token m r s)
    with token_modest[OF assms(1) token(5)] cw20_laws.token_below[OF assms(1) token(5)] rank[OF token(1)]
    show ?thesis by auto
  qed
qed

lemma delivered_below:
  assumes "cw20_laws (cw20 P) (supply_of P)" and "quiet P" and "\<not> own_dispatcher P w"
    and "deliver P now sender m w = Inr (ms, w')"
  shows "\<forall>e \<in> set ms. arrival_rank P (snd e) < arrival_rank P m \<and> \<not> appoints_hub P (snd e)"
  using assms(4)
proof (cases rule: deliver_cases)
  case (other c a p funds)
  then have "ms = []" using assms(2) unfolding quiet_def by metis
  then show ?thesis by simp
next
  case (contract c a p funds ms')
  have "\<not> own_dispatcher P (w\<lparr>chain_part := c\<rparr>)" using assms(3) by (simp add: own_dispatcher_def)
  from call_below[OF assms(1) this contract(6)] show ?thesis
    using arrival_modest[of _ ms' "arrival_rank P m" P] contract(1,3) by fastforce
qed simp

lemma delivered_dispatcher:
  assumes "deliver P now sender m w = Inr (ms, w')" and "\<not> own_dispatcher P w" and "\<not> appoints_hub P m"
  shows "\<not> own_dispatcher P w'"
  using assms(1)
proof (cases rule: deliver_cases)
  case (contract c a p funds ms')
  from contract(6) show ?thesis
  proof (cases rule: call_contract_cases)
    case (hub x r s)
    have own: "own_dispatcher P v \<longleftrightarrow> registered_dispatcher (hub_part v) = Some (hub_at P)"
      for v :: "('a, 'b) world"
      by (cases "config_item (hub_part v)")
        (simp_all add: own_dispatcher_def registered_dispatcher_def load_config_def)
    have "registered_dispatcher s \<noteq> Some (hub_at P)"
      using hub_dispatcher_changes[OF hub(5)] assms(2,3) hub(1) contract(1)
      by (auto simp: own appoints_hub_def dest: read_config)
    then show ?thesis by (simp add: own hub(4))
  qed (use assms(2) in \<open>auto simp: own_dispatcher_def\<close>)
qed (use assms(2) in \<open>auto simp: own_dispatcher_def\<close>)

definition ends_well :: "('t, 'c) platform \<Rightarrow> ('t, 'c) pending \<Rightarrow> bool" where
  "ends_well P x \<longleftrightarrow> \<not> own_dispatcher P (snd x) \<and> (\<forall>e \<in># fst x. \<not> appoints_hub P (snd e))"

definition outranked :: "('t, 'c) platform \<Rightarrow> (envelope \<times> envelope) set" where
  "outranked P = inv_image less_than (\<lambda>e. arrival_rank P (snd e))"

lemma wf_outranked: "wf (outranked P)"
  by (simp add: outranked_def)

lemma delivery_decreases:
  assumes "cw20_laws (cw20 P) (supply_of P)" and "quiet P"
    and "ends_well P x" and "delivery P now x y"
  shows "(fst y, fst x) \<in> mult (outranked P) \<and> ends_well P y"
  using assms(4)
proof cases
  case (delivery a m w ms w' M)
  have x: "\<not> own_dispatcher P w" "\<not> appoints_hub P m" "\<forall>e \<in># M. \<not> appoints_hub P (snd e)"
    using assms(3) delivery(1) by (auto simp: ends_well_def)
  note sent = delivered_below[OF assms(1,2) x(1) delivery(3)]
  then have "\<forall>e \<in># mset ms. (e, (a, m)) \<in> outranked P"
    by (auto simp: outranked_def)
  then have "(M + mset ms, M + {#(a, m)#}) \<in> mult (outranked P)"
    by (intro one_step_implies_mult) auto
  moreover have "ends_well P (mset ms + M, w')"
    using sent x(3) delivered_dispatcher[OF delivery(3) x(1,2)] by (auto simp: ends_well_def)
  ultimately show ?thesis using delivery by (simp add: add.commute)
qed

text \<open>
  C24: Every transaction ends, in whichever order its messages are delivered: there is no endless
  sequence of deliveries. It is assumed that contracts outside the repository send no messages in
  reply, and that the hub is not registered as its own rewards dispatcher, neither at the start nor
  by a message of the transaction. Each message a handler emits then ranks below the one it handles,
  also where the receiver reads it as a message of its own.
\<close>

theorem transactions_end:
  assumes "cw20_laws (cw20 P) (supply_of P)" and "quiet P"
    and "\<not> own_dispatcher P w" and "\<forall>e \<in># M. \<not> appoints_hub P (snd e)"
  shows "\<nexists>run. run 0 = (M, w) \<and> (\<forall>i. delivery P now (run i) (run (Suc i)))"
proof
  assume "\<exists>run. run 0 = (M, w) \<and> (\<forall>i. delivery P now (run i) (run (Suc i)))"
  then obtain run where run: "run 0 = (M, w)" "\<And>i. delivery P now (run i) (run (Suc i))" by blast
  have well: "ends_well P (run i)" for i
  proof (induction i)
    case 0
    then show ?case using assms(3,4) run(1) by (simp add: ends_well_def)
  next
    case (Suc i)
    then show ?case using delivery_decreases[OF assms(1,2) _ run(2)] by blast
  qed
  have "(fst (run (Suc i)), fst (run i)) \<in> mult (outranked P)" for i
    using delivery_decreases[OF assms(1,2) well run(2)] by blast
  then have "\<exists>f. \<forall>i. (f (Suc i), f i) \<in> mult (outranked P)"
    by (intro exI[of _ "\<lambda>i. fst (run i)"]) simp
  moreover have "wf (mult (outranked P))" by (rule wf_mult[OF wf_outranked])
  ultimately show False unfolding wf_iff_no_infinite_down_chain by blast
qed

lemma transactions_end_witness:
  "\<nexists>run. run 0 = ({#user_message ''bob'' (HubMsg DispatchRewards) ''hub'' []#}, sample_world)
    \<and> (\<forall>i. delivery sample_platform 150 (run i) (run (Suc i)))"
proof (rule transactions_end)
  show "cw20_laws (cw20 sample_platform) (supply_of sample_platform)" by (rule sample_platform_laws)
  show "quiet sample_platform" by (simp add: quiet_def sample_platform_def)
  show "\<not> own_dispatcher sample_platform sample_world"
    by (simp add: own_dispatcher_def sample_world_def sample_hub_def sample_config_def load_config_def)
  show "\<forall>e \<in># {#user_message ''bob'' (HubMsg DispatchRewards) ''hub'' []#}. \<not> appoints_hub sample_platform (snd e)"
    by (simp add: appoints_hub_def user_message_def)
qed

text \<open>The condition on the dispatcher is needed: without it a transaction may go on for ever.\<close>

lemma own_dispatcher_never_ends:
  assumes "own_dispatcher P w" and "hub_at P \<noteq> dispatcher_at P"
    and "load_parameters (hub_part w) = Inr p" and "\<not> is_hub_paused p"
    and "query_all_delegations (chain_queries P (chain_part w)) (hub_at P) = Inr []"
  shows "\<exists>run. run 0 = ({#(user, WasmExecute (hub_at P) (HubMsg DispatchRewards) [])#}, w)
    \<and> (\<forall>i. delivery P now (run i) (run (Suc i)))"
proof -
  let ?again = "(hub_at P, WasmExecute (hub_at P) (DispatcherMsg DispatcherDispatchRewards) [])"
  let ?run = "\<lambda>i. if i = 0 then ({#(user, WasmExecute (hub_at P) (HubMsg DispatchRewards) [])#}, w)
    else ({#?again#}, w)"
  obtain c where c: "load_config (hub_part w) = Inr c" "reward_dispatcher_contract c = Some (hub_at P)"
    using assms(1) by (auto simp: own_dispatcher_def)
  have again: "deliver P now a (WasmExecute (hub_at P) q []) w = Inr ([?again], w)"
    if "read_at P (hub_at P) q = Some (HubMsg DispatchRewards)" for a q
    using that assms(3-5) c
    by (cases w) (simp add: deliver_def contracts_def call_contract_def Let_def hub_execute_def
        execute_dispatch_rewards_def withdraw_all_rewards_def env_at_def)
  have reads: "read_at P (hub_at P) (DispatcherMsg DispatcherDispatchRewards) = Some (HubMsg DispatchRewards)"
    using assms(2) by (simp add: read_at_def)
  have "delivery P now (?run i) (?run (Suc i))" for i
  proof (cases i)
    case 0
    have "deliver P now user (WasmExecute (hub_at P) (HubMsg DispatchRewards) []) w = Inr ([?again], w)"
      by (rule again) simp
    from delivery.intros[of P now _ _ w _ _ "{#}", OF this] 0 show ?thesis by simp
  next
    case (Suc j)
    from delivery.intros[of P now _ _ w _ _ "{#}", OF again[OF reads, of "hub_at P"]] Suc show ?thesis by simp
  qed
  then show ?thesis by (intro exI[of _ ?run]) simp
qed

section \<open>Each contract is in a state of its own\<close>

definition runs_hub :: "('t, 'c) platform \<Rightarrow> hub_store \<Rightarrow> hub_store \<Rightarrow> bool" where
  "runs_hub P s s' \<longleftrightarrow> (\<exists>D env info m r. numbers D = number_lib P \<and> api D = codec P
     \<and> hub_execute D env info m s = Inr (r, s'))"

definition runs_registry :: "registry_store \<Rightarrow> registry_store \<Rightarrow> bool" where
  "runs_registry s s' \<longleftrightarrow> (\<exists>D env info m r. registry_execute D env info m s = Inr (r, s'))"

definition runs_dispatcher :: "dispatcher_store \<Rightarrow> dispatcher_store \<Rightarrow> bool" where
  "runs_dispatcher s s' \<longleftrightarrow> (\<exists>D env info m r. dispatcher_execute D env info m s = Inr (r, s'))"

definition acts :: "('t, 'c) platform \<Rightarrow> ('t, 'c) world \<Rightarrow> ('t, 'c) world \<Rightarrow> bool" where
  "acts P w w' \<longleftrightarrow>
     (hub_part w' = hub_part w \<or> runs_hub P (hub_part w) (hub_part w'))
   \<and> (registry_part w' = registry_part w \<or> runs_registry (registry_part w) (registry_part w'))
   \<and> (dispatcher_part w' = dispatcher_part w \<or> runs_dispatcher (dispatcher_part w) (dispatcher_part w'))
   \<and> hub_contract_item (token_part w') = hub_contract_item (token_part w)"

lemma deliver_acts:
  assumes "deliver P now a m w = Inr (ms, w')"
  shows "acts P w w'"
  using assms
proof (cases rule: deliver_cases)
  case (contract c b p funds ms')
  from contract(6) show ?thesis
  proof (cases rule: call_contract_cases)
    case (hub x r s)
    then have "runs_hub P (hub_part w) s"
      by (auto simp: runs_hub_def intro!: exI[of _ "connected P now (w\<lparr>chain_part := c\<rparr>)"])
    then show ?thesis using hub(4) by (simp add: acts_def)
  next
    case (registry x r s)
    then show ?thesis by (auto simp: acts_def runs_registry_def)
  next
    case (dispatcher x r s)
    then show ?thesis by (auto simp: acts_def runs_dispatcher_def)
  next
    case (token x r s)
    then show ?thesis by (auto simp: acts_def elim: token_execute_Inr)
  qed
qed (simp_all add: acts_def)

lemma settles_induct [consumes 1, case_names settled delivered]:
  assumes "settles P now M w w'" and "\<And>w. Q {#} w w"
    and "\<And>a m w ms w1 M w2. deliver P now a m w = Inr (ms, w1) \<Longrightarrow>
      settles P now (mset ms + M) w1 w2 \<Longrightarrow> Q (mset ms + M) w1 w2 \<Longrightarrow> Q (add_mset (a, m) M) w w2"
  shows "Q M w w'"
proof -
  have "(delivery P now)\<^sup>*\<^sup>* x ({#}, w') \<Longrightarrow> Q (fst x) (snd x) w'" for x
  proof (induction rule: converse_rtranclp_induct)
    case (step x y)
    from step(1) show ?case
    proof cases
      case (delivery a m w ms w1 M)
      then show ?thesis using assms(3)[OF delivery(3), of M w'] step(2,3) by (simp add: settles_def)
    qed
  qed (simp add: assms(2))
  from this[of "(M, w)"] assms(1) show ?thesis by (simp add: settles_def)
qed

lemma settles_log: "settles P now M w w' \<Longrightarrow> \<exists>es. settled_by P now M w es w'"
  by (induction rule: settles_induct) (blast intro: settled_by.intros)+

text \<open>What holds of a world, and is kept by every delivery and so by every transaction.\<close>

definition world_ok :: "('t, 'c) platform \<Rightarrow> ('t, 'c) world \<Rightarrow> bool" where
  "world_ok P w \<longleftrightarrow> hub_reachable (number_lib P) (codec P) (hub_part w)
     \<and> registry_reachable (registry_part w) \<and> hub_contract_item (token_part w) \<noteq> None
     \<and> dispatcher_config_item (dispatcher_part w) \<noteq> None"

definition keeps_setup :: "('t, 'c) world \<Rightarrow> ('t, 'c) world \<Rightarrow> bool" where
  "keeps_setup w w' \<longleftrightarrow> hub_contract_item (token_part w') = hub_contract_item (token_part w)
     \<and> (registered (registry_part w) \<noteq> {} \<longrightarrow> registered (registry_part w') \<noteq> {})
     \<and> map_option statom_reward_denom (dispatcher_config_item (dispatcher_part w'))
       = map_option statom_reward_denom (dispatcher_config_item (dispatcher_part w))"

lemma keeps_setup_refl: "keeps_setup w w"
  by (simp add: keeps_setup_def)

lemma keeps_setup_trans: "keeps_setup w1 w2 \<Longrightarrow> keeps_setup w2 w3 \<Longrightarrow> keeps_setup w1 w3"
  by (auto simp: keeps_setup_def)

lemma runs_dispatcher_denom:
  assumes "runs_dispatcher s s'" and "dispatcher_config_item s = Some c"
  shows "\<exists>c'. dispatcher_config_item s' = Some c' \<and> statom_reward_denom c' = statom_reward_denom c"
  using assms dispatcher_execute_denom by (auto simp: runs_dispatcher_def)

lemma acts_ok:
  assumes "acts P w w'" and "world_ok P w"
  shows "world_ok P w' \<and> keeps_setup w w'"
proof -
  obtain c where c: "dispatcher_config_item (dispatcher_part w) = Some c"
    using assms(2) by (auto simp: world_ok_def)
  then obtain c' where c': "dispatcher_config_item (dispatcher_part w') = Some c'"
    "statom_reward_denom c' = statom_reward_denom c"
    using assms(1) runs_dispatcher_denom[OF _ c] by (auto simp: acts_def)
  have "hub_reachable (number_lib P) (codec P) (hub_part w')"
    using assms by (auto simp: acts_def world_ok_def runs_hub_def intro: hub_reachable.step)
  moreover have "registry_reachable (registry_part w')"
    using assms by (auto simp: acts_def world_ok_def runs_registry_def intro: registry_reachable.step)
  moreover have "registered (registry_part w) \<noteq> {} \<Longrightarrow> registered (registry_part w') \<noteq> {}"
    using assms registry_stays_nonempty by (auto simp: acts_def runs_registry_def)
  ultimately show ?thesis using assms c c' by (simp add: world_ok_def keeps_setup_def acts_def)
qed

lemma settles_ok:
  assumes "settles P now M w w'" and "world_ok P w"
  shows "world_ok P w' \<and> keeps_setup w w'"
  using assms
proof (induction rule: settles_induct)
  case (delivered a m w ms w1 M w2)
  then show ?case using acts_ok[OF deliver_acts[OF delivered(1)]] by (blast intro: keeps_setup_trans)
qed (simp add: keeps_setup_refl)

lemma reachable_ok: "world_reachable P w \<Longrightarrow> world_ok P w"
proof (induction rule: world_reachable.induct)
  case (start henv hinfo hmsg r1 h RD rinfo rmsg r2 g DD dinfo dmsg r3 d TD tenv tinfo tmsg t0 r4 t c)
  have "dispatcher_config_item d \<noteq> None"
    using start(3) by (auto simp: dispatcher_instantiate_def result_simps)
  moreover have "hub_contract_item t \<noteq> None"
    using start(4) by (auto simp: token_instantiate_def on_base_def result_simps Let_def)
  ultimately show ?case
    using hub_reachable.start[OF start(1)] registry_reachable.start[OF start(2)]
    by (simp add: world_ok_def)
next
  case (chain w c)
  then show ?case by (simp add: world_ok_def)
qed (blast dest: settles_ok)

text \<open>
  C25: In a reachable world, whoever called whichever contract in any order: the hub's books are
  in order and the registry is well-formed, as they are in each contract's own reachable states.
  A transaction never empties the registry, never changes the hub the token is registered with nor
  the denomination of the rewards.
\<close>

theorem world_invariant:
  assumes "world_reachable P w" and "bignum_laws (number_lib P)" and "codec_laws (codec P)"
    and "settles P now M w w'"
  shows "hub_inv (codec P) (hub_part w') \<and> registry_wf (registry_part w')
    \<and> (registered (registry_part w) \<noteq> {} \<longrightarrow> registered (registry_part w') \<noteq> {})
    \<and> (\<exists>h. hub_contract_item (token_part w) = Some h \<and> hub_contract_item (token_part w') = Some h)
    \<and> (\<exists>c c'. dispatcher_config_item (dispatcher_part w) = Some c
        \<and> dispatcher_config_item (dispatcher_part w') = Some c'
        \<and> statom_reward_denom c' = statom_reward_denom c)"
proof -
  have ok: "world_ok P w" using assms(1) by (rule reachable_ok)
  then have ok': "world_ok P w'" and keep: "keeps_setup w w'" using settles_ok[OF assms(4)] by auto
  have "hub_inv (codec P) (hub_part w')"
    using ok' assms(2,3) by (auto simp: world_ok_def intro: reachable_inv)
  moreover have "registry_wf (registry_part w')"
    using ok' by (auto simp: world_ok_def intro: registry_reachable_wf)
  ultimately show ?thesis using ok ok' keep by (auto simp: world_ok_def keeps_setup_def)
qed

definition configure_hub :: envelope where
  "configure_hub = user_message ''owner'' (HubMsg (UpdateConfig None (Some ''disp'') (Some ''reg'') (Some ''tok'')))
     ''hub'' []"

lemma world_invariant_witness:
  "hub_inv reference_api (hub_part (after_tx 100 configure_hub new_world))
    \<and> registered (registry_part (after_tx 100 configure_hub new_world)) \<noteq> {}"
proof -
  have "\<not> Option.is_none (run_all 20 sample_platform 100 [configure_hub] new_world)" by code_simp
  note tx = after_tx_settles[OF this]
  show ?thesis
    using world_invariant[OF new_world_reachable sample_platform_laws(1,4) tx]
    by (auto simp: new_world_def)
qed

section \<open>A paused hub freezes the system\<close>

definition hub_stopped :: "('t, 'c) world \<Rightarrow> bool" where
  "hub_stopped w \<longleftrightarrow> (\<exists>p. load_parameters (hub_part w) = Inr p \<and> paused p = Some True)"

text \<open>What is left to a paused hub when its owner stays away: pausing again and the redelegation proxy.\<close>

lemma hub_frozen:
  assumes "hub_execute D env info m s = Inr (r, s')" and "load_parameters s = Inr p"
    and "paused p = Some True" and "load_config s = Inr c" and "info_sender info \<noteq> creator c"
  shows "s' = s"
proof -
  have stopped: "is_hub_paused p" using assms(3) by (simp add: is_hub_paused_def)
  have same: "save_parameters (p\<lparr>paused := Some True\<rparr>) s = s"
    using assms(2,3) by (cases s; cases p) (auto simp: save_parameters_def load_parameters_def result_simps)
  show ?thesis
  proof (cases m)
    case PauseContracts
    then show ?thesis using assms(1,2,4) same
      by (auto simp: hub_execute_def execute_pause_contracts_def result_simps split: if_splits)
  qed (use assms stopped in \<open>auto simp: hub_execute_def receive_cw20_def execute_bond_def
         execute_dispatch_rewards_def execute_withdraw_unbonded_def execute_slashing_def
         execute_update_params_def execute_update_config_def execute_redelegate_proxy_def
         execute_unpause_contracts_def execute_add_guardians_def execute_remove_guardians_def
         result_simps split: if_splits\<close>)
qed

definition silent_for :: "('t, 'c) platform \<Rightarrow> addr \<Rightarrow> bool" where
  "silent_for P owner \<longleftrightarrow> owner \<notin> contracts P
     \<and> (\<forall>a m c ms c'. other_contract P a m c = Inr (ms, c') \<longrightarrow> owner \<notin> fst ` set ms)"

lemma deliver_frozen:
  assumes "deliver P now a m w = Inr (ms, w')" and "silent_for P (creator c)"
    and "hub_stopped w" and "load_config (hub_part w) = Inr c"
    and "hub_contract_item (token_part w) = Some (hub_at P)" and "a \<noteq> creator c"
  shows "hub_part w' = hub_part w \<and> token_part w' = token_part w \<and> creator c \<notin> fst ` set ms"
  using assms(1)
proof (cases rule: deliver_cases)
  case (other c' b p funds)
  then have "creator c \<notin> fst ` set ms" using assms(2) unfolding silent_for_def by metis
  then show ?thesis using other(1) by simp
next
  case (contract ch b p funds ms')
  have "creator c \<notin> fst ` set ms" using contract(2,3) assms(2) by (auto simp: silent_for_def)
  moreover have "hub_part w' = hub_part w \<and> token_part w' = token_part w"
    using contract(6)
  proof (cases rule: call_contract_cases)
    case (hub x r s)
    obtain q where "load_parameters (hub_part w) = Inr q" "paused q = Some True"
      using assms(3) by (auto simp: hub_stopped_def)
    from hub_frozen[OF _ this assms(4)] hub(4,5) assms(6) show ?thesis by simp
  next
    case (token x r s)
    from token(5) have False
    proof (cases rule: token_execute_Inr)
      case (1 h res t)
      then show False using assms(3,5)
        by (auto simp: is_paused_def parameters_answer_hub hub_stopped_def result_simps)
    qed
    then show ?thesis ..
  qed simp_all
  ultimately show ?thesis by blast
qed simp

text \<open>
  C15: While the hub is paused, the system is frozen until the hub's owner acts: a transaction in
  which no message comes from the owner changes neither the hub's storage nor the token's,
  whichever contracts it calls. The token must be registered with the hub, and the owner must
  not be one of the contracts.
\<close>

theorem paused_system_frozen:
  assumes "settles P now M w w'" and "silent_for P (creator c)" and "hub_stopped w"
    and "load_config (hub_part w) = Inr c" and "hub_contract_item (token_part w) = Some (hub_at P)"
    and "creator c \<notin> fst ` set_mset M"
  shows "hub_part w' = hub_part w \<and> token_part w' = token_part w"
  using assms(1,3-6)
proof (induction rule: settles_induct)
  case (delivered a m w ms w1 M w2)
  have "hub_part w1 = hub_part w \<and> token_part w1 = token_part w \<and> creator c \<notin> fst ` set ms"
    using deliver_frozen[OF delivered(1) assms(2) delivered(4-6)] delivered(7) by auto
  moreover from this have "hub_part w2 = hub_part w1 \<and> token_part w2 = token_part w1"
    using delivered(4-7) by (intro delivered(3)) (auto simp: hub_stopped_def)
  ultimately show ?case by simp
qed simp

definition paused_world :: "(cw20_state, sample_chain) world" where
  "paused_world = sample_world\<lparr>hub_part := paused_sample\<rparr>"

definition pause_again :: envelope where
  "pause_again = user_message ''guard'' (HubMsg PauseContracts) ''hub'' []"

lemma paused_system_frozen_witness:
  "token_part (after_tx 150 pause_again paused_world) = token_part sample_world"
proof -
  have "\<not> Option.is_none (run_all 20 sample_platform 150 [pause_again] paused_world)" by code_simp
  note tx = after_tx_settles[OF this]
  have owner: "load_config (hub_part paused_world) = Inr sample_config"
    by (simp add: paused_world_def paused_sample_def sample_hub_def load_config_def)
  have "hub_part (after_tx 150 pause_again paused_world) = hub_part paused_world
    \<and> token_part (after_tx 150 pause_again paused_world) = token_part paused_world"
  proof (rule paused_system_frozen[OF tx _ _ owner])
    show "silent_for sample_platform (creator sample_config)"
      by (simp add: silent_for_def contracts_def sample_platform_def sample_config_def)
    show "hub_stopped paused_world"
      by (simp add: hub_stopped_def paused_world_def paused_sample_def load_parameters_def)
    show "hub_contract_item (token_part paused_world) = Some (hub_at sample_platform)"
      by (simp add: paused_world_def sample_world_def)
    show "creator sample_config \<notin> fst ` set_mset {#pause_again#}"
      by (simp add: pause_again_def user_message_def sample_config_def)
  qed
  then show ?thesis by (simp add: paused_world_def)
qed

end
