(* ===== verification/Flows.thy ===== *)
theory Flows
  imports Transactions
begin

text \<open>
  The three ways the contracts work together, from the user's message to the end of the
  transaction: unbonding (token, hub, token, hub), dispatching rewards (hub, dispatcher, hub) and
  removing a validator (registry, hub, dispatcher, hub). In between, the chain may carry out its own
  messages, and the hub the redelegations it is asked for, at any time.
\<close>

section \<open>Transactions step by step\<close>

text \<open>
  Two kinds of messages change nothing but the chain: those for the chain's own modules, and those
  that ask the hub to have redelegations made. They may be delivered at any time in between.
\<close>

definition proxy_msg :: "('t, 'c) platform \<Rightarrow> string \<Rightarrow> (string \<times> coin) list \<Rightarrow> payload cosmos_msg" where
  "proxy_msg P src reds = WasmExecute (hub_at P) (HubMsg (RedelegateProxy src reds)) []"

fun idle_msg :: "('t, 'c) platform \<Rightarrow> payload cosmos_msg \<Rightarrow> bool" where
  "idle_msg P (WasmExecute a (HubMsg (RedelegateProxy src reds)) []) = (a = hub_at P)"
| "idle_msg P (WasmExecute a p funds) = False"
| "idle_msg P m = True"

lemma idle_msg_simps [simp]:
  "\<not> is_WasmExecute m \<Longrightarrow> idle_msg P m"
  "idle_msg P (proxy_msg P src reds)"
  by (cases m; simp) (simp add: proxy_msg_def)

lemma idle_msg_cases:
  assumes "idle_msg P m"
  obtains "\<not> is_WasmExecute m" | src reds where "m = proxy_msg P src reds"
  using assms by (cases "(P, m)" rule: idle_msg.cases) (auto simp: proxy_msg_def)

definition for_chain :: "('t, 'c) platform \<Rightarrow> envelope multiset \<Rightarrow> bool" where
  "for_chain P M \<longleftrightarrow> (\<forall>e \<in># M. idle_msg P (snd e))"

lemma for_chain_simps [simp]:
  "for_chain P {#}"
  "for_chain P (add_mset e M) \<longleftrightarrow> idle_msg P (snd e) \<and> for_chain P M"
  "for_chain P (M + M') \<longleftrightarrow> for_chain P M \<and> for_chain P M'"
  by (auto simp: for_chain_def)

lemma proxy_effect:
  assumes "deliver P now a (proxy_msg P src reds) w = Inr (ms, w')"
  shows "ms = map (\<lambda>(dst, x). (hub_at P, Redelegate src dst x)) reds" and "w' = w"
  using assms
  by (cases w; auto simp: proxy_msg_def deliver_def contracts_def call_contract_def Let_def result_simps
      hub_execute_def execute_redelegate_proxy_def split: if_splits prod.splits)+

lemma for_chain_redelegations [simp]:
  "for_chain P (mset (map (\<lambda>(dst, x). (hub_at P, Redelegate src dst x)) reds))"
  by (auto simp: for_chain_def)

lemma deliver_chain:
  assumes "deliver P now a m w = Inr (ms, w')" and "idle_msg P m"
  shows "for_chain P (mset ms)" and "\<exists>c. w' = w\<lparr>chain_part := c\<rparr>"
proof -
  have "for_chain P (mset ms) \<and> (\<exists>c. w' = w\<lparr>chain_part := c\<rparr>)"
    using assms(2)
  proof (cases rule: idle_msg_cases)
    case 1
    then show ?thesis using assms(1) by (auto elim!: deliver_cases)
  next
    case (2 src reds)
    note effect = proxy_effect[OF assms(1)[unfolded 2]]
    have "w' = w\<lparr>chain_part := chain_part w\<rparr>" using effect(2) by simp
    then show ?thesis using effect(1) by (simp only: for_chain_redelegations) blast
  qed
  then show "for_chain P (mset ms)" and "\<exists>c. w' = w\<lparr>chain_part := c\<rparr>" by blast+
qed

lemma settles_chain:
  assumes "settles P now M w w'" and "for_chain P M"
  shows "\<exists>c. w' = w\<lparr>chain_part := c\<rparr>"
  using assms
proof (induction rule: settles_induct)
  case (settled w)
  then show ?case by (cases w) auto
next
  case (delivered a m w ms w1 M w2)
  from delivered(4) have m: "idle_msg P m" and M: "for_chain P M" by simp_all
  obtain c where "for_chain P (mset ms)" "w1 = w\<lparr>chain_part := c\<rparr>"
    using deliver_chain[OF delivered(1) m] by blast
  then show ?case using delivered(3) M by auto
qed

lemma settles_next:
  assumes "settles P now (add_mset (a, m) M) w w'" and "for_chain P M" and "\<not> idle_msg P m"
  obtains c N ms w1 where "for_chain P N" "deliver P now a m (w\<lparr>chain_part := c\<rparr>) = Inr (ms, w1)"
    "settles P now (mset ms + N) w1 w'"
proof -
  have "\<exists>c N ms w1. for_chain P N \<and> deliver P now a m (w\<lparr>chain_part := c\<rparr>) = Inr (ms, w1)
      \<and> settles P now (mset ms + N) w1 w'"
    if "settles P now X w w'" "X = add_mset (a, m) M" "for_chain P M" for X M
    using that
  proof (induction arbitrary: M rule: settles_induct)
    case (delivered b x w ms w1 N w2)
    show ?case
    proof (cases "(b, x) = (a, m)")
      case True
      then have "for_chain P N" using delivered(4,5) by simp
      moreover have "deliver P now a m (w\<lparr>chain_part := chain_part w\<rparr>) = Inr (ms, w1)"
        using delivered(1) True by simp
      ultimately show ?thesis using delivered(2) by blast
    next
      case False
      then obtain K where K: "N = add_mset (a, m) K" "M = add_mset (b, x) K"
        using delivered(4) by (auto simp: add_eq_conv_ex)
      then have x: "idle_msg P x" and "for_chain P K" using delivered(5) by simp_all
      then obtain c where step: "for_chain P (mset ms)" "w1 = w\<lparr>chain_part := c\<rparr>"
        using deliver_chain[OF delivered(1) x] by blast
      have "\<exists>c N ms w1'. for_chain P N \<and> deliver P now a m (w1\<lparr>chain_part := c\<rparr>) = Inr (ms, w1')
          \<and> settles P now (mset ms + N) w1' w2"
        using K(1) \<open>for_chain P K\<close> step(1) by (intro delivered(3)[of "mset ms + K"]) simp_all
      then show ?thesis by (simp add: step(2))
    qed
  qed simp
  from this[OF assms(1) refl assms(2)] that show thesis by blast
qed

text \<open>The first message of a transaction is delivered in the world it starts in.\<close>

lemma settles_first:
  assumes "settles P now {#(a, m)#} w w'"
  obtains ms w1 where "deliver P now a m w = Inr (ms, w1)" "settles P now (mset ms) w1 w'"
proof -
  have "\<exists>ms w1. deliver P now a m w = Inr (ms, w1) \<and> settles P now (mset ms) w1 w'"
    if "settles P now X w w'" "X = {#(a, m)#}" for X
    using that
  proof (induction rule: settles_induct)
    case (delivered b x w ms w1 N w2)
    then show ?case by (auto simp: add_eq_conv_ex)
  qed simp
  from this[OF assms refl] that show thesis by blast
qed

text \<open>What a pending message emits when it is delivered is delivered in turn.\<close>

lemma settled_by_emits:
  assumes "settled_by P now M w es w'" and "(a, m) \<in># M"
  obtains ms w1 w2 where "deliver P now a m w1 = Inr (ms, w2)" "mset ms \<subseteq># mset es"
proof -
  have "\<exists>ms w1 w2. deliver P now a m w1 = Inr (ms, w2) \<and> mset ms \<subseteq># mset es"
    using assms
  proof (induction rule: settled_by.induct)
    case (delivered b x w ms w1 N es w2)
    show ?case
    proof (cases "(a, m) = (b, x)")
      case True
      have "mset ms \<subseteq># mset ms + N" by simp
      then have "mset ms \<subseteq># mset es" using settled_by_all[OF delivered(2)] by (rule subset_mset.order_trans)
      then have "mset ms \<subseteq># mset ((b, x) # es)"
        by (rule subset_mset.order_trans) simp
      with True delivered(1) show ?thesis by blast
    next
      case False
      then have "(a, m) \<in># mset ms + N" using delivered(4) by auto
      from delivered(3)[OF this] obtain ms' v1 v2 where "deliver P now a m v1 = Inr (ms', v2)"
        "mset ms' \<subseteq># mset es" by blast
      moreover from this(2) have "mset ms' \<subseteq># mset ((b, x) # es)"
        by (rule subset_mset.order_trans) simp
      ultimately show ?thesis by blast
    qed
  qed simp
  with that show thesis by blast
qed

text \<open>A call of one of the contracts that carries no funds.\<close>

lemma deliver_call:
  assumes "deliver P now a (WasmExecute b p []) w = Inr (ms, w')" and "b \<in> contracts P"
  obtains ms' where "call_contract P now a b p [] w = Inr (ms', w')" "ms = map (Pair b) ms'"
  using assms by (auto simp: deliver_def result_simps)

lemma contracts_member [simp]:
  "hub_at P \<in> contracts P" "registry_at P \<in> contracts P"
  "dispatcher_at P \<in> contracts P" "token_at P \<in> contracts P"
  by (simp_all add: contracts_def)

lemma deliver_hub:
  assumes "deliver P now a (WasmExecute (hub_at P) (HubMsg m) funds) w = Inr (ms, w')"
  obtains c r s where "hub_execute (connected P now (w\<lparr>chain_part := c\<rparr>)) (env_at now (hub_at P))
      \<lparr>info_sender = a, info_funds = funds\<rparr> m (hub_part w) = Inr (r, s)"
    "ms = map (Pair (hub_at P)) (messages r)" "w' = w\<lparr>hub_part := s, chain_part := c\<rparr>"
    "funds = [] \<Longrightarrow> c = chain_part w"
    "funds \<noteq> [] \<Longrightarrow> move_funds P a (hub_at P) funds (chain_part w) = Inr c"
  using assms
  by (auto simp: deliver_def call_contract_def Let_def result_simps split: if_splits prod.splits)

lemma deliver_dispatcher:
  assumes "deliver P now a (WasmExecute (dispatcher_at P) (DispatcherMsg m) []) w = Inr (ms, w')"
  obtains r s where "dispatcher_execute (connected P now w) (env_at now (dispatcher_at P))
      \<lparr>info_sender = a, info_funds = []\<rparr> m (dispatcher_part w) = Inr (r, s)"
    "ms = map (Pair (dispatcher_at P)) (messages r)" "w' = w\<lparr>dispatcher_part := s\<rparr>"
  using assms
  by (auto simp: deliver_def call_contract_def Let_def result_simps split: prod.splits)

lemma deliver_token:
  assumes "deliver P now a (WasmExecute (token_at P) (TokenMsg m) []) w = Inr (ms, w')"
  obtains r s where "token_execute (cw20 P) (connected P now w) (env_at now (token_at P))
      \<lparr>info_sender = a, info_funds = []\<rparr> m (token_part w) = Inr (r, s)"
    "ms = map (Pair (token_at P)) (messages r)" "w' = w\<lparr>token_part := s\<rparr>"
  using assms
  by (auto simp: deliver_def call_contract_def Let_def result_simps split: prod.splits)

definition chain_only :: "payload cosmos_msg list \<Rightarrow> bool" where
  "chain_only ms \<longleftrightarrow> (\<forall>m \<in> set ms. \<not> is_WasmExecute m)"

lemma for_chain_sent [simp]: "chain_only ms \<Longrightarrow> for_chain P (image_mset (Pair a) (mset ms))"
  by (auto simp: for_chain_def chain_only_def)

lemma chain_only_simps [simp]:
  "chain_only []"
  "chain_only (m # ms) \<longleftrightarrow> \<not> is_WasmExecute m \<and> chain_only ms"
  "chain_only (ms @ ms') \<longleftrightarrow> chain_only ms \<and> chain_only ms'"
  by (auto simp: chain_only_def)

section \<open>Rewards\<close>

lemma dispatch_out:
  assumes "hub_execute D env info DispatchRewards s = Inr (r, s')"
    and "load_config s = Inr c" and "reward_dispatcher_contract c = Some disp"
  obtains ms where "s' = s"
    "messages r = ms @ [WasmExecute disp (DispatcherMsg DispatcherDispatchRewards) []]"
    "chain_only ms" "\<exists>p. load_parameters s = Inr p \<and> \<not> is_hub_paused p"
proof -
  obtain ms where ms: "withdraw_all_rewards D (contract_address env) = Inr ms" and out: "s' = s"
    "messages r = ms @ [WasmExecute disp (DispatcherMsg DispatcherDispatchRewards) []]"
    and running: "\<exists>p. load_parameters s = Inr p \<and> \<not> is_hub_paused p"
    using assms by (auto simp: hub_execute_def execute_dispatch_rewards_def result_simps split: if_splits)
  have "chain_only ms" using ms by (auto simp: withdraw_all_rewards_def chain_only_def result_simps)
  with out running show thesis by (intro that)
qed

text \<open>What the hub's storage is after rewards have been bonded.\<close>

definition rewards_bonded :: "deps \<Rightarrow> env \<Rightarrow> u128 \<Rightarrow> hub_store \<Rightarrow> hub_store \<Rightarrow> bool" where
  "rewards_bonded D env amount s s' \<longleftrightarrow> (\<exists>batch st b rate. load_current_batch s = Inr batch
     \<and> slashing D env s = Inr (st, save_state st s)
     \<and> s' = save_state (st\<lparr>total_bond_statom_amount := b, statom_exchange_rate := rate\<rparr>) s
     \<and> unat b = unat (total_bond_statom_amount st) + unat amount
     \<and> unat (atomics rate)
         = rate_spec (unat b) (unat (total_statom_issued st) + unat (requested_statom batch)))"

lemma delegates_for_chain: "delegates_exactly d vs n ms \<Longrightarrow> chain_only ms"
  by (auto simp: delegates_exactly_def delegate_messages_def chain_only_def)

lemma rewards_arrive:
  assumes "decimal_laws (number_lib P)"
    and "settles P now (add_mset (a, WasmExecute (hub_at P) (HubMsg hub_execute_msg.BondRewards) [coin]) M) w w'"
    and "for_chain P M"
  shows "\<exists>c c' s. w' = w\<lparr>hub_part := s, chain_part := c'\<rparr>
    \<and> rewards_bonded (connected P now (w\<lparr>chain_part := c\<rparr>)) (env_at now (hub_at P)) (coin_amount coin)
        (hub_part w) s"
proof (rule settles_next[OF assms(2,3)])
  fix c N ms w1
  assume N: "for_chain P N" and out: "settles P now (mset ms + N) w1 w'"
    and del: "deliver P now a (WasmExecute (hub_at P) (HubMsg hub_execute_msg.BondRewards) [coin])
      (w\<lparr>chain_part := c\<rparr>) = Inr (ms, w1)"
  show ?thesis
  proof (rule deliver_hub[OF del])
    fix c1 r s
    let ?w = "w\<lparr>chain_part := c1\<rparr>"
    let ?D = "connected P now ?w"
    assume "hub_execute (connected P now (w\<lparr>chain_part := c\<rparr>\<lparr>chain_part := c1\<rparr>)) (env_at now (hub_at P))
        \<lparr>info_sender = a, info_funds = [coin]\<rparr> hub_execute_msg.BondRewards (hub_part (w\<lparr>chain_part := c\<rparr>)) = Inr (r, s)"
      and ms: "ms = map (Pair (hub_at P)) (messages r)"
      and w1: "w1 = w\<lparr>chain_part := c\<rparr>\<lparr>hub_part := s, chain_part := c1\<rparr>"
    then have run: "execute_bond ?D (env_at now (hub_at P)) \<lparr>info_sender = a, info_funds = [coin]\<rparr>
        bond_type.BondRewards (hub_part w) = Inr (r, s)"
      by (simp add: hub_execute_def)
    have laws: "decimal_laws (numbers ?D)" using assms(1) by simp
    note facts = bond_rewards_facts[OF laws run]
    have "rewards_bonded ?D (env_at now (hub_at P)) (coin_amount coin) (hub_part w) s"
      using facts unfolding rewards_bonded_def by auto
    moreover have "for_chain P (mset ms + N)"
      using facts N by (auto simp: ms dest: delegates_for_chain)
    then obtain c2 where "w' = w1\<lparr>chain_part := c2\<rparr>" using settles_chain[OF out] by blast
    ultimately show ?thesis by (auto simp: w1)
  qed
qed simp

text \<open>What a completed dispatch of rewards has done between two worlds.\<close>

definition rewards_dispatched :: "('t, 'c) platform \<Rightarrow> u64 \<Rightarrow> ('t, 'c) world \<Rightarrow> ('t, 'c) world \<Rightarrow> bool" where
  "rewards_dispatched P now w w' \<longleftrightarrow> (\<exists>d chain balance fee rest. dispatcher_config_item (dispatcher_part w) = Some d
    \<and> dispatcher_hub d = hub_at P
    \<and> query_balance (chain_queries P chain) (dispatcher_at P) (statom_reward_denom d) = Inr balance
    \<and> unat (fee :: u128) = unat (coin_amount balance) * unat (atomics (lido_fee_rate d)) div fractional
    \<and> unat fee + unat rest = unat (coin_amount balance)
    \<and> registry_part w' = registry_part w \<and> dispatcher_part w' = dispatcher_part w
    \<and> token_part w' = token_part w
    \<and> (if rest = 0 then hub_part w' = hub_part w
       else \<exists>chain'. rewards_bonded (connected P now (w\<lparr>chain_part := chain'\<rparr>)) (env_at now (hub_at P))
         rest (hub_part w) (hub_part w')))"

lemma rewards_settle:
  assumes "settles P now (add_mset (user, WasmExecute (hub_at P) (HubMsg DispatchRewards) []) M) w w'"
    and "for_chain P M"
    and "decimal_laws (number_lib P)" and "load_config (hub_part w) = Inr c"
    and "reward_dispatcher_contract c = Some (dispatcher_at P)"
  shows "rewards_dispatched P now w w'"
    and "\<exists>p. load_parameters (hub_part w) = Inr p \<and> \<not> is_hub_paused p"
proof -
  have "rewards_dispatched P now w w' \<and> (\<exists>p. load_parameters (hub_part w) = Inr p \<and> \<not> is_hub_paused p)"
  proof (rule settles_next[OF assms(1,2)])
    fix ca N ms w1
    assume N: "for_chain P N" and out: "settles P now (mset ms + N) w1 w'"
      and del: "deliver P now user (WasmExecute (hub_at P) (HubMsg DispatchRewards) [])
        (w\<lparr>chain_part := ca\<rparr>) = Inr (ms, w1)"
    obtain cb r s where
      run: "hub_execute (connected P now (w\<lparr>chain_part := cb\<rparr>)) (env_at now (hub_at P))
        \<lparr>info_sender = user, info_funds = []\<rparr> DispatchRewards (hub_part w) = Inr (r, s)"
      and ms: "ms = map (Pair (hub_at P)) (messages r)" and w1: "w1 = w\<lparr>hub_part := s, chain_part := cb\<rparr>"
      by (rule deliver_hub[OF del]) auto
    obtain ms1 where same: "s = hub_part w" and ms1: "chain_only ms1"
      and running: "\<exists>p. load_parameters (hub_part w) = Inr p \<and> \<not> is_hub_paused p"
      and r: "messages r = ms1 @ [WasmExecute (dispatcher_at P) (DispatcherMsg DispatcherDispatchRewards) []]"
      by (rule dispatch_out[OF run assms(4,5)])
    have w1': "w1 = w\<lparr>chain_part := cb\<rparr>" by (cases w) (simp add: w1 same)
    let ?M = "image_mset (Pair (hub_at P)) (mset ms1) + N"
    have out1: "settles P now (add_mset (hub_at P, WasmExecute (dispatcher_at P)
        (DispatcherMsg DispatcherDispatchRewards) []) ?M) w1 w'"
      using out by (simp add: ms r)
    have M: "for_chain P ?M" using ms1 N by simp
    show ?thesis
    proof (rule settles_next[OF out1 M])
      fix cc K ms2 w2
      assume K: "for_chain P K" and out2: "settles P now (mset ms2 + K) w2 w'"
        and del2: "deliver P now (hub_at P) (WasmExecute (dispatcher_at P)
          (DispatcherMsg DispatcherDispatchRewards) []) (w1\<lparr>chain_part := cc\<rparr>) = Inr (ms2, w2)"
      let ?D = "connected P now (w1\<lparr>chain_part := cc\<rparr>)"
      obtain r2 s2 where
        run2: "dispatcher_execute ?D (env_at now (dispatcher_at P)) \<lparr>info_sender = hub_at P, info_funds = []\<rparr>
          DispatcherDispatchRewards (dispatcher_part w) = Inr (r2, s2)"
        and ms2: "ms2 = map (Pair (dispatcher_at P)) (messages r2)"
        and w2: "w2 = w\<lparr>chain_part := cc, dispatcher_part := s2\<rparr>"
        by (rule deliver_dispatcher[OF del2]) (simp add: w1')
      have laws: "decimal_laws (numbers ?D)" using assms(3) by simp
      obtain d balance fee rest where d: "dispatcher_config_item (dispatcher_part w) = Some d"
        "s2 = dispatcher_part w" "dispatcher_hub d = hub_at P"
        and balance: "query_balance (chain_queries P cc) (dispatcher_at P) (statom_reward_denom d) = Inr balance"
        and fee: "unat fee = unat (coin_amount balance) * unat (atomics (lido_fee_rate d)) div fractional"
          "unat fee + unat rest = unat (coin_amount balance)"
        and r2: "messages r2 = (if rest = 0 then [] else [WasmExecute (dispatcher_hub d)
             (HubMsg hub_execute_msg.BondRewards) [balance\<lparr>coin_amount := rest\<rparr>]])
          @ (if fee = 0 then [] else [BankSend (lido_fee_address d)
             [\<lparr>coin_denom = statom_reward_denom d, coin_amount = fee\<rparr>]])"
        using dispatch_rewards_conserves_facts[OF laws run2] by (auto simp: env_at_def)
      have w2': "w2 = w\<lparr>chain_part := cc\<rparr>" by (cases w) (simp add: w2 d(2))
      have "registry_part w' = registry_part w \<and> dispatcher_part w' = dispatcher_part w
        \<and> token_part w' = token_part w
        \<and> (if rest = 0 then hub_part w' = hub_part w
           else \<exists>chain'. rewards_bonded (connected P now (w\<lparr>chain_part := chain'\<rparr>)) (env_at now (hub_at P))
             rest (hub_part w) (hub_part w'))"
      proof (cases "rest = 0")
        case True
        then have "for_chain P (mset ms2 + K)" using K by (simp add: ms2 r2)
        from settles_chain[OF out2 this] obtain c' where "w' = w2\<lparr>chain_part := c'\<rparr>" by blast
        then show ?thesis using True w2' by simp
      next
        case False
        let ?fees = "if fee = 0 then [] else [BankSend (lido_fee_address d)
             [\<lparr>coin_denom = statom_reward_denom d, coin_amount = fee\<rparr>]]"
        let ?K = "image_mset (Pair (dispatcher_at P)) (mset ?fees) + K"
        have out3: "settles P now (add_mset (dispatcher_at P, WasmExecute (hub_at P)
            (HubMsg hub_execute_msg.BondRewards) [balance\<lparr>coin_amount := rest\<rparr>]) ?K) w2 w'"
          using out2 False d(3) by (simp add: ms2 r2)
        have K': "for_chain P ?K" using K by simp
        from rewards_arrive[OF assms(3) out3 K'] show ?thesis using False w2' by auto
      qed
      with d(1,3) balance fee show ?thesis unfolding rewards_dispatched_def using running by blast
    qed simp
  qed simp_all
  then show "rewards_dispatched P now w w'"
    and "\<exists>p. load_parameters (hub_part w) = Inr p \<and> \<not> is_hub_paused p" by blast+
qed

text \<open>
  C14: A transaction that dispatches rewards, sent by anyone and completed: the dispatcher works for
  this hub; its whole balance in the reward denomination is split into the fee, rounded down,
  and the rest, and exactly the rest is added to the bonded amount, after a slashing check, while no
  token is minted; the exchange rate is set to the new amount per token issued and requested. The
  other contracts' storage does not change; without a rest nothing changes.
\<close>

theorem rewards_transaction:
  assumes "settles P now {#(user, WasmExecute (hub_at P) (HubMsg DispatchRewards) [])#} w w'"
    and "decimal_laws (number_lib P)" and "load_config (hub_part w) = Inr c"
    and "reward_dispatcher_contract c = Some (dispatcher_at P)"
  shows "\<exists>d chain balance fee rest. dispatcher_config_item (dispatcher_part w) = Some d
    \<and> dispatcher_hub d = hub_at P
    \<and> query_balance (chain_queries P chain) (dispatcher_at P) (statom_reward_denom d) = Inr balance
    \<and> unat (fee :: u128) = unat (coin_amount balance) * unat (atomics (lido_fee_rate d)) div fractional
    \<and> unat fee + unat rest = unat (coin_amount balance)
    \<and> registry_part w' = registry_part w \<and> dispatcher_part w' = dispatcher_part w
    \<and> token_part w' = token_part w
    \<and> (if rest = 0 then hub_part w' = hub_part w
       else \<exists>chain'. rewards_bonded (connected P now (w\<lparr>chain_part := chain'\<rparr>)) (env_at now (hub_at P))
         rest (hub_part w) (hub_part w'))"
  using rewards_settle(1)[OF assms(1) _ assms(2-4)] by (simp only: rewards_dispatched_def for_chain_simps)

definition dispatch_tx :: envelope where
  "dispatch_tx = user_message ''bob'' (HubMsg DispatchRewards) ''hub'' []"

lemma sample_world_hub:
  "load_config (hub_part sample_world) = Inr sample_config"
  "hub_reachable (number_lib sample_platform) (codec sample_platform) (hub_part sample_world)"
  using sample_hub_reachable
  by (simp_all add: sample_world_def sample_hub_def load_config_def)

lemma rewards_transaction_witness:
  "token_part (after_tx 150 dispatch_tx sample_world) = token_part sample_world
    \<and> registry_part (after_tx 150 dispatch_tx sample_world) = sample_registry
    \<and> \<not> Option.is_none (run_all 20 sample_platform 150 [dispatch_tx] sample_world)"
proof -
  have ends: "\<not> Option.is_none (run_all 20 sample_platform 150 [dispatch_tx] sample_world)" by code_simp
  have tx: "settles sample_platform 150 {#(''bob'', WasmExecute (hub_at sample_platform) (HubMsg DispatchRewards) [])#}
      sample_world (after_tx 150 dispatch_tx sample_world)"
    using after_tx_settles[OF ends] by (simp add: dispatch_tx_def user_message_def)
  have "reward_dispatcher_contract sample_config = Some (dispatcher_at sample_platform)"
    by (simp add: sample_config_def)
  from rewards_transaction[OF tx sample_platform_laws(2) sample_world_hub(1) this] ends
  show ?thesis by (auto simp: sample_world_def)
qed

section \<open>Unbonding\<close>

definition issued_tokens :: "('t, 'c) platform \<Rightarrow> ('t, 'c) world \<Rightarrow> nat" where
  "issued_tokens P w = unat (supply_of P (base_store (token_part w)))"

lemma token_effect:
  assumes "cw20_laws (cw20 P) (supply_of P)"
    and "deliver P now a (WasmExecute (token_at P) (TokenMsg m) []) w = Inr (ms, w')"
  obtains hub res t where "hub_contract_item (token_part w) = Some hub"
    "w' = w\<lparr>token_part := (token_part w)\<lparr>base_store := t\<rparr>\<rparr>"
    "ms = map (Pair (token_at P)) (messages (wrapped_response hub a m res))"
    "messages res = notices a m" "issued_tokens P w' + burnt m = issued_tokens P w + minted m"
proof (rule deliver_token[OF assms(2)])
  fix r s
  assume run: "token_execute (cw20 P) (connected P now w) (env_at now (token_at P))
      \<lparr>info_sender = a, info_funds = []\<rparr> m (token_part w) = Inr (r, s)"
    and ms: "ms = map (Pair (token_at P)) (messages r)" and w': "w' = w\<lparr>token_part := s\<rparr>"
  show thesis
    by (rule token_execute_Inr[OF run], rule that)
      (use cw20_laws.library_messages[OF assms(1)] cw20_laws.library_supply[OF assms(1)]
        in \<open>auto simp: ms w' issued_tokens_def\<close>)
qed

lemma undelegates_for_chain: "undelegates_exactly d vs n ms \<Longrightarrow> chain_only ms"
  by (auto simp: undelegates_exactly_def undelegate_messages_def chain_only_def)

text \<open>The last step: the burn is followed by a slashing check, which leaves the books alone.\<close>

lemma check_arrives:
  assumes "settles P now (add_mset (a, check_slashing_msg (hub_at P)) M) w w'" and "for_chain P M"
  obtains s c where "w' = w\<lparr>hub_part := s, chain_part := c\<rparr>" "same_ledger (hub_part w) s"
proof (rule settles_next[OF assms])
  show "\<not> idle_msg P (check_slashing_msg (hub_at P))" by (simp add: check_slashing_msg_def)
next
  fix c N ms w1
  assume N: "for_chain P N" and out: "settles P now (mset ms + N) w1 w'"
    and del: "deliver P now a (check_slashing_msg (hub_at P)) (w\<lparr>chain_part := c\<rparr>) = Inr (ms, w1)"
  show thesis
  proof (rule deliver_hub[OF del[unfolded check_slashing_msg_def]])
    fix c1 r s
    assume run: "hub_execute (connected P now (w\<lparr>chain_part := c\<rparr>\<lparr>chain_part := c1\<rparr>)) (env_at now (hub_at P))
        \<lparr>info_sender = a, info_funds = []\<rparr> CheckSlashing (hub_part (w\<lparr>chain_part := c\<rparr>)) = Inr (r, s)"
      and ms: "ms = map (Pair (hub_at P)) (messages r)"
      and w1: "w1 = w\<lparr>chain_part := c\<rparr>\<lparr>hub_part := s, chain_part := c1\<rparr>"
    have "messages r = []"
      using run by (auto simp: hub_execute_def execute_slashing_def result_simps split: if_splits)
    then have "for_chain P (mset ms + N)" using N by (simp add: ms)
    from settles_chain[OF out this] obtain c2 where "w' = w1\<lparr>chain_part := c2\<rparr>" by blast
    moreover have "same_ledger (hub_part w) s" using quiet_execute[OF run] by simp
    ultimately show thesis by (intro that) (simp_all add: w1)
  qed
qed

lemma burn_arrives:
  assumes "cw20_laws (cw20 P) (supply_of P)"
    and "settles P now (add_mset (hub_at P, WasmExecute (token_at P) (TokenMsg (Burn n)) []) M) w w'"
    and "for_chain P M" and "hub_contract_item (token_part w) = Some (hub_at P)"
  obtains s t c where "w' = w\<lparr>token_part := t, hub_part := s, chain_part := c\<rparr>"
    "same_ledger (hub_part w) s" "issued_tokens P w = issued_tokens P w' + unat n"
proof (rule settles_next[OF assms(2,3)])
  fix c N ms w1
  assume N: "for_chain P N" and out: "settles P now (mset ms + N) w1 w'"
    and del: "deliver P now (hub_at P) (WasmExecute (token_at P) (TokenMsg (Burn n)) [])
      (w\<lparr>chain_part := c\<rparr>) = Inr (ms, w1)"
  obtain res t where w1: "w1 = w\<lparr>chain_part := c, token_part := (token_part w)\<lparr>base_store := t\<rparr>\<rparr>"
    and ms: "ms = map (Pair (token_at P)) (messages (wrapped_response (hub_at P) (hub_at P) (Burn n) res))"
    and sup: "issued_tokens P w1 + unat n = issued_tokens P w"
    by (rule token_effect[OF assms(1) del]) (use assms(4) in \<open>auto simp: issued_tokens_def\<close>)
  have "settles P now (add_mset (token_at P, check_slashing_msg (hub_at P)) N) w1 w'"
    using out by (simp add: ms wrapped_response_def)
  then obtain s c2 where "w' = w1\<lparr>hub_part := s, chain_part := c2\<rparr>" "same_ledger (hub_part w1) s"
    using N by (rule check_arrives)
  then show thesis using sup by (intro that) (auto simp: w1 issued_tokens_def)
qed simp

lemma request_arrives:
  assumes "cw20_laws (cw20 P) (supply_of P)" and "bignum_laws (number_lib P)" and "codec_laws (codec P)"
    and "settles P now (add_mset (token_at P, WasmExecute (hub_at P) (HubMsg (Receive m)) []) M) w w'"
    and "for_chain P M" and "hub_reachable (number_lib P) (codec P) (hub_part w)"
    and "load_config (hub_part w) = Inr c" and "statom_token_contract c = Some (token_at P)"
    and "hub_contract_item (token_part w) = Some (hub_at P)"
  obtains b b' requested where "registry_part w' = registry_part w" "dispatcher_part w' = dispatcher_part w"
    "issued_tokens P w = issued_tokens P w' + unat (cw20_amount m)"
    "load_current_batch (hub_part w) = Inr b" "load_current_batch (hub_part w') = Inr b'"
    "\<And>u i. user_request (codec P) (hub_part w') u i = user_request (codec P) (hub_part w) u i
        + (if u = cw20_sender m \<and> i = current_id b then unat (cw20_amount m) else 0)"
    "unat requested = unat (requested_statom b) + unat (cw20_amount m)"
    "b' = \<lparr>current_id = current_id b, requested_statom = requested\<rparr>
      \<or> unat (current_id b') = unat (current_id b) + 1 \<and> requested_statom b' = 0
        \<and> (\<exists>h. history_at (hub_part w') (current_id b) = Some h \<and> statom_amount h = requested)"
proof (rule settles_next[OF assms(4,5)])
  fix ch N ms w1
  assume N: "for_chain P N" and out: "settles P now (mset ms + N) w1 w'"
    and del: "deliver P now (token_at P) (WasmExecute (hub_at P) (HubMsg (Receive m)) [])
      (w\<lparr>chain_part := ch\<rparr>) = Inr (ms, w1)"
  let ?D = "connected P now (w\<lparr>chain_part := ch\<rparr>)"
  obtain r s where run: "hub_execute ?D (env_at now (hub_at P)) \<lparr>info_sender = token_at P, info_funds = []\<rparr>
      (Receive m) (hub_part w) = Inr (r, s)"
    and ms: "ms = map (Pair (hub_at P)) (messages r)" and w1: "w1 = w\<lparr>hub_part := s, chain_part := ch\<rparr>"
    by (rule deliver_hub[OF del]) auto
  have libs: "numbers ?D = number_lib P" "api ?D = codec P" by simp_all
  obtain p :: parameters and c' token b st requested passed us where config: "load_config (hub_part w) = Inr c'"
      "statom_token_contract c' = Some token" and b: "load_current_batch (hub_part w) = Inr b"
    and req: "unat requested = unat (requested_statom b) + unat (cw20_amount m)"
    and out_r: "messages r = us @ [WasmExecute token (TokenMsg (Burn (cw20_amount m))) []]"
    and users: "\<forall>u i. user_request (codec P) s u i = user_request (codec P) (hub_part w) u i
        + (if u = cw20_sender m \<and> i = current_id b then unat (cw20_amount m) else 0)"
    and batch: "if passed \<le> epoch_period p then us = [] \<and> batch_collects b requested s
       else (\<exists>amount ds. unat amount
            = unat requested * unat (atomics (statom_exchange_rate st)) div fractional
          \<and> query_all_delegations (querier ?D) (contract_address (env_at now (hub_at P))) = Inr ds
          \<and> undelegates_exactly (underlying_coin_denom p) (delegation_validator ` set ds) (unat amount) us
          \<and> batch_closes (env_at now (hub_at P)) b st requested amount s)"
    using unbond_request_correct_facts[OF assms(6,2,3) libs run] by blast
  have r: "messages r = us @ [WasmExecute (token_at P) (TokenMsg (Burn (cw20_amount m))) []]"
    using config assms(7,8) out_r by simp
  have "chain_only us" using batch by (auto dest: undelegates_for_chain split: if_splits)
  then have rest: "for_chain P (image_mset (Pair (hub_at P)) (mset us) + N)" using N by simp
  have out1: "settles P now (add_mset (hub_at P, WasmExecute (token_at P) (TokenMsg (Burn (cw20_amount m))) [])
      (image_mset (Pair (hub_at P)) (mset us) + N)) w1 w'"
    using out by (simp add: ms r)
  have "hub_contract_item (token_part w1) = Some (hub_at P)" using assms(9) by (simp add: w1)
  then obtain s' t c' where w': "w' = w1\<lparr>token_part := t, hub_part := s', chain_part := c'\<rparr>"
    and same: "same_ledger (hub_part w1) s'" and sup: "issued_tokens P w1 = issued_tokens P w' + unat (cw20_amount m)"
    by (rule burn_arrives[OF assms(1) out1 rest])
  have hub: "hub_part w' = s'" "wait_list s' = wait_list s" "history_at s' = history_at s"
    "current_batch_item s' = current_batch_item s"
    using same by (simp_all add: w' w1 same_ledger_def history_at_def fun_eq_iff)
  obtain b' where b': "current_batch_item s = Some b'"
    and step: "b' = \<lparr>current_id = current_id b, requested_statom = requested\<rparr>
      \<or> unat (current_id b') = unat (current_id b) + 1 \<and> requested_statom b' = 0
        \<and> (\<exists>h. history_at s (current_id b) = Some h \<and> statom_amount h = requested)"
    using batch by (auto simp: batch_collects_def batch_closes_def split: if_splits)
  show thesis
  proof (rule that[OF _ _ _ b _ _ req])
    show "registry_part w' = registry_part w" and "dispatcher_part w' = dispatcher_part w"
      by (simp_all add: w' w1)
    show "issued_tokens P w = issued_tokens P w' + unat (cw20_amount m)"
      using sup by (simp add: w1 issued_tokens_def)
    show "load_current_batch (hub_part w') = Inr b'" by (simp add: hub b' load_current_batch_def)
    show "user_request (codec P) (hub_part w') u i = user_request (codec P) (hub_part w) u i
        + (if u = cw20_sender m \<and> i = current_id b then unat (cw20_amount m) else 0)" for u i
      using users[rule_format, of u i] user_request_cong[OF hub(2), of "codec P"] by (simp add: hub(1))
    show "b' = \<lparr>current_id = current_id b, requested_statom = requested\<rparr>
      \<or> unat (current_id b') = unat (current_id b) + 1 \<and> requested_statom b' = 0
        \<and> (\<exists>h. history_at (hub_part w') (current_id b) = Some h \<and> statom_amount h = requested)"
      using step by (simp add: hub)
  qed
qed simp

text \<open>
  C12: A transaction in which a user sends stAtom to the hub to unbond, completed: the user's request
  in the current batch grows by the amount and no other request changes; exactly the amount is
  burnt. While the batch only collects, the tokens issued and the tokens requested, which together
  divide the bonded amount in the exchange rate, keep their sum; when it closes, its history records
  all that was requested and the next batch is empty.
\<close>

theorem unbond_transaction:
  assumes "settles P now {#(user, WasmExecute (token_at P) (TokenMsg (Send (hub_at P) n hook)) [])#} w w'"
    and "cw20_laws (cw20 P) (supply_of P)" and "bignum_laws (number_lib P)" and "codec_laws (codec P)"
    and "hub_reachable (number_lib P) (codec P) (hub_part w)"
    and "load_config (hub_part w) = Inr c" and "statom_token_contract c = Some (token_at P)"
    and "hub_contract_item (token_part w) = Some (hub_at P)"
  shows "\<exists>b b'. load_current_batch (hub_part w) = Inr b \<and> load_current_batch (hub_part w') = Inr b'
    \<and> (\<forall>u i. user_request (codec P) (hub_part w') u i = user_request (codec P) (hub_part w) u i
        + (if u = user \<and> i = current_id b then unat n else 0))
    \<and> issued_tokens P w = issued_tokens P w' + unat n
    \<and> registry_part w' = registry_part w \<and> dispatcher_part w' = dispatcher_part w
    \<and> (if current_id b' = current_id b
       then issued_tokens P w' + unat (requested_statom b') = issued_tokens P w + unat (requested_statom b)
       else unat (current_id b') = unat (current_id b) + 1 \<and> requested_statom b' = 0
         \<and> (\<exists>h. history_at (hub_part w') (current_id b) = Some h
           \<and> unat (statom_amount h) = unat (requested_statom b) + unat n))"
proof (rule settles_next[OF assms(1)])
  fix ch N ms w1
  let ?m = "\<lparr>cw20_sender = user, cw20_amount = n, cw20_msg = hook\<rparr>"
  assume N: "for_chain P N" and out: "settles P now (mset ms + N) w1 w'"
    and del: "deliver P now user (WasmExecute (token_at P) (TokenMsg (Send (hub_at P) n hook)) [])
      (w\<lparr>chain_part := ch\<rparr>) = Inr (ms, w1)"
  obtain res t where w1: "w1 = w\<lparr>chain_part := ch, token_part := (token_part w)\<lparr>base_store := t\<rparr>\<rparr>"
    and ms: "ms = [(token_at P, WasmExecute (hub_at P) (HubMsg (Receive ?m)) [])]"
    and sup: "issued_tokens P w1 = issued_tokens P w"
    by (rule token_effect[OF assms(2) del]) (auto simp: issued_tokens_def wrapped_response_def)
  have out1: "settles P now (add_mset (token_at P, WasmExecute (hub_at P) (HubMsg (Receive ?m)) []) N) w1 w'"
    using out by (simp add: ms)
  have same: "hub_part w1 = hub_part w" "registry_part w1 = registry_part w"
    "dispatcher_part w1 = dispatcher_part w" "hub_contract_item (token_part w1) = Some (hub_at P)"
    using assms(8) by (simp_all add: w1)
  show ?thesis
  proof (rule request_arrives[OF assms(2,3,4) out1 N _ _ assms(7) same(4), unfolded same(1-3), OF assms(5,6)])
    fix b b' requested
    assume facts: "registry_part w' = registry_part w" "dispatcher_part w' = dispatcher_part w"
      "issued_tokens P w1 = issued_tokens P w' + unat (cw20_amount ?m)"
      "load_current_batch (hub_part w) = Inr b" "load_current_batch (hub_part w') = Inr b'"
      "\<And>u i. user_request (codec P) (hub_part w') u i = user_request (codec P) (hub_part w) u i
        + (if u = cw20_sender ?m \<and> i = current_id b then unat (cw20_amount ?m) else 0)"
      "unat requested = unat (requested_statom b) + unat (cw20_amount ?m)"
      "b' = \<lparr>current_id = current_id b, requested_statom = requested\<rparr>
      \<or> unat (current_id b') = unat (current_id b) + 1 \<and> requested_statom b' = 0
        \<and> (\<exists>h. history_at (hub_part w') (current_id b) = Some h \<and> statom_amount h = requested)"
    show ?thesis
      by (rule exI[of _ b], rule exI[of _ b']) (use facts sup in auto)
  qed
qed simp_all

definition unbond_tx :: envelope where
  "unbond_tx = user_message ''ann'' (TokenMsg (Send ''hub'' 7 [1])) ''tok'' []"

lemma unbond_transaction_witness:
  "issued_tokens sample_platform (after_tx 150 unbond_tx sample_world) = 78
    \<and> user_request reference_api (hub_part (after_tx 150 unbond_tx sample_world)) ''ann'' 2 = 12"
proof -
  have "\<not> Option.is_none (run_all 20 sample_platform 150 [unbond_tx] sample_world)" by code_simp
  then have tx: "settles sample_platform 150
      {#(''ann'', WasmExecute (token_at sample_platform) (TokenMsg (Send (hub_at sample_platform) 7 [1])) [])#}
      sample_world (after_tx 150 unbond_tx sample_world)"
    using after_tx_settles[of 150 unbond_tx sample_world] by (simp add: unbond_tx_def user_message_def)
  have token: "statom_token_contract sample_config = Some (token_at sample_platform)"
    "hub_contract_item (token_part sample_world) = Some (hub_at sample_platform)"
    by (simp_all add: sample_config_def sample_world_def)
  have "user_request reference_api (hub_part sample_world) ''ann'' 2 = 5"
    "issued_tokens sample_platform sample_world = 85" by code_simp+
  moreover have "load_current_batch (hub_part sample_world) = Inr \<lparr>current_id = 2, requested_statom = 5\<rparr>"
    by (simp add: sample_world_def sample_hub_def load_current_batch_def)
  ultimately show ?thesis
    using unbond_transaction[OF tx sample_platform_laws(5,1,4) sample_world_hub(2,1) token] by auto
qed

section \<open>Removing a validator\<close>

lemma proxy_accepted:
  assumes "load_config (hub_part w) = Inr c" and "validators_registry_contract c = Some (registry_at P)"
  shows "deliver P now (registry_at P) (proxy_msg P src reds) w
    = Inr (map (\<lambda>(dst, x). (hub_at P, Redelegate src dst x)) reds, w)"
proof -
  have "hub_execute D env \<lparr>info_sender = registry_at P, info_funds = []\<rparr> (RedelegateProxy src reds) (hub_part w)
      = Inr (add_messages (map (\<lambda>(dst, x). Redelegate src dst x) reds) new_response, hub_part w)" for D env
    using assms by (simp add: hub_execute_def execute_redelegate_proxy_def)
  then show ?thesis
    by (cases w) (auto simp: proxy_msg_def deliver_def call_contract_def Let_def)
qed

lemma removal_delivered:
  assumes "deliver P now sender (WasmExecute (registry_at P) (RegistryMsg (RemoveValidator v)) []) w = Inr (ms, w1)"
    and "uint128_laws (number_lib P)" and "registry_wf (registry_part w)"
    and "registry_config (registry_part w) = Some c" and "registry_hub c = hub_at P"
  shows "sender = registry_owner c" and "w1 = w\<lparr>registry_part := registry_part w1\<rparr>"
    and "registered (registry_part w1) = registered (registry_part w) - {v}" and "registered (registry_part w1) \<noteq> {}"
    and "movable_delegation (chain_queries P (chain_part w)) (hub_at P) v = None \<Longrightarrow> ms = []"
    and "movable_delegation (chain_queries P (chain_part w)) (hub_at P) v = Some d \<Longrightarrow>
      \<exists>reds. ms = [(registry_at P, proxy_msg P v reds), (registry_at P, WasmExecute (hub_at P) (HubMsg DispatchRewards) [])]
        \<and> redelegation_plan d (registered (registry_part w1)) reds"
proof -
  let ?D = "connected P now w"
  obtain r s where run: "remove_validator ?D \<lparr>info_sender = sender, info_funds = []\<rparr> v (registry_part w) = Inr (r, s)"
    and ms: "ms = map (Pair (registry_at P)) (messages r)" and w1: "w1 = w\<lparr>registry_part := s\<rparr>"
    using assms(1) by (auto simp: deliver_def call_contract_def Let_def result_simps registry_execute_def
        split: prod.splits)
  have laws: "uint128_laws (numbers ?D)" using assms(2) by simp
  have same: "movable_delegation (querier ?D) (hub_at P) v
      = movable_delegation (chain_queries P (chain_part w)) (hub_at P) v"
    by (simp add: movable_delegation_def)
  note facts = remove_validator_correct_facts[OF laws assms(3) run]
  have reg: "registry_part w1 = s" by (simp add: w1)
  show "sender = registry_owner c" using facts assms(4) by auto
  show "w1 = w\<lparr>registry_part := registry_part w1\<rparr>" by (simp add: w1)
  show "registered (registry_part w1) = registered (registry_part w) - {v}"
    and "registered (registry_part w1) \<noteq> {}"
    unfolding reg using facts by blast+
  have sent: "case movable_delegation (querier ?D) (hub_at P) v of
        None \<Rightarrow> messages r = []
      | Some d \<Rightarrow> \<exists>reds. messages r = [proxy_msg P v reds, WasmExecute (hub_at P) (HubMsg DispatchRewards) []]
          \<and> redelegation_plan d (registered s) reds"
  proof -
    obtain c' where "registry_config (registry_part w) = Some c'"
      and sent: "case movable_delegation (querier ?D) (registry_hub c') v of
          None \<Rightarrow> messages r = []
        | Some d \<Rightarrow> \<exists>reds. messages r = [WasmExecute (registry_hub c') (HubMsg (RedelegateProxy v reds)) [],
              WasmExecute (registry_hub c') (HubMsg DispatchRewards) []]
            \<and> redelegation_plan d (registered s) reds"
      using facts by blast
    then have "registry_hub c' = hub_at P" using assms(4,5) by simp
    from sent[unfolded this] show ?thesis by (simp only: proxy_msg_def)
  qed
  show "ms = []" if "movable_delegation (chain_queries P (chain_part w)) (hub_at P) v = None"
    using sent by (simp add: same that ms)
  show "\<exists>reds. ms = [(registry_at P, proxy_msg P v reds), (registry_at P, WasmExecute (hub_at P) (HubMsg DispatchRewards) [])]
      \<and> redelegation_plan d (registered (registry_part w1)) reds"
    if "movable_delegation (chain_queries P (chain_part w)) (hub_at P) v = Some d"
    using sent by (auto simp: same that ms w1)
qed

text \<open>
  C23: A transaction that removes a validator, completed, with the messages delivered in it: it came
  from the registry's owner, exactly that validator left the registry and one at least remains. If all
  of the hub's delegation to it could move (\<open>movable_delegation\<close>), the hub was not paused, the chain was
  given redelegations from the removed validator that add up to the whole delegation, in
  non-zero parts, each to a validator still registered, and rewards were dispatched as a user's
  \<open>dispatch_rewards\<close> does; whenever the registry's request for these redelegations arrives at a hub that knows
  this registry, paused or not, it is accepted. If the delegation could not move, the registry is all
  that changed.
\<close>

theorem removal_reaches_chain:
  assumes "settled_by P now {#(sender, WasmExecute (registry_at P) (RegistryMsg (RemoveValidator v)) [])#} w es w'"
    and "decimal_laws (number_lib P)" and "registry_wf (registry_part w)"
    and "registry_config (registry_part w) = Some c" and "registry_hub c = hub_at P"
    and "load_config (hub_part w) = Inr hub" and "reward_dispatcher_contract hub = Some (dispatcher_at P)"
  shows "sender = registry_owner c
    \<and> registered (registry_part w') = registered (registry_part w) - {v} \<and> registered (registry_part w') \<noteq> {}
    \<and> (case movable_delegation (chain_queries P (chain_part w)) (hub_at P) v of
         None \<Rightarrow> w' = w\<lparr>registry_part := registry_part w'\<rparr>
       | Some d \<Rightarrow> (\<exists>reds. redelegation_plan d (registered (registry_part w')) reds
             \<and> mset (map (\<lambda>(dst, x). (hub_at P, Redelegate v dst x)) reds) \<subseteq># mset es
             \<and> (\<forall>w2 hub2 now2. load_config (hub_part w2) = Inr hub2
                 \<and> validators_registry_contract hub2 = Some (registry_at P) \<longrightarrow>
                   deliver P now2 (registry_at P) (proxy_msg P v reds) w2
                     = Inr (map (\<lambda>(dst, x). (hub_at P, Redelegate v dst x)) reds, w2)))
           \<and> (\<exists>p. load_parameters (hub_part w) = Inr p \<and> \<not> is_hub_paused p)
           \<and> rewards_dispatched P now (w\<lparr>registry_part := registry_part w'\<rparr>) w')"
  using assms(1)
proof cases
  case (delivered a m ms w1 M es1)
  have first: "deliver P now sender (WasmExecute (registry_at P) (RegistryMsg (RemoveValidator v)) []) w = Inr (ms, w1)"
    and rest: "settled_by P now (mset ms) w1 es1 w'" and es: "mset es1 \<subseteq># mset es"
    using delivered by auto
  have "uint128_laws (number_lib P)" using assms(2) by (simp add: decimal_laws_def)
  note removal = removal_delivered[OF first this assms(3-5)]
  show ?thesis
  proof (cases "movable_delegation (chain_queries P (chain_part w)) (hub_at P) v")
    case None
    then have "w' = w1" using rest removal(5) by (auto elim: settled_by.cases)
    then show ?thesis using None removal(1-4) by simp
  next
    case (Some d)
    obtain reds where ms: "ms = [(registry_at P, proxy_msg P v reds),
        (registry_at P, WasmExecute (hub_at P) (HubMsg DispatchRewards) [])]"
      and plan: "redelegation_plan d (registered (registry_part w1)) reds"
      using removal(6)[OF Some] by blast
    obtain ms' v1 v2 where "deliver P now (registry_at P) (proxy_msg P v reds) v1 = Inr (ms', v2)"
      and sub: "mset ms' \<subseteq># mset es1"
      by (rule settled_by_emits[OF rest, of "registry_at P" "proxy_msg P v reds"]) (simp_all add: ms)
    then have "mset (map (\<lambda>(dst, x). (hub_at P, Redelegate v dst x)) reds) \<subseteq># mset es"
      using subset_mset.order_trans[OF sub es] proxy_effect(1) by metis
    note carried = this
    have hub1: "hub_part w1 = hub_part w" by (subst removal(2)) simp
    have rewards: "settles P now (add_mset (registry_at P, WasmExecute (hub_at P) (HubMsg DispatchRewards) [])
        {#(registry_at P, proxy_msg P v reds)#}) w1 w'"
      using settled_by_settles[OF rest] by (simp add: ms add_mset_commute)
    note finished = rewards_settle[OF rewards _ assms(2), unfolded hub1, OF _ assms(6,7)]
    have dispatched: "rewards_dispatched P now w1 w'" using finished(1) by simp
    then have reg: "registry_part w' = registry_part w1"
      unfolding rewards_dispatched_def by blast
    have w1: "w\<lparr>registry_part := registry_part w'\<rparr> = w1" using removal(2) reg by simp
    have running: "\<exists>p. load_parameters (hub_part w) = Inr p \<and> \<not> is_hub_paused p" using finished(2) by simp
    show ?thesis
      unfolding Some option.case w1 unfolding reg
      using removal(1,3,4) plan carried dispatched running
      by (intro conjI exI[of _ reds] allI impI) (blast intro: proxy_accepted)+
  qed
qed simp

definition removal_tx :: envelope where
  "removal_tx = user_message ''owner'' (RegistryMsg (RemoveValidator ''a'')) ''reg'' []"

lemma removal_reaches_chain_witness:
  "\<exists>es reds. settled_by sample_platform 150 {#removal_tx#} sample_world es (after_tx 150 removal_tx sample_world)
    \<and> mset (map (\<lambda>(dst, x). (''hub'', Redelegate ''a'' dst x)) reds) \<subseteq># mset es
    \<and> total (map (coin_amount \<circ> snd) reds) = 60 \<and> fst ` set reds \<subseteq> {''b'', ''c''}
    \<and> hub_part (after_tx 150 removal_tx sample_world) \<noteq> hub_part sample_world"
proof -
  have "\<not> Option.is_none (run_all 20 sample_platform 150 [removal_tx] sample_world)" by code_simp
  from settles_log[OF after_tx_settles[OF this]] obtain es where
    log: "settled_by sample_platform 150 {#removal_tx#} sample_world es (after_tx 150 removal_tx sample_world)" by blast
  have tx: "removal_tx = (''owner'', WasmExecute (registry_at sample_platform) (RegistryMsg (RemoveValidator ''a'')) [])"
    by (simp add: removal_tx_def user_message_def)
  have config: "registry_wf (registry_part sample_world)"
    "registry_config (registry_part sample_world) = Some \<lparr>registry_owner = ''owner'', registry_hub = ''hub''\<rparr>"
    "registry_hub \<lparr>registry_owner = ''owner'', registry_hub = ''hub''\<rparr> = hub_at sample_platform"
    "reward_dispatcher_contract sample_config = Some (dispatcher_at sample_platform)"
    using sample_registry_wf by (simp_all add: sample_world_def sample_registry_def sample_config_def)
  have movable: "movable_delegation (chain_queries sample_platform (chain_part sample_world)) (hub_at sample_platform) ''a''
      = Some \<lparr>full_validator = ''a'', full_amount = uatom 60, full_can_redelegate = uatom 60\<rparr>"
    by (simp add: movable_delegation_def sample_platform_def chain_answers_def)
  have "registered (registry_part sample_world) - {''a''} = {''b'', ''c''}"
    by (auto simp: sample_world_def sample_registry_def)
  note removed = removal_reaches_chain[OF log[unfolded tx] sample_platform_laws(2) config(1-3)
      sample_world_hub(1) config(4), folded tx, unfolded movable option.case this]
  obtain reds where plan: "redelegation_plan
      \<lparr>full_validator = ''a'', full_amount = uatom 60, full_can_redelegate = uatom 60\<rparr>
      (registered (registry_part (after_tx 150 removal_tx sample_world))) reds"
    and carried: "mset (map (\<lambda>(dst, x). (hub_at sample_platform, Redelegate ''a'' dst x)) reds) \<subseteq># mset es"
    using removed by blast
  have "redelegation_plan \<lparr>full_validator = ''a'', full_amount = uatom 60, full_can_redelegate = uatom 60\<rparr>
      {''b'', ''c''} reds"
    using plan removed by simp
  then have "total (map (coin_amount \<circ> snd) reds) = 60" "fst ` set reds \<subseteq> {''b'', ''c''}"
    by (auto simp: redelegation_plan_def uatom_def)
  moreover have "(hub_part (after_tx 150 removal_tx sample_world) = hub_part sample_world) = False" by code_simp
  ultimately show ?thesis using log carried[unfolded sample_platform_simps] by blast
qed

end
