(* ===== verification/Exchange_Rate.thy ===== *)
theory Exchange_Rate
  imports Hub_Requests Cw20
begin

text \<open>
  What a stAtom is worth: the bonded amount divided by the tokens issued and requested. The
  hub rounds in favour of those who stay, so no message lowers that worth; only slashing does.
  The messages a handler emits to the token are counted as carried out.
\<close>

section \<open>Rounding\<close>

lemma rate_spec_pos: "0 < bonded \<Longrightarrow> 0 < supply \<Longrightarrow> rate_spec bonded supply = bonded * fractional div supply"
  by (simp add: rate_spec_def)

lemma rate_spec_backed: "0 < bonded \<Longrightarrow> rate_spec bonded supply * supply \<le> bonded * fractional"
  by (cases "supply = 0") (simp_all add: rate_spec_def)

lemma rate_specI:
  assumes "0 < bonded" and "0 < supply" and "r * supply \<le> bonded * fractional"
  shows "r \<le> rate_spec bonded supply"
  using assms by (simp add: rate_spec_pos less_eq_div_iff_mult_less_eq)

text \<open>A deposit of \<open>p\<close> mints at the rate, rounded down.\<close>

lemma rate_after_deposit:
  assumes "0 < bonded" and "r = rate_spec bonded supply" and "0 < supply + p * fractional div r"
  shows "r \<le> rate_spec (bonded + p) (supply + p * fractional div r)"
proof (rule rate_specI)
  have "r * supply \<le> bonded * fractional" using rate_spec_backed[OF assms(1)] assms(2) by simp
  moreover have "r * (p * fractional div r) \<le> p * fractional" by simp
  ultimately show "r * (supply + p * fractional div r) \<le> (bonded + p) * fractional"
    by (simp only: add_mult_distrib add_mult_distrib2 add_le_mono)
qed (use assms in simp_all)

text \<open>Closing a batch of \<open>q\<close> takes its worth at the rate, rounded down, out of the bonded amount.\<close>

lemma rate_after_undelegation:
  assumes "0 < bonded" and "r = rate_spec bonded supply" and "q < supply"
    and "q * r div fractional \<le> bonded"
  shows "r \<le> rate_spec (bonded - q * r div fractional) (supply - q)"
proof -
  let ?u = "q * r div fractional"
  have "r * supply \<le> bonded * fractional" using rate_spec_backed[OF assms(1)] assms(2) by simp
  moreover have "?u * fractional \<le> q * r" by (rule div_times_less_eq_dividend)
  moreover have "r * (supply - q) = r * supply - q * r" by (simp add: diff_mult_distrib2 mult.commute)
  moreover have "(bonded - ?u) * fractional = bonded * fractional - ?u * fractional"
    by (rule diff_mult_distrib)
  moreover have "?u * fractional \<le> bonded * fractional" using assms(4) by (rule mult_right_mono) simp
  ultimately have backed: "r * (supply - q) \<le> (bonded - ?u) * fractional" by linarith
  show ?thesis
  proof (cases "bonded - ?u = 0")
    case True
    then have "r * (supply - q) = 0" using backed by simp
    then have "r = 0" using assms(3) by simp
    then show ?thesis by simp
  next
    case False
    then show ?thesis using assms(3) backed by (intro rate_specI) simp_all
  qed
qed

section \<open>The token's supply\<close>

text \<open>What the messages of a response mint and burn at a token contract.\<close>

fun token_minted :: "addr \<Rightarrow> payload cosmos_msg \<Rightarrow> nat" where
  "token_minted token (WasmExecute a (TokenMsg m) funds) = (if a = token then minted m else 0)"
| "token_minted token m = 0"

fun token_burnt :: "addr \<Rightarrow> payload cosmos_msg \<Rightarrow> nat" where
  "token_burnt token (WasmExecute a (TokenMsg m) funds) = (if a = token then burnt m else 0)"
| "token_burnt token m = 0"

definition minted_by :: "addr \<Rightarrow> payload cosmos_msg list \<Rightarrow> nat" where
  "minted_by token ms = (\<Sum>m \<leftarrow> ms. token_minted token m)"

definition burnt_by :: "addr \<Rightarrow> payload cosmos_msg list \<Rightarrow> nat" where
  "burnt_by token ms = (\<Sum>m \<leftarrow> ms. token_burnt token m)"

definition supply_kept :: "payload cosmos_msg list \<Rightarrow> bool" where
  "supply_kept ms \<longleftrightarrow> (\<forall>token. minted_by token ms = 0 \<and> burnt_by token ms = 0)"

lemma by_simps [simp]:
  "minted_by token [] = 0" "burnt_by token [] = 0"
  "minted_by token (m # ms) = token_minted token m + minted_by token ms"
  "burnt_by token (m # ms) = token_burnt token m + burnt_by token ms"
  "minted_by token (ms @ ms') = minted_by token ms + minted_by token ms'"
  "burnt_by token (ms @ ms') = burnt_by token ms + burnt_by token ms'"
  by (simp_all add: minted_by_def burnt_by_def)

lemma supply_kept_each:
  assumes "\<And>m token. m \<in> set ms \<Longrightarrow> token_minted token m = 0 \<and> token_burnt token m = 0"
  shows "supply_kept ms"
  using assms by (simp add: supply_kept_def minted_by_def burnt_by_def sum_list_eq_0_iff)

lemma supply_kept_delegates: "delegates_exactly d vs n ms \<Longrightarrow> supply_kept ms"
  by (rule supply_kept_each) (auto simp: delegates_exactly_def delegate_messages_def)

lemma supply_kept_undelegates: "undelegate D n a s = Inr ms \<Longrightarrow> supply_kept ms"
  by (rule supply_kept_each) (auto simp: undelegate_def result_simps Let_def)

section \<open>What the hub sees\<close>

text \<open>
  The bonded amount after what the chain reports of slashing, and the supply the token contract
  reports: the two the hub computes the rate from.
\<close>

definition sees :: "deps \<Rightarrow> env \<Rightarrow> hub_store \<Rightarrow> addr \<Rightarrow> nat \<Rightarrow> u128 \<Rightarrow> bool" where
  "sees D env s token bonded issued \<longleftrightarrow> (\<exists>st p c ds. load_state s = Inr st \<and> load_parameters s = Inr p
     \<and> load_config s = Inr c \<and> statom_token_contract c = Some token
     \<and> query_token_supply (querier D) token = Inr issued
     \<and> query_all_delegations (querier D) (contract_address env) = Inr ds
     \<and> bonded = min (unat (total_bond_statom_amount st)) (bonded_in (underlying_coin_denom p) ds))"

lemma slashing_sees:
  assumes "decimal_laws (numbers D)" and "sees D env s token bonded issued" and "0 < bonded"
    and "load_current_batch s = Inr b" and "slashing D env s = Inr (st, s1)"
  shows "unat (total_bond_statom_amount st) = bonded" and "total_statom_issued st = issued"
    and "unat (atomics (statom_exchange_rate st)) = rate_spec bonded (unat issued + unat (requested_statom b))"
proof -
  obtain st0 p c ds where st0: "load_state s = Inr st0" and p: "load_parameters s = Inr p"
    and c: "load_config s = Inr c" "statom_token_contract c = Some token"
    and issued: "query_token_supply (querier D) token = Inr issued"
    and ds: "query_all_delegations (querier D) (contract_address env) = Inr ds"
    and bonded: "bonded = min (unat (total_bond_statom_amount st0)) (bonded_in (underlying_coin_denom p) ds)"
    using assms(2) unfolding sees_def by blast
  have "ds \<noteq> []" "total_bond_statom_amount st0 \<noteq> 0" using assms(3) bonded by (auto simp: bonded_in_def)
  moreover have "query_total_statom_issued D s = Inr issued"
    using c issued by (simp add: query_total_statom_issued_def)
  ultimately show "unat (total_bond_statom_amount st) = bonded" and "total_statom_issued st = issued"
    and "unat (atomics (statom_exchange_rate st)) = rate_spec bonded (unat issued + unat (requested_statom b))"
    using decimal_laws.actual_state[OF assms(1) refl slashing_store[OF assms(5), THEN conjunct1] st0 ds]
      p assms(4) bonded by auto
qed

lemma sees_state: "sees D env s token bonded issued \<Longrightarrow>
    \<exists>st. load_state s = Inr st \<and> bonded \<le> unat (total_bond_statom_amount st)"
  by (auto simp: sees_def)

text \<open>The worth does not fall from one state to the next.\<close>

definition worth_kept ::
  "addr \<Rightarrow> nat \<Rightarrow> u128 \<Rightarrow> hub_store \<Rightarrow> payload response \<Rightarrow> hub_store \<Rightarrow> bool" where
  "worth_kept token bonded issued s r s' \<longleftrightarrow>
     (\<exists>b st' b'. load_current_batch s = Inr b \<and> load_state s' = Inr st' \<and> load_current_batch s' = Inr b'
     \<and> (\<forall>issued'. unat issued + minted_by token (messages r) = issued' + burnt_by token (messages r)
          \<and> 0 < issued' + unat (requested_statom b') \<longrightarrow>
        rate_spec bonded (unat issued + unat (requested_statom b))
          \<le> rate_spec (unat (total_bond_statom_amount st')) (issued' + unat (requested_statom b'))))"

lemma worth_kept_same:
  assumes "0 < bonded" and "load_current_batch s = Inr b" and "load_current_batch s' = Inr b"
    and "load_state s' = Inr st'" and "bonded \<le> unat (total_bond_statom_amount st')"
    and "supply_kept (messages r)"
  shows "worth_kept token bonded issued s r s'"
  using assms rate_spec_mono by (auto simp: worth_kept_def supply_kept_def)

lemma bond_worth:
  assumes "decimal_laws (numbers D)" and "sees D env s token bonded issued" and "0 < bonded"
    and "execute_bond D env info StAtom s = Inr (r, s')"
  shows "worth_kept token bonded issued s r s'"
proof -
  obtain batch where batch: "load_current_batch s = Inr batch" by (rule execute_bond_Inr[OF assms(4)])
  obtain c token' targets ms and payment :: coin and st :: hub_state and minted b :: u128 where c: "load_config s = Inr c"
      "statom_token_contract c = Some token'"
    and slash: "slashing D env s = Inr (st, save_state st s)"
    and minted: "unat minted = unat (coin_amount payment) * fractional div unat (atomics (statom_exchange_rate st))"
    and r: "messages r = ms @ [WasmExecute token' (TokenMsg (Mint (info_sender info) minted)) []]"
    and ms: "delegates_exactly (coin_denom payment) targets (unat (coin_amount payment)) ms"
    and s': "s' = save_state (st\<lparr>total_bond_statom_amount := b\<rparr>) s"
    and b: "unat b = unat (total_bond_statom_amount st) + unat (coin_amount payment)"
    using bond_mints_facts[OF assms(1,4)] by blast
  have "token' = token" using c assms(2) by (auto simp: sees_def)
  note seen = slashing_sees[OF assms(1-3) batch slash]
  have "minted_by token (messages r) = unat minted" "burnt_by token (messages r) = 0"
    using supply_kept_delegates[OF ms] by (simp_all add: r \<open>token' = token\<close> supply_kept_def)
  moreover have "load_current_batch s' = Inr batch" using batch by (simp add: s' load_current_batch_def)
  moreover have "load_state s' = Inr (st\<lparr>total_bond_statom_amount := b, total_statom_issued := 0\<rparr>)"
    by (simp add: s')
  ultimately show ?thesis
    using rate_after_deposit[OF assms(3) refl, of "unat issued + unat (requested_statom batch)"
        "unat (coin_amount payment)"] batch seen b minted
    by (auto simp: worth_kept_def ac_simps)
qed

lemma rewards_worth:
  assumes "decimal_laws (numbers D)" and "sees D env s token bonded issued" and "0 < bonded"
    and "execute_bond D env info bond_type.BondRewards s = Inr (r, s')"
  shows "worth_kept token bonded issued s r s'"
proof -
  obtain batch st b rate targets and payment :: coin where batch: "load_current_batch s = Inr batch"
    and slash: "slashing D env s = Inr (st, save_state st s)"
    and ms: "delegates_exactly (coin_denom payment) targets (unat (coin_amount payment)) (messages r)"
    and s': "s' = save_state (st\<lparr>total_bond_statom_amount := b, statom_exchange_rate := rate\<rparr>) s"
    and b: "unat b = unat (total_bond_statom_amount st) + unat (coin_amount payment)"
    using bond_rewards_facts[OF assms(1,4)] by blast
  show ?thesis
  proof (rule worth_kept_same[OF assms(3) batch])
    show "load_current_batch s' = Inr batch" using batch by (simp add: s' load_current_batch_def)
    show "load_state s' = Inr (st\<lparr>total_bond_statom_amount := b, statom_exchange_rate := rate,
        total_statom_issued := 0\<rparr>)" by (simp add: s')
    show "bonded \<le> unat (total_bond_statom_amount (st\<lparr>total_bond_statom_amount := b,
        statom_exchange_rate := rate, total_statom_issued := 0\<rparr>))"
      using slashing_sees(1)[OF assms(1-3) batch slash] b by simp
    show "supply_kept (messages r)" by (rule supply_kept_delegates[OF ms])
  qed
qed

text \<open>A request moves tokens from issued to requested; closing the batch takes both out.\<close>

lemma unbond_worth:
  assumes "decimal_laws (numbers D)" and "sees D env s token bonded issued" and "0 < bonded"
    and "execute_unbond_statom D env amount user s = Inr (r, s')"
  shows "worth_kept token bonded issued s r s'"
proof (rule execute_unbond_Inr[OF assms(4)])
  fix p b st requested s2 passed us b2 st2 s3 config token'
  assume b: "load_current_batch s = Inr b" and slash: "slashing D env s = Inr (st, save_state st s)"
    and req: "uint_add (numbers D) (requested_statom b) amount = Inr requested"
    and wl: "store_unbond_wait_list D (current_id b) user amount (save_state st s) = Inr s2"
    and x: "(if passed > epoch_period p
      then process_undelegations D env (b\<lparr>requested_statom := requested\<rparr>) st s2
      else Inr ([], b\<lparr>requested_statom := requested\<rparr>, st, s2)) = Inr (us, b2, st2, s3)"
    and s': "s' = save_state st2 (save_current_batch b2 s3)"
    and config: "load_config s' = Inr config" "statom_token_contract config = Some token'"
    and r: "messages r = us @ [WasmExecute token' (TokenMsg (Burn amount)) []]"
  have laws: "uint128_laws (numbers D)" using assms(1) by (simp add: decimal_laws_def)
  note seen = slashing_sees[OF assms(1-3) b slash]
  let ?S = "unat issued + unat (requested_statom b)"
  have requested: "unat requested = unat (requested_statom b) + unat amount"
    using req by (simp add: uint128_laws.uint_add_Inr[OF laws])
  have loads: "load_state s' = Inr (st2\<lparr>total_statom_issued := 0\<rparr>)" "load_current_batch s' = Inr b2"
    by (simp_all add: s' load_current_batch_def)
  obtain w where s2: "s2 = save_state st s\<lparr>wait_list := w\<rparr>"
    by (rule store_wait_list_Inr[OF laws wl]) blast
  have "rate_spec bonded ?S \<le> rate_spec (unat (total_bond_statom_amount st2)) (issued' + unat (requested_statom b2))"
    if sup: "unat issued = issued' + unat amount" "0 < issued' + unat (requested_statom b2)" for issued'
  proof (cases "passed > epoch_period p")
    case True
    then have und: "process_undelegations D env (b\<lparr>requested_statom := requested\<rparr>) st s2
        = Inr (us, b2, st2, s3)" using x by simp
    show ?thesis
    proof (rule process_undelegations_Inr[OF und])
      fix u left next_id
      assume u: "uint_mul_decimal (numbers D) (requested_statom (b\<lparr>requested_statom := requested\<rparr>))
          (statom_exchange_rate st) = Inr u"
        and left: "uint_checked_sub (numbers D) (total_bond_statom_amount st) u = Inr left"
        and b2: "b2 = \<lparr>current_id = next_id, requested_statom = 0\<rparr>"
        and st2: "st2 = st\<lparr>total_bond_statom_amount := left, last_unbonded_time := block_seconds env\<rparr>"
      have u_value: "unat u = unat requested * rate_spec bonded ?S div fractional"
        using decimal_laws.mul_decimal_sound[OF assms(1) u] seen(3) by simp
      have "bonded = unat u + unat left"
        using left seen(1) by (simp add: uint128_laws.uint_checked_sub_Inr[OF laws])
      then have "unat left = bonded - unat u" "unat u \<le> bonded" by simp_all
      moreover have "unat requested < ?S" "?S - unat requested = issued'" using sup requested b2 by simp_all
      ultimately show ?thesis
        using rate_after_undelegation[OF assms(3) refl, of "unat requested" ?S] u_value b2 st2 by simp
    qed
  next
    case False
    then have "b2 = b\<lparr>requested_statom := requested\<rparr>" "st2 = st" using x by simp_all
    then show ?thesis using sup requested seen(1) by (simp add: ac_simps)
  qed
  moreover have "supply_kept us"
    using x by (auto elim!: process_undelegations_Inr dest: supply_kept_undelegates
        simp: supply_kept_def split: if_splits)
  moreover have "token' = token"
  proof -
    have "config_item s3 = config_item s2"
      using x by (auto elim!: process_undelegations_Inr split: if_splits)
    then have "load_config s' = load_config s" by (simp add: load_config_def s' s2)
    then show ?thesis using config assms(2) by (auto simp: sees_def)
  qed
  ultimately show ?thesis
    using b loads by (auto simp: worth_kept_def r supply_kept_def)
qed

text \<open>A withdrawal pays from the hub's account: what is bonded and the current batch stay.\<close>

lemma release_loop_frame:
  "release_loop L time T d i st s = Inr (st', s') \<Longrightarrow>
    total_bond_statom_amount st' = total_bond_statom_amount st
    \<and> current_batch_item s' = current_batch_item s \<and> state_item s' = state_item s"
proof (induction L time T d i st s arbitrary: st' s' rule: release_loop.induct)
  case (1 L time T d i st s)
  show ?case
  proof (cases "unreleased_history s time i")
    case None
    then show ?thesis using "1.prems" by (simp add: release_loop.simps[of L])
  next
    case (Some h)
    then obtain r i' where r: "calculate_new_withdraw_rate L (statom_amount h) (statom_withdraw_rate h) T d = Inr r"
      and i': "prim_add i 1 = Inr i'"
      and rec: "release_loop L time T d i' (st\<lparr>last_processed_batch := i\<rparr>)
        (store_unbond_history i (h\<lparr>statom_withdraw_rate := r, released := True\<rparr>) s) = Inr (st', s')"
      using "1.prems" by (auto simp: release_loop.simps[of L time T d i st s] Let_def and_then_Inr_iff)
    show ?thesis using "1.IH"[OF Some r refl refl i' rec] by simp
  qed
qed

lemma process_withdraw_rate_frame:
  assumes "process_withdraw_rate D time balance s = Inr s'" and "load_state s = Inr st"
  shows "load_current_batch s' = load_current_batch s"
    and "\<exists>st'. load_state s' = Inr st' \<and> total_bond_statom_amount st' = total_bond_statom_amount st"
  using assms
  by (auto simp: process_withdraw_rate_def and_then_Inr_iff load_current_batch_def
      dest!: release_loop_frame split: if_splits)

lemma withdraw_worth:
  assumes "sees D env s token bonded issued" and "0 < bonded" and "load_current_batch s = Inr b"
    and "execute_withdraw_unbonded D env info s = Inr (r, s')"
  shows "worth_kept token bonded issued s r s'"
proof (rule execute_withdraw_Inr[OF assms(4)])
  fix time s1 amount bs prev st p and balance :: coin
  let ?s2 = "remove_unbond_wait_list D bs (info_sender info) s1"
  assume rate: "process_withdraw_rate D time (coin_amount balance) s = Inr s1"
    and st: "load_state ?s2 = Inr st"
    and r: "messages r = [BankSend (info_sender info)
      [\<lparr>coin_denom = underlying_coin_denom p, coin_amount = amount\<rparr>]]"
    and s': "s' = save_state (st\<lparr>prev_hub_balance := prev\<rparr>) ?s2"
  obtain st0 where st0: "load_state s = Inr st0" "bonded \<le> unat (total_bond_statom_amount st0)"
    using sees_state[OF assms(1)] by blast
  note frame = process_withdraw_rate_frame[OF rate st0(1)]
  have "load_state s1 = Inr st" using st by (simp add: remove_wait_list_shape load_state_def)
  then have same: "total_bond_statom_amount st = total_bond_statom_amount st0" using frame(2) by auto
  show ?thesis
  proof (rule worth_kept_same[OF assms(2,3)])
    show "load_current_batch s' = Inr b"
      using frame(1) assms(3) by (simp add: s' remove_wait_list_shape load_current_batch_def)
    show "load_state s' = Inr (st\<lparr>prev_hub_balance := prev, total_statom_issued := 0\<rparr>)"
      by (simp add: s')
    show "bonded \<le> unat (total_bond_statom_amount (st\<lparr>prev_hub_balance := prev, total_statom_issued := 0\<rparr>))"
      using st0(2) same by simp
    show "supply_kept (messages r)" by (rule supply_kept_each) (auto simp: r)
  qed
qed

text \<open>The administration touches neither, and sends the token nothing.\<close>

lemma update_config_frame:
  assumes "execute_update_config D info owner dispatcher token registry s = Inr (r, s')"
  shows "state_item s' = state_item s" and "supply_kept (messages r)"
  using assms
  by (auto simp: execute_update_config_def update_owner_def update_dispatcher_def update_token_def
      update_registry_def save_config_def result_simps supply_kept_def split: if_splits option.splits)

lemma guardians_state [simp]: "state_item (foldl (\<lambda>s' x. s'\<lparr>guardians := f x (guardians s')\<rparr>) s xs) = state_item s"
  using foldl_guardians[of f s xs] by auto

lemma admin_state:
  assumes "hub_execute D env info msg s = Inr (r, s')"
    and "msg \<notin> {BondForStAtom, hub_execute_msg.BondRewards, WithdrawUnbonded, CheckSlashing}"
    and "\<nexists>m. msg = Receive m"
  shows "state_item s' = state_item s \<and> supply_kept (messages r)"
proof (cases msg)
  case (UpdateConfig owner dispatcher registry token)
  then show ?thesis using assms(1) update_config_frame by (auto simp: hub_execute_def)
next
  case DispatchRewards
  then show ?thesis using assms(1)
    by (auto simp: hub_execute_def execute_dispatch_rewards_def withdraw_all_rewards_def result_simps
        intro!: supply_kept_each split: if_splits)
next
  case (RedelegateProxy src redelegations)
  then show ?thesis using assms(1)
    by (auto simp: hub_execute_def execute_redelegate_proxy_def result_simps
        intro!: supply_kept_each split: if_splits)
next
  case (AddGuardians addresses)
  then show ?thesis using assms(1) guardians_state[of "\<lambda>g. kv_set g True" s addresses]
    by (auto simp: hub_execute_def execute_add_guardians_def result_simps supply_kept_def Let_def split: if_splits)
qed (use assms in \<open>auto simp: hub_execute_def execute_update_params_def execute_pause_contracts_def
       execute_unpause_contracts_def execute_remove_guardians_def
       save_parameters_def supply_kept_def result_simps Let_def split: if_splits\<close>)

lemma message_worth:
  assumes "decimal_laws (numbers D)" and "sees D env s token bonded issued" and "0 < bonded"
    and "load_current_batch s = Inr b" and "hub_execute D env info msg s = Inr (r, s')"
  shows "worth_kept token bonded issued s r s'"
proof -
  obtain st0 where st0: "load_state s = Inr st0" "bonded \<le> unat (total_bond_statom_amount st0)"
    using sees_state[OF assms(2)] by blast
  consider "msg = BondForStAtom" | "msg = hub_execute_msg.BondRewards" | "msg = WithdrawUnbonded"
    | "msg = CheckSlashing" | m where "msg = Receive m"
    | "msg \<notin> {BondForStAtom, hub_execute_msg.BondRewards, WithdrawUnbonded, CheckSlashing}" "\<nexists>m. msg = Receive m"
    by blast
  then show ?thesis
  proof cases
    case 1
    then show ?thesis using assms bond_worth by (auto simp: hub_execute_def)
  next
    case 2
    then show ?thesis using assms rewards_worth by (auto simp: hub_execute_def)
  next
    case 3
    then show ?thesis using assms withdraw_worth by (auto simp: hub_execute_def)
  next
    case 4
    then obtain st where slash: "slashing D env s = Inr (st, s')" and r: "messages r = []"
      using assms(5) by (auto simp: hub_execute_def execute_slashing_def result_simps split: if_splits)
    then have s': "s' = save_state st s" using slashing_store by blast
    show ?thesis
      by (rule worth_kept_same[OF assms(3,4), where st' = "st\<lparr>total_statom_issued := 0\<rparr>"])
        (use s' r slashing_sees(1)[OF assms(1-4) slash] assms(4) in
          \<open>simp_all add: load_current_batch_def supply_kept_def\<close>)
  next
    case (5 m)
    then show ?thesis using assms unbond_worth by (auto simp: hub_execute_def elim!: receive_Inr)
  next
    case 6
    then have "same_ledger s s'" using quiet_execute[OF assms(5)] by blast
    then have "load_current_batch s' = Inr b"
      using assms(4) by (simp add: load_current_batch_def same_ledger_def)
    moreover have "load_state s' = Inr st0"
      using admin_state[OF assms(5) 6] st0(1) by (simp add: load_state_def)
    ultimately show ?thesis
      using worth_kept_same[OF assms(3,4)] st0(2) admin_state[OF assms(5) 6] by blast
  qed
qed

section \<open>Property\<close>

text \<open>
  C5: No message dilutes the holders. Let the hub see a positive bonded amount after slashing and
  an issued supply. Whatever message it then accepts, from whomever, the bonded amount per token
  issued and requested, counting the tokens its own messages mint and burn, is not lower afterwards
  than before: deposits and closed batches are rounded in favour of those who stay, rewards raise
  it, and everything else leaves it. Only slashing lowers the exchange rate.
\<close>

theorem exchange_rate_never_falls:
  assumes "decimal_laws (numbers D)" and "hub_execute D env info msg s = Inr (r, s')"
    and "load_state s = Inr st" and "load_current_batch s = Inr b" and "load_parameters s = Inr p"
    and "load_config s = Inr c" and "statom_token_contract c = Some token"
    and "query_token_supply (querier D) token = Inr issued"
    and "query_all_delegations (querier D) (contract_address env) = Inr ds"
    and "bonded = min (unat (total_bond_statom_amount st)) (bonded_in (underlying_coin_denom p) ds)"
    and "0 < bonded"
    and "unat issued + minted_by token (messages r) = issued' + burnt_by token (messages r)"
  shows "\<exists>st' b'. load_state s' = Inr st' \<and> load_current_batch s' = Inr b'
    \<and> (issued' + unat (requested_statom b') = 0
      \<or> rate_spec bonded (unat issued + unat (requested_statom b))
        \<le> rate_spec (unat (total_bond_statom_amount st')) (issued' + unat (requested_statom b')))"
proof -
  have "sees D env s token bonded issued" using assms(3,5-10) unfolding sees_def by blast
  from message_worth[OF assms(1) this assms(11,4,2)] show ?thesis
    using assms(4,12) unfolding worth_kept_def by auto
qed

lemma exchange_rate_never_falls_witness:
  "\<exists>st'. load_state (snd (projr (hub_execute (sample_deps 0) (at_time 150) (call_from ''bob'' [uatom 19])
        BondForStAtom sample_hub))) = Inr st'
    \<and> rate_spec 95 90 \<le> rate_spec (unat (total_bond_statom_amount st')) 108"
proof -
  let ?D = "sample_deps 0" and ?env = "at_time 150"
  let ?run = "hub_execute ?D ?env (call_from ''bob'' [uatom 19]) BondForStAtom sample_hub"
  let ?ds = "[\<lparr>delegation_validator = ''a'', delegation_coin = uatom 60\<rparr>,
      \<lparr>delegation_validator = ''b'', delegation_coin = uatom 35\<rparr>]"
  have "isl ?run = False" by code_simp
  then obtain r s' where run: "?run = Inr (r, s')" by (cases ?run) auto
  have laws: "decimal_laws (numbers ?D)" by (simp add: reference.decimal_laws_axioms)
  have loads: "load_state sample_hub = Inr sample_state"
    "load_current_batch sample_hub = Inr \<lparr>current_id = 2, requested_statom = 5\<rparr>"
    "load_parameters sample_hub = Inr sample_parameters" "load_config sample_hub = Inr sample_config"
    by (simp_all add: load_state_def load_current_batch_def load_parameters_def load_config_def sample_hub_def)
  have token: "statom_token_contract sample_config = Some ''tok''" by (simp add: sample_config_def)
  have answers: "query_token_supply (querier ?D) ''tok'' = Inr 85"
    "query_all_delegations (querier ?D) (contract_address ?env) = Inr ?ds"
    by (simp_all add: sample_deps_def fixed_querier_def)
  have bonded: "95 = min (unat (total_bond_statom_amount sample_state))
      (bonded_in (underlying_coin_denom sample_parameters) ?ds)"
    by (simp add: sample_state_def sample_parameters_def bonded_in_def uatom_def)
  have "minted_by ''tok'' (messages (fst (projr ?run))) = 18" "burnt_by ''tok'' (messages (fst (projr ?run))) = 0"
    by code_simp+
  then have sup: "unat (85 :: u128) + minted_by ''tok'' (messages r) = 103 + burnt_by ''tok'' (messages r)"
    by (simp add: run)
  have "current_batch_item (snd (projr ?run)) = Some \<lparr>current_id = 2, requested_statom = 5\<rparr>" by code_simp
  then have "load_current_batch s' = Inr \<lparr>current_id = 2, requested_statom = 5\<rparr>"
    by (simp add: run load_current_batch_def)
  then show ?thesis
    using exchange_rate_never_falls[OF laws run loads token answers bonded _ sup] run by auto
qed

end
