(* ===== verification/Deposits.thy ===== *)
theory Deposits
  imports Flows Exchange_Rate
begin

text \<open>
  The fourth way the contracts work together: a deposit, from the user's coins to the minted
  tokens (hub, registry, token), and what it does to the worth of a token.
\<close>

section \<open>Minting\<close>

lemma mint_arrives:
  assumes "cw20_laws (cw20 P) (supply_of P)"
    and "settles P now (add_mset (hub_at P, WasmExecute (token_at P) (TokenMsg (Mint user n)) []) M) w w'"
    and "for_chain P M"
  obtains t c where "w' = w\<lparr>token_part := t, chain_part := c\<rparr>"
    "issued_tokens P w' = issued_tokens P w + unat n"
proof (rule settles_next[OF assms(2,3)])
  fix c N ms w1
  assume N: "for_chain P N" and out: "settles P now (mset ms + N) w1 w'"
    and del: "deliver P now (hub_at P) (WasmExecute (token_at P) (TokenMsg (Mint user n)) [])
      (w\<lparr>chain_part := c\<rparr>) = Inr (ms, w1)"
  obtain res t where w1: "w1 = w\<lparr>chain_part := c, token_part := (token_part w)\<lparr>base_store := t\<rparr>\<rparr>"
    and ms: "ms = []" and sup: "issued_tokens P w1 = issued_tokens P w + unat n"
    by (rule token_effect[OF assms(1) del]) (auto simp: issued_tokens_def wrapped_response_def)
  have "for_chain P (mset ms + N)" using N ms by simp
  from settles_chain[OF out this] obtain c2 where "w' = w1\<lparr>chain_part := c2\<rparr>" by blast
  then show thesis using sup by (intro that) (auto simp: w1 issued_tokens_def)
qed simp

text \<open>The validators the hub is told of are those of this registry.\<close>

lemma told_validators:
  assumes "registry_wf (registry_part w)" and "validators_answer P w (registry_at P) = Inr vs"
  shows "validator_address ` set vs = registered (registry_part w)"
proof -
  obtain us where us: "query_validators (chain_deps P w) (registry_part w) = Inr us"
    and vs: "vs = sort_by_delegated us"
    using assms(2) by (auto simp: validators_answer_def registry_query_def result_simps)
  have "set (map validator_address us) = set (map fst (registry_validators (registry_part w)))"
    using query_validators_addresses[OF us assms(1)] by simp
  then show ?thesis by (simp add: vs)
qed

section \<open>Property\<close>

text \<open>
  C13: A transaction in which a user deposits, completed: the coins move from the user to the hub; the
  hub delegates exactly the payment, in non-zero parts, to validators of the registry; it accounts
  for exactly the payment after a slashing check, and the token's supply grows by exactly the payment
  divided by the exchange rate, rounded down. Registry and dispatcher stay as they are, and the
  worth of a token, as the hub saw it, is not lower than before.
\<close>

theorem deposit_transaction:
  assumes "settles P now {#(user, WasmExecute (hub_at P) (HubMsg BondForStAtom) funds)#} w w'"
    and "cw20_laws (cw20 P) (supply_of P)" and "decimal_laws (number_lib P)"
    and "load_config (hub_part w) = Inr c" and "statom_token_contract c = Some (token_at P)"
    and "validators_registry_contract c = Some (registry_at P)" and "registry_wf (registry_part w)"
  shows "\<exists>before chain payment ms minted st b batch r.
      funds = [payment] \<and> 0 < coin_amount payment
    \<and> move_funds P user (hub_at P) funds before = Inr chain
    \<and> hub_execute (connected P now (w\<lparr>chain_part := chain\<rparr>)) (env_at now (hub_at P))
        \<lparr>info_sender = user, info_funds = funds\<rparr> BondForStAtom (hub_part w) = Inr (r, hub_part w')
    \<and> messages r = ms @ [WasmExecute (token_at P) (TokenMsg (Mint user minted)) []]
    \<and> delegates_exactly (coin_denom payment) (registered (registry_part w)) (unat (coin_amount payment)) ms
    \<and> slashing (connected P now (w\<lparr>chain_part := chain\<rparr>)) (env_at now (hub_at P)) (hub_part w)
        = Inr (st, save_state st (hub_part w))
    \<and> hub_part w' = save_state (st\<lparr>total_bond_statom_amount := b\<rparr>) (hub_part w)
    \<and> unat b = unat (total_bond_statom_amount st) + unat (coin_amount payment)
    \<and> unat minted = unat (coin_amount payment) * fractional div unat (atomics (statom_exchange_rate st))
    \<and> issued_tokens P w' = issued_tokens P w + unat minted
    \<and> registry_part w' = registry_part w \<and> dispatcher_part w' = dispatcher_part w
    \<and> load_current_batch (hub_part w) = Inr batch \<and> load_current_batch (hub_part w') = Inr batch
    \<and> (\<forall>bonded. 0 < bonded \<and> sees (connected P now (w\<lparr>chain_part := chain\<rparr>)) (env_at now (hub_at P))
          (hub_part w) (token_at P) bonded (supply_of P (base_store (token_part w)))
        \<and> 0 < issued_tokens P w' + unat (requested_statom batch) \<longrightarrow>
        rate_spec bonded (issued_tokens P w + unat (requested_statom batch))
          \<le> rate_spec (unat b) (issued_tokens P w' + unat (requested_statom batch)))"
proof (rule settles_next[OF assms(1)])
  fix ca N es w1
  assume N: "for_chain P N" and out: "settles P now (mset es + N) w1 w'"
    and del: "deliver P now user (WasmExecute (hub_at P) (HubMsg BondForStAtom) funds)
      (w\<lparr>chain_part := ca\<rparr>) = Inr (es, w1)"
  obtain cb r s where
    run: "hub_execute (connected P now (w\<lparr>chain_part := cb\<rparr>)) (env_at now (hub_at P))
      \<lparr>info_sender = user, info_funds = funds\<rparr> BondForStAtom (hub_part w) = Inr (r, s)"
    and es: "es = map (Pair (hub_at P)) (messages r)" and w1: "w1 = w\<lparr>hub_part := s, chain_part := cb\<rparr>"
    and moved: "funds \<noteq> [] \<Longrightarrow> move_funds P user (hub_at P) funds ca = Inr cb"
    by (rule deliver_hub[OF del]) auto
  let ?D = "connected P now (w\<lparr>chain_part := cb\<rparr>)" and ?env = "env_at now (hub_at P)"
  have laws: "decimal_laws (numbers ?D)" using assms(3) by simp
  have bond: "execute_bond ?D ?env \<lparr>info_sender = user, info_funds = funds\<rparr> StAtom (hub_part w) = Inr (r, s)"
    using run by (simp add: hub_execute_def)
  obtain batch where batch: "load_current_batch (hub_part w) = Inr batch" by (rule execute_bond_Inr[OF bond])
  obtain registry token vs ms and payment :: coin and st :: hub_state and minted b :: u128
    where registry: "validators_registry_contract c = Some registry" "statom_token_contract c = Some token"
      "query_validators_for_delegation (querier ?D) registry = Inr vs"
    and pay: "funds = [payment]" "0 < coin_amount payment"
    and slash: "slashing ?D ?env (hub_part w) = Inr (st, save_state st (hub_part w))"
    and minted: "unat minted = unat (coin_amount payment) * fractional div unat (atomics (statom_exchange_rate st))"
    and r: "messages r = ms @ [WasmExecute token (TokenMsg (Mint user minted)) []]"
    and ms: "delegates_exactly (coin_denom payment) (validator_address ` set vs) (unat (coin_amount payment)) ms"
    and s: "s = save_state (st\<lparr>total_bond_statom_amount := b\<rparr>) (hub_part w)"
    and b: "unat b = unat (total_bond_statom_amount st) + unat (coin_amount payment)"
    using bond_mints_facts[OF laws bond] assms(4) by auto
  have token: "token = token_at P" using registry(2) assms(5) by simp
  have "validators_answer P (w\<lparr>chain_part := cb\<rparr>) (registry_at P) = Inr vs"
    using registry(1,3) assms(6) by simp
  then have vs: "validator_address ` set vs = registered (registry_part w)"
    using told_validators[of "w\<lparr>chain_part := cb\<rparr>"] assms(7) by simp
  have "settles P now (add_mset (hub_at P, WasmExecute (token_at P) (TokenMsg (Mint user minted)) [])
      (image_mset (Pair (hub_at P)) (mset ms) + N)) w1 w'"
    using out by (simp add: es r token)
  moreover have "for_chain P (image_mset (Pair (hub_at P)) (mset ms) + N)"
    using N delegates_for_chain[OF ms] by simp
  ultimately obtain t cc where w': "w' = w1\<lparr>token_part := t, chain_part := cc\<rparr>"
    and sup: "issued_tokens P w' = issued_tokens P w1 + unat minted"
    by (rule mint_arrives[OF assms(2)])
  have issued: "issued_tokens P w1 = issued_tokens P w" by (simp add: w1 issued_tokens_def)
  have same: "hub_part w' = s" "registry_part w' = registry_part w" "dispatcher_part w' = dispatcher_part w"
    by (simp_all add: w' w1)
  have batch': "load_current_batch s = Inr batch" using batch by (simp add: s load_current_batch_def)
  have rate: "rate_spec bonded (issued_tokens P w + unat (requested_statom batch))
      \<le> rate_spec (unat b) (issued_tokens P w' + unat (requested_statom batch))"
    if "0 < bonded" "sees ?D ?env (hub_part w) (token_at P) bonded (supply_of P (base_store (token_part w)))"
      "0 < issued_tokens P w' + unat (requested_statom batch)" for bonded
  proof -
    have "worth_kept (token_at P) bonded (supply_of P (base_store (token_part w))) (hub_part w) r s"
      by (rule bond_worth[OF laws that(2,1) bond])
    moreover have "minted_by (token_at P) (messages r) = unat minted" "burnt_by (token_at P) (messages r) = 0"
      using supply_kept_delegates[OF ms] by (simp_all add: r token supply_kept_def)
    ultimately show ?thesis
      using that(3) sup issued batch batch' by (auto simp: worth_kept_def s issued_tokens_def)
  qed
  show ?thesis
    by (rule exI[of _ ca], rule exI[of _ cb], rule exI[of _ payment], rule exI[of _ ms],
        rule exI[of _ minted], rule exI[of _ st], rule exI[of _ b], rule exI[of _ batch], rule exI[of _ r])
      (use pay moved run r ms slash s b minted sup issued same batch batch' rate in \<open>simp add: token vs\<close>)
qed simp_all

definition deposit_tx :: envelope where
  "deposit_tx = user_message ''bob'' (HubMsg BondForStAtom) ''hub'' [uatom 19]"

definition funded_world :: "(cw20_state, sample_chain) world" where
  "funded_world = sample_world\<lparr>chain_part := [(''bob'', 30), (''disp'', 40), (''hub'', 20)]\<rparr>"

lemma deposit_transaction_witness:
  "\<exists>st b. unat (b :: u128) = unat (total_bond_statom_amount st) + 19
    \<and> hub_part (after_tx 150 deposit_tx funded_world)
        = save_state (st\<lparr>total_bond_statom_amount := b\<rparr>) sample_hub
    \<and> issued_tokens sample_platform (after_tx 150 deposit_tx funded_world)
        = 85 + 19 * fractional div unat (atomics (statom_exchange_rate st))"
proof -
  have "\<not> Option.is_none (run_all 20 sample_platform 150 [deposit_tx] funded_world)" by code_simp
  then have tx: "settles sample_platform 150
      {#(''bob'', WasmExecute (hub_at sample_platform) (HubMsg BondForStAtom) [uatom 19])#}
      funded_world (after_tx 150 deposit_tx funded_world)"
    using after_tx_settles[of 150 deposit_tx funded_world] by (simp add: deposit_tx_def user_message_def)
  have config: "load_config (hub_part funded_world) = Inr sample_config"
    "statom_token_contract sample_config = Some (token_at sample_platform)"
    "validators_registry_contract sample_config = Some (registry_at sample_platform)"
    "registry_wf (registry_part funded_world)"
    using sample_world_hub(1) sample_registry_wf
    by (simp_all add: funded_world_def sample_config_def sample_world_def)
  have start: "hub_part funded_world = sample_hub" "issued_tokens sample_platform funded_world = 85"
    by (simp_all add: funded_world_def sample_world_def issued_tokens_def)
  obtain payment st and b minted :: u128 where "[uatom 19] = [payment]"
    "unat b = unat (total_bond_statom_amount st) + unat (coin_amount payment)"
    "hub_part (after_tx 150 deposit_tx funded_world) = save_state (st\<lparr>total_bond_statom_amount := b\<rparr>) sample_hub"
    "unat minted = unat (coin_amount payment) * fractional div unat (atomics (statom_exchange_rate st))"
    "issued_tokens sample_platform (after_tx 150 deposit_tx funded_world) = 85 + unat minted"
    using deposit_transaction[OF tx sample_platform_laws(5,2) config] unfolding start by blast
  then show ?thesis by (intro exI[of _ st] exI[of _ b]) (auto simp: uatom_def)
qed

end
