(* ===== verification/Hub_Refinement.thy ===== *)
theory Hub_Refinement
  imports Hub_Requests
begin

text \<open>
  What the hub promises its users, without its storage: a ledger of requests per user and batch,
  the totals of the closed batches and the rates of the released ones. Three things can happen to
  it: a user requests (which may close the batch), a user is paid, or nothing. Every message the hub
  accepts in a reachable state is one of these steps of the ledger.
\<close>

section \<open>The ledger\<close>

record ledger =
  open_batch :: u64
  open_total :: nat
  requests :: "string \<Rightarrow> u64 \<Rightarrow> nat"
  totals :: "u64 \<Rightarrow> nat option"
  rates :: "u64 \<Rightarrow> nat option"

datatype ledger_event = Quiet | Requested string nat | Paid string nat

definition add_request :: "string \<Rightarrow> nat \<Rightarrow> ledger \<Rightarrow> string \<Rightarrow> u64 \<Rightarrow> nat" where
  "add_request user n l u i = requests l u i + (if u = user \<and> i = open_batch l then n else 0)"

text \<open>
  Rates may be added to closed batches, in the order of the batches; a rate never changes.
\<close>

definition releases :: "ledger \<Rightarrow> (u64 \<Rightarrow> nat option) \<Rightarrow> bool" where
  "releases l R \<longleftrightarrow> rates l \<subseteq>\<^sub>m R \<and> dom R \<subseteq> dom (totals l)
     \<and> (\<forall>i j. 0 < i \<and> i \<le> j \<and> j \<in> dom R \<longrightarrow> i \<in> dom R)"

definition due :: "(u64 \<Rightarrow> nat option) \<Rightarrow> (u64 \<Rightarrow> nat) \<Rightarrow> nat" where
  "due R request = (\<Sum>i \<in> dom R. request i * the (R i) div fractional)"

inductive ledger_step :: "ledger \<Rightarrow> ledger_event \<Rightarrow> ledger \<Rightarrow> bool" where
  quiet: "ledger_step l Quiet l"
| collect: "ledger_step l (Requested user n)
    (l\<lparr>open_total := open_total l + n, requests := add_request user n l\<rparr>)"
| close: "unat next_batch = unat (open_batch l) + 1 \<Longrightarrow> ledger_step l (Requested user n)
    (l\<lparr>open_batch := next_batch, open_total := 0, requests := add_request user n l,
       totals := (totals l)(open_batch l \<mapsto> open_total l + n)\<rparr>)"
| pay: "releases l R \<Longrightarrow> amount = due R (requests l user) \<Longrightarrow> 0 < amount \<Longrightarrow>
    ledger_step l (Paid user amount)
      (l\<lparr>rates := R, requests := (requests l)(user := \<lambda>i. if R i = None then requests l user i else 0)\<rparr>)"

inductive_cases ledger_stepE: "ledger_step l e l'"

section \<open>The ledger of a hub\<close>

definition batch_rate :: "hub_store \<Rightarrow> u64 \<Rightarrow> nat option" where
  "batch_rate s i = (case history_at s i of None \<Rightarrow> None
     | Some h \<Rightarrow> if released h then Some (unat (atomics (statom_withdraw_rate h))) else None)"

definition batch_total :: "hub_store \<Rightarrow> u64 \<Rightarrow> nat option" where
  "batch_total s i = map_option (\<lambda>h. unat (statom_amount h)) (history_at s i)"

definition ledger_of :: "api_lib \<Rightarrow> hub_store \<Rightarrow> ledger" where
  "ledger_of A s = \<lparr>open_batch = current_id (the (current_batch_item s)),
     open_total = unat (requested_statom (the (current_batch_item s))),
     requests = user_request A s, totals = batch_total s, rates = batch_rate s\<rparr>"

text \<open>What a message and the hub's response to it mean for the ledger.\<close>

fun paid_by :: "payload cosmos_msg list \<Rightarrow> ledger_event" where
  "paid_by (BankSend user (c # cs) # ms) = Paid user (unat (coin_amount c))"
| "paid_by ms = Quiet"

definition event_of :: "hub_execute_msg \<Rightarrow> payload response \<Rightarrow> ledger_event" where
  "event_of msg r = (case msg of
     Receive m \<Rightarrow> Requested (cw20_sender m) (unat (cw20_amount m))
   | WithdrawUnbonded \<Rightarrow> paid_by (messages r)
   | _ \<Rightarrow> Quiet)"

lemma ledger_cong:
  assumes "wait_list s' = wait_list s" and "unbond_histories s' = unbond_histories s"
    and "current_batch_item s' = current_batch_item s"
  shows "ledger_of A s' = ledger_of A s"
proof -
  have "history_at s' = history_at s" using assms(2) by (simp add: fun_eq_iff history_at_def)
  then show ?thesis
    using assms user_request_cong[OF assms(1), of A]
    by (simp add: ledger_of_def batch_rate_def batch_total_def fun_eq_iff)
qed

section \<open>Requests\<close>

lemma unbond_history_effect:
  assumes "execute_unbond_statom D env amount user s = Inr (r, s')" and "uint128_laws (numbers D)"
    and "kv_wf (unbond_histories s)"
  obtains b requested where "current_batch_item s = Some b" and "unat requested = unat (requested_statom b) + unat amount"
    and "current_batch_item s' = Some \<lparr>current_id = current_id b, requested_statom = requested\<rparr>
          \<and> history_at s' = history_at s
        \<or> (\<exists>n h. unat n = unat (current_id b) + 1
          \<and> current_batch_item s' = Some \<lparr>current_id = n, requested_statom = 0\<rparr>
          \<and> history_at s' = (history_at s)(current_id b \<mapsto> h) \<and> statom_amount h = requested \<and> \<not> released h)"
proof (rule execute_unbond_Inr[OF assms(1)])
  fix p b st requested s2 passed ms b2 st2 s3 config token
  assume b: "load_current_batch s = Inr b"
    and req: "uint_add (numbers D) (requested_statom b) amount = Inr requested"
    and wl: "store_unbond_wait_list D (current_id b) user amount (save_state st s) = Inr s2"
    and x: "(if passed > epoch_period p
      then process_undelegations D env (b\<lparr>requested_statom := requested\<rparr>) st s2
      else Inr ([], b\<lparr>requested_statom := requested\<rparr>, st, s2)) = Inr (ms, b2, st2, s3)"
    and s': "s' = save_state st2 (save_current_batch b2 s3)"
  obtain w where s2: "s2 = save_state st s\<lparr>wait_list := w\<rparr>"
    by (rule store_wait_list_Inr[OF assms(2) wl]) blast
  have b': "current_batch_item s = Some b" using b by (simp add: load_current_batch_def result_simps)
  have req': "unat requested = unat (requested_statom b) + unat amount"
    using req by (simp add: uint128_laws.uint_add_Inr[OF assms(2)])
  show thesis
  proof (cases "passed > epoch_period p")
    case True
    then have und: "process_undelegations D env (b\<lparr>requested_statom := requested\<rparr>) st s2 = Inr (ms, b2, st2, s3)"
      using x by simp
    show thesis
      by (rule process_undelegations_Inr[OF und], rule that[OF b' req'], rule disjI2)
        (use assms(3) in \<open>auto simp: s' s2 history_at_def fun_eq_iff\<close>)
  next
    case False
    then have "b2 = b\<lparr>requested_statom := requested\<rparr>" "s3 = s2" using x by auto
    then show thesis
      by (intro that[OF b' req'] disjI1) (simp add: s' s2 history_at_def fun_eq_iff)
  qed
qed

section \<open>Payments\<close>

lemma kv_get_filter:
  assumes "kv_wf m"
  shows "kv_get (filter P m) k = (case kv_get m k of None \<Rightarrow> None | Some v \<Rightarrow> if P (k, v) then Some v else None)"
proof -
  have d: "distinct (map fst m)" "distinct (map fst (filter P m))"
    using assms kv_wf_filter[OF assms] by (simp_all add: kv_wf_distinct)
  have iff: "kv_get (filter P m) k = Some v \<longleftrightarrow> kv_get m k = Some v \<and> P (k, v)" for v
    by (simp add: kv_get_def map_of_eq_Some_iff[OF d(1)] map_of_eq_Some_iff[OF d(2)])
  show ?thesis
  proof (cases "kv_get m k")
    case None
    then have "kv_get (filter P m) k = None" by (metis iff not_None_eq)
    with None show ?thesis by simp
  next
    case (Some v)
    then have "kv_get (filter P m) k = (if P (k, v) then Some v else None)"
      by (metis iff not_None_eq option.inject)
    with Some show ?thesis by simp
  qed
qed

lemma released_history_rate:
  assumes "codec_laws A"
  shows "released_history A s (batch_to_vec A i) = (case history_at s i of None \<Rightarrow> None
    | Some h \<Rightarrow> if released h then Some h else None)"
  using codec_laws.batch_roundtrip[OF assms] by (simp add: released_history_def)

lemma settled_rate:
  assumes "codec_laws A"
  shows "settled A s user ((u, batch_to_vec A i), w) \<longleftrightarrow> u = user \<and> batch_rate s i \<noteq> None"
  by (auto simp: settled_def released_history_rate[OF assms] batch_rate_def split: option.splits)

lemma request_settled:
  assumes "kv_wf (wait_list s)" and "codec_laws A"
    and "wait_list s' = filter (\<lambda>e. \<not> settled A s1 user e) (wait_list s)"
  shows "user_request A s' u i = (if u = user \<and> batch_rate s1 i \<noteq> None then 0 else user_request A s u i)"
  by (auto simp: user_request_def assms(3) kv_get_filter[OF assms(1)] settled_rate[OF assms(2)]
      split: option.splits)

text \<open>What a user is owed, counted on the wait list, is what the ledger says is due.\<close>

lemma owed_due:
  assumes "kv_wf (wait_list s)" and "batch_keys A s" and "codec_laws A"
  shows "owed A s user = due (batch_rate s) (user_request A s user)"
proof -
  let ?m = "wait_list s" and ?R = "batch_rate s"
  let ?g = "\<lambda>e. if fst (fst e) = user then payable A s (snd (fst e)) (snd e) else 0"
  let ?h = "\<lambda>i. ((user, batch_to_vec A i), the (kv_get ?m (user, batch_to_vec A i)))"
  define S where "S = {i \<in> dom ?R. kv_get ?m (user, batch_to_vec A i) \<noteq> None}"
  have d: "distinct (map fst ?m)" using assms(1) by (rule kv_wf_distinct)
  have image: "?h ` S = {e \<in> set ?m. settled A s user e}"
  proof (intro set_eqI iffI)
    fix e assume "e \<in> {e \<in> set ?m. settled A s user e}"
    moreover from this obtain i where "snd (fst e) = batch_to_vec A i"
      using assms(2) by (auto simp: batch_keys_def)
    moreover obtain u k w where "e = ((u, k), w)" by (metis surj_pair)
    ultimately have "e = ((user, batch_to_vec A i), w)" "?R i \<noteq> None" "e \<in> set ?m"
      using settled_rate[OF assms(3)] by (auto simp: settled_def)
    then show "e \<in> ?h ` S" using d by (auto simp: S_def kv_get_def intro!: image_eqI[of _ _ i])
  next
    fix e assume "e \<in> ?h ` S"
    then show "e \<in> {e \<in> set ?m. settled A s user e}"
      using d by (auto simp: S_def settled_rate[OF assms(3)] kv_get_def map_of_eq_Some_iff)
  qed
  have inj: "inj_on ?h S" by (auto simp: inj_on_def codec_laws.batch_to_vec_inject[OF assms(3)])
  have share: "?g (?h i) = user_request A s user i * the (?R i) div fractional" if "i \<in> S" for i
    using that by (auto simp: S_def payable_def released_history_rate[OF assms(3)] batch_rate_def
        share_value_def user_request_def split: option.splits if_splits)
  have "owed A s user = (\<Sum>e \<in> set ?m. ?g e)"
    using d by (simp add: owed_def weight_def distinct_map sum_list_distinct_conv_sum_set)
  also have "\<dots> = (\<Sum>e \<in> ?h ` S. ?g e)"
    unfolding image
    by (rule sum.mono_neutral_right) (auto simp: settled_def payable_def split: option.splits)
  also have "\<dots> = (\<Sum>i \<in> S. user_request A s user i * the (?R i) div fractional)"
    using share by (simp add: sum.reindex[OF inj])
  also have "\<dots> = due ?R (user_request A s user)"
    unfolding due_def
    by (rule sum.mono_neutral_left) (auto simp: S_def user_request_def)
  finally show ?thesis .
qed

text \<open>The rates a withdrawal sets on the way.\<close>

lemma releases_batches:
  assumes "bignum_laws (numbers D)" and "codec_laws (api D)" and "hub_inv (api D) s"
    and "process_withdraw_rate D time balance s = Inr s1"
  shows "releases (ledger_of (api D) s) (batch_rate s1)" and "batch_total s1 = batch_total s"
proof -
  note inv = process_withdraw_rate_inv[OF assms(1,4,3)]
  note step = process_withdraw_rate_releases[OF assms(1,4,3)]
  have none: "history_at s1 i = None \<longleftrightarrow> history_at s i = None" for i
    using hub_inv_histories[OF assms(3), of i] hub_inv_histories[OF inv(1), of i] inv(3) by metis
  have at: "history_at s1 i = Some h \<or> (\<exists>r. \<not> released h \<and> history_at s1 i = Some (release h r))"
    if "history_at s i = Some h" for i h
    using step[OF that] by (auto split: if_splits)
  show total: "batch_total s1 = batch_total s"
  proof
    fix i
    show "batch_total s1 i = batch_total s i"
      using at[of i] none[of i] by (cases "history_at s i") (auto simp: batch_total_def release_def)
  qed
  have "batch_rate s \<subseteq>\<^sub>m batch_rate s1"
    using at by (fastforce simp: map_le_def batch_rate_def dom_def split: option.splits if_splits)
  moreover have "dom (batch_rate s1) \<subseteq> dom (batch_total s1)"
    by (auto simp: batch_rate_def batch_total_def dom_def split: option.splits)
  moreover have "i \<in> dom (batch_rate s1)" if ij: "0 < i" "i \<le> j" "j \<in> dom (batch_rate s1)" for i j
  proof -
    obtain b st where b: "current_batch_item s1 = Some b" "state_item s1 = Some st"
      and ok: "history_ok s1 b st"
      using inv(1) by (auto simp: hub_inv_def books_ok_def)
    obtain h where h: "history_at s1 j = Some h" "released h"
      using ij(3) by (auto simp: batch_rate_def dom_def split: option.splits if_splits)
    have j: "0 < j" "j < current_id b" using history_keys[OF ok h(1)] by simp_all
    then have "j \<le> last_processed_batch st" using ok h unfolding history_ok_def by fastforce
    moreover have "i < current_id b" using ij(2) j(2) by simp
    ultimately show ?thesis using ok ij(1,2) unfolding history_ok_def batch_rate_def dom_def by fastforce
  qed
  ultimately show "releases (ledger_of (api D) s) (batch_rate s1)"
    unfolding releases_def ledger_of_def using total by (simp del: domIff) blast
qed

section \<open>The refinement\<close>

lemma withdraw_refines:
  assumes "bignum_laws (numbers D)" and "codec_laws (api D)" and "hub_inv (api D) s"
    and "execute_withdraw_unbonded D env info s = Inr (r, s')"
  shows "ledger_step (ledger_of (api D) s) (paid_by (messages r)) (ledger_of (api D) s')"
proof (rule withdraw_effect[OF assms])
  fix p time balance s1 amount prev st
  let ?A = "api D" and ?user = "info_sender info"
  assume rate: "process_withdraw_rate D time (coin_amount balance) s = Inr s1"
    and inv: "hub_inv ?A s1" and wl: "wait_list s1 = wait_list s"
    and amount: "amount \<noteq> 0" "unat amount = owed ?A s1 ?user"
    and r: "messages r = [BankSend ?user [\<lparr>coin_denom = underlying_coin_denom p, coin_amount = amount\<rparr>]]"
    and s': "s' = save_state (st\<lparr>prev_hub_balance := prev\<rparr>)
      (s1\<lparr>wait_list := filter (\<lambda>e. \<not> settled ?A s1 ?user e) (wait_list s)\<rparr>)"
  let ?l = "ledger_of ?A s" and ?R = "batch_rate s1"
  have wf: "kv_wf (wait_list s)" "kv_wf (wait_list s1)"
    using assms(3) inv by (auto simp: hub_inv_def books_ok_def)
  note rel = releases_batches[OF assms(1-3) rate]
  have same: "user_request ?A s1 = user_request ?A s" using wl by (rule user_request_cong)
  have hist: "history_at s' = history_at s1" by (simp add: s' fun_eq_iff history_at_def)
  have paid: "unat amount = due ?R (requests ?l ?user)"
    using amount(2) owed_due[OF wf(2) hub_inv_batch_keys[OF inv] assms(2), of ?user] same
    by (simp add: ledger_of_def)
  have "user_request ?A s' = (requests ?l)(?user := \<lambda>i. if ?R i = None then requests ?l ?user i else 0)"
    using request_settled[OF wf(1) assms(2), of s' s1 ?user] by (auto simp: s' fun_eq_iff ledger_of_def)
  then have "ledger_of ?A s' = ?l\<lparr>rates := ?R,
      requests := (requests ?l)(?user := \<lambda>i. if ?R i = None then requests ?l ?user i else 0)\<rparr>"
    using rel(2) hist process_withdraw_rate_inv(3)[OF assms(1) rate assms(3)]
    by (simp add: ledger_of_def batch_rate_def batch_total_def fun_eq_iff s')
  moreover have "0 < unat amount" using amount(1) by (simp add: unat_gt_0)
  ultimately show ?thesis
    using ledger_step.pay[OF rel(1) paid] by (simp add: r)
qed

lemma unbond_refines:
  assumes "uint128_laws (numbers D)" and "codec_laws (api D)" and "hub_inv (api D) s"
    and "execute_unbond_statom D env amount user s = Inr (r, s')"
    and requests: "\<And>b u i. current_batch_item s = Some b \<Longrightarrow> user_request (api D) s' u i
      = user_request (api D) s u i + (if u = user \<and> i = current_id b then unat amount else 0)"
  shows "ledger_step (ledger_of (api D) s) (Requested user (unat amount)) (ledger_of (api D) s')"
proof -
  let ?l = "ledger_of (api D) s" and ?l' = "ledger_of (api D) s'"
  have wf: "kv_wf (unbond_histories s)" using assms(3) by (auto simp: hub_inv_def books_ok_def)
  obtain b requested where b: "current_batch_item s = Some b"
    and req: "unat requested = unat (requested_statom b) + unat amount"
    and batch: "current_batch_item s' = Some \<lparr>current_id = current_id b, requested_statom = requested\<rparr>
          \<and> history_at s' = history_at s
        \<or> (\<exists>n h. unat n = unat (current_id b) + 1
          \<and> current_batch_item s' = Some \<lparr>current_id = n, requested_statom = 0\<rparr>
          \<and> history_at s' = (history_at s)(current_id b \<mapsto> h) \<and> statom_amount h = requested \<and> \<not> released h)"
    by (rule unbond_history_effect[OF assms(4,1) wf])
  have new: "user_request (api D) s' = add_request user (unat amount) ?l"
    using requests[OF b] b by (auto simp: fun_eq_iff add_request_def ledger_of_def)
  have open_none: "history_at s (current_id b) = None"
    using hub_inv_histories[OF assms(3), of "current_id b"] b by auto
  from batch show ?thesis
  proof
    assume "current_batch_item s' = Some \<lparr>current_id = current_id b, requested_statom = requested\<rparr>
      \<and> history_at s' = history_at s"
    then have "?l' = ?l\<lparr>open_total := open_total ?l + unat amount, requests := add_request user (unat amount) ?l\<rparr>"
      using b req new by (simp add: ledger_of_def batch_rate_def batch_total_def fun_eq_iff)
    then show ?thesis using ledger_step.collect[of ?l user "unat amount"] by simp
  next
    assume "\<exists>n h. unat n = unat (current_id b) + 1
          \<and> current_batch_item s' = Some \<lparr>current_id = n, requested_statom = 0\<rparr>
          \<and> history_at s' = (history_at s)(current_id b \<mapsto> h) \<and> statom_amount h = requested \<and> \<not> released h"
    then obtain n h where n: "unat n = unat (current_id b) + 1"
      "current_batch_item s' = Some \<lparr>current_id = n, requested_statom = 0\<rparr>"
      and h: "history_at s' = (history_at s)(current_id b \<mapsto> h)" "statom_amount h = requested" "\<not> released h"
      by blast
    have "batch_rate s' = batch_rate s" using h open_none by (auto simp: fun_eq_iff batch_rate_def)
    moreover have "batch_total s' = (batch_total s)(current_id b \<mapsto> unat requested)"
      using h by (auto simp: fun_eq_iff batch_total_def)
    ultimately have "?l' = ?l\<lparr>open_batch := n, open_total := 0, requests := add_request user (unat amount) ?l,
        totals := (totals ?l)(open_batch ?l \<mapsto> open_total ?l + unat amount)\<rparr>"
      using b n req new by (simp add: ledger_of_def)
    moreover have "unat n = unat (open_batch ?l) + 1" using n b by (simp add: ledger_of_def)
    ultimately show ?thesis using ledger_step.close[of n ?l user "unat amount"] by simp
  qed
qed

text \<open>
  C7: The hub implements the ledger. In every reachable state, each message it accepts is the step
  of the ledger that its event names: a request adds to one user's request in the open batch and
  may close it, a withdrawal may release further batches in order and pays the user exactly what
  is due at the released rates, and everything else leaves the ledger as it is.
\<close>

theorem hub_refines_ledger:
  assumes "hub_reachable L A s" and "bignum_laws L" and "codec_laws A"
    and "numbers D = L" and "api D = A"
    and "hub_execute D env info msg s = Inr (r, s')"
  shows "ledger_step (ledger_of A s) (event_of msg r) (ledger_of A s')"
proof -
  have laws: "bignum_laws (numbers D)" "codec_laws (api D)" "hub_inv (api D) s" "uint128_laws (numbers D)"
    using assms(2-5) reachable_inv[OF assms(1-3)] by (simp_all add: bignum_laws_def decimal_laws_def)
  consider m where "msg = Receive m" | "msg = WithdrawUnbonded"
    | "msg \<noteq> WithdrawUnbonded" "\<nexists>m. msg = Receive m" by blast
  then show ?thesis
  proof cases
    case (1 m)
    then have run: "execute_unbond_statom D env (cw20_amount m) (cw20_sender m) s = Inr (r, s')"
      using assms(6) by (auto simp: hub_execute_def elim: receive_Inr)
    have "user_request (api D) s' u i = user_request (api D) s u i
        + (if u = cw20_sender m \<and> i = current_id b then unat (cw20_amount m) else 0)"
      if "current_batch_item s = Some b" for b u i
      using unbond_request_correct_facts[OF assms(1-5)] assms(5,6) that 1
      by (fastforce simp: load_current_batch_def)
    from unbond_refines[OF laws(4,2,3) run this] show ?thesis using 1 assms(5) by (simp add: event_of_def)
  next
    case 2
    then have "execute_withdraw_unbonded D env info s = Inr (r, s')"
      using assms(6) by (simp add: hub_execute_def)
    from withdraw_refines[OF laws(1-3) this] show ?thesis using 2 assms(5) by (simp add: event_of_def)
  next
    case 3
    then have "same_ledger s s'" using quiet_execute[OF assms(6)] by blast
    then have "ledger_of A s' = ledger_of A s" by (intro ledger_cong) (simp_all add: same_ledger_def)
    moreover have "event_of msg r = Quiet" using 3 by (cases msg) (simp_all add: event_of_def)
    ultimately show ?thesis using ledger_step.quiet by simp
  qed
qed

lemma hub_refines_ledger_witness:
  "ledger_step (ledger_of reference_api sample_hub) (Paid ''bob'' 8)
      (ledger_of reference_api (snd (projr (hub_execute (sample_deps 9) (at_time 151) (call_from ''bob'' [])
        WithdrawUnbonded sample_hub))))"
proof -
  let ?run = "hub_execute (sample_deps 9) (at_time 151) (call_from ''bob'' []) WithdrawUnbonded sample_hub"
  have "isl ?run = False" by code_simp
  then obtain r s' where run: "?run = Inr (r, s')" by (cases ?run) auto
  have "messages (fst (projr ?run)) = [BankSend ''bob'' [uatom 8]]" by code_simp
  then have "event_of WithdrawUnbonded r = Paid ''bob'' 8" by (simp add: run event_of_def uatom_def)
  moreover have "ledger_step (ledger_of reference_api sample_hub) (event_of WithdrawUnbonded r)
      (ledger_of reference_api s')"
    by (rule hub_refines_ledger[OF sample_hub_reachable reference.bignum_laws_axioms
          reference_codec.codec_laws_axioms _ _ run]) simp_all
  ultimately show ?thesis by (simp add: run)
qed

end
