(* ===== verification/Hub_Payout.thy ===== *)
theory Hub_Payout
  imports Hub_Solvency
begin

text \<open>
  That a withdrawal goes through: the lemmas of the other theories say what a withdrawal does
  when it is accepted, those here that it is. Amounts in scale (below \<open>2\<^sup>1\<^sup>2\<^sup>8 / 10\<^sup>1\<^sup>8\<close>, about
  \<open>3.4 * 10\<^sup>2\<^sup>0\<close> base units) make every division and product of the release succeed; a covered
  release then leaves enough for the payment. The query of a user's withdrawable
  amount is compared with what the withdrawal pays.
\<close>

section \<open>The release succeeds on amounts in scale\<close>

definition in_scale :: "nat \<Rightarrow> bool" where
  "in_scale n \<longleftrightarrow> n * fractional < 2 ^ 128"

lemma in_scale_mono: "in_scale n \<Longrightarrow> m \<le> n \<Longrightarrow> in_scale m"
  unfolding in_scale_def by (meson le_less_trans mult_le_mono1)

lemma in_scale_fits: "in_scale n \<Longrightarrow> n < 2 ^ 128"
  unfolding in_scale_def by simp

text \<open>A batch of a run is credited with no more than what arrived, or one more than the run expects.\<close>

lemma portion_le_gap:
  assumes "U \<le> T"
  shows "portion gap U T \<le> gap"
proof -
  have "weight_of U T \<le> fractional"
    using assms div_le_mono[of "U * fractional" "T * fractional" T] by (auto simp: weight_of_def)
  then have "gap * weight_of U T div fractional \<le> gap * fractional div fractional"
    by (intro div_le_mono mult_left_mono) simp_all
  then show ?thesis by (simp add: portion_def)
qed

lemma credit_le:
  assumes "U \<le> T"
  shows "credit_for U T R \<le> max (T + 1) R"
  using assms portion_le_gap[OF assms, of "R - T"] portion_le_gap[OF assms, of "T - R"]
  by (auto simp: credit_for_def credited_def Let_def)

context bignum_laws
begin

lemma unit_weight:
  assumes "decimal256_from_ratio L U T = Inr w" and "unat U \<le> unat T"
  shows "unat (atomics256 w) \<le> fractional"
proof -
  have "unat T \<noteq> 0" "unat (atomics256 w) = unat U * fractional div unat T"
    using from_ratio256_sound[OF assms(1)] by simp_all
  then show ?thesis using assms(2) div_le_mono[of "unat U * fractional" "unat T * fractional" "unat T"]
    by simp
qed

lemma weight_exists:
  assumes "unat U \<le> unat T" and "unat T < 2 ^ 128"
  obtains w where "(if T \<noteq> 0 then decimal256_from_ratio L U T else Inr decimal256_zero) = Inr w"
    and "unat (atomics256 w) \<le> fractional"
proof (cases "T = 0")
  case True
  then show ?thesis using that[of decimal256_zero] by (simp add: decimal256_zero_def)
next
  case False
  have "unat U * fractional < 2 ^ 256" using assms by simp
  from from_ratio256_total[OF False this] obtain w where "decimal256_from_ratio L U T = Inr w" ..
  then show ?thesis using that False unit_weight assms(1) by simp
qed

lemma surplus_exists:
  assumes "unat U + unat x < 2 ^ 256"
  shows "\<exists>y. and_then (if x > 1 then uint256_sub L x 1 else Inr 0) (uint256_add L U) = Inr y"
proof -
  obtain z where z: "(if x > 1 then uint256_sub L x 1 else Inr 0) = Inr z" and "unat z \<le> unat x"
  proof (cases "x > 1")
    case True
    then obtain z where "uint256_sub L x 1 = Inr z" using uint256_sub_total[OF order_less_imp_le[OF True]] by blast
    then show ?thesis using that[of z] True uint256_sub_sound by fastforce
  qed (use that[of 0] in simp)
  then have "unat U + unat z < 2 ^ 256" using assms by simp
  from uint256_add_total[OF this] z show ?thesis by simp
qed

lemma loss_exists:
  assumes "unat U < 2 ^ 128" and "unat x + 1 < 2 ^ 128"
  shows "\<exists>y. and_then (if m \<noteq> 0 then uint256_add L x 1 else Inr x) (\<lambda>slashed.
      and_then (uint128_from L U) (\<lambda>minuend.
      and_then (uint128_from L slashed) (\<lambda>subtrahend.
      and_then (from_subtraction L minuend subtrahend) (\<lambda>difference.
      Inr (uint256_from L (magnitude difference)))))) = Inr y"
proof -
  obtain z where z: "(if m \<noteq> 0 then uint256_add L x 1 else Inr x) = Inr z" and "unat z < 2 ^ 128"
  proof (cases "m = 0")
    case False
    obtain z where "uint256_add L x 1 = Inr z" using uint256_add_total[of x 1] assms(2) by auto
    then show ?thesis using that[of z] False assms(2) uint256_add_sound by fastforce
  qed (use that[of x] assms in simp)
  then obtain b where "uint128_from L z = Inr b" using uint128_from_total by blast
  moreover obtain a where "uint128_from L U = Inr a" using uint128_from_total[OF assms(1)] by blast
  ultimately show ?thesis using z by (simp add: from_subtraction_eq)
qed

text \<open>A batch in scale always gets its new rate.\<close>

lemma new_rate_exists:
  assumes "unat a * unat (atomics r) div fractional \<le> unat T"
    and "unat T < 2 ^ 128" and "unat (magnitude d) + 1 < 2 ^ 128"
    and "in_scale (credited (unat a * unat (atomics r) div fractional) (unat T)
      (unat (magnitude d)) (negative d))" (is "in_scale ?credit")
  shows "\<exists>r'. calculate_new_withdraw_rate L a r T d = Inr r'"
proof -
  have "unat a * unat (atomics r) < 2 ^ 128 * 2 ^ 128"
    using unsigned_less[where 'a = nat, of a] unsigned_less[where 'a = nat, of "atomics r"]
    by (intro mult_strict_mono') simp_all
  then obtain U where U: "uint256_mul_decimal L (uint256_from L a) (decimal256_from L r) = Inr U"
    using uint256_mul_total[of "uint256_from L a" "decimal256_from L r"]
    by (auto simp: uint256_from_value decimal256_from_value)
  have U_value: "unat U = unat a * unat (atomics r) div fractional"
    using uint256_mul_sound[OF U] by (simp add: uint256_from_value decimal256_from_value)
  then have UT: "unat U \<le> unat T" using assms(1) by simp
  obtain w where w: "(if T \<noteq> 0 then decimal256_from_ratio L U T else Inr decimal256_zero) = Inr w"
    and unit: "unat (atomics256 w) \<le> fractional"
    by (rule weight_exists[OF UT assms(2)])
  have "unat (magnitude d) * unat (atomics256 w) \<le> unat (magnitude d) * fractional"
    using unit by (rule mult_left_mono) simp
  also have "\<dots> < 2 ^ 256" using assms(3) by simp
  finally obtain x where x: "uint256_mul_decimal L (uint256_from L (magnitude d)) w = Inr x"
    using uint256_mul_total[of "uint256_from L (magnitude d)" w] by (auto simp: uint256_from_value)
  have x_value: "unat x = portion (unat (magnitude d)) (unat U) (unat T)"
    using uint256_mul_sound[OF x] slashing_weight[OF w] by (simp add: uint256_from_value portion_def)
  then have x_le: "unat x \<le> unat (magnitude d)" using portion_le_gap[OF UT] by simp
  obtain y where y: "(if negative d then
        and_then (if x > 1 then uint256_sub L x 1 else Inr 0) (uint256_add L U)
      else
        and_then (if magnitude d \<noteq> 0 then uint256_add L x 1 else Inr x) (\<lambda>slashed.
        and_then (uint128_from L U) (\<lambda>minuend.
        and_then (uint128_from L slashed) (\<lambda>subtrahend.
        and_then (from_subtraction L minuend subtrahend) (\<lambda>difference.
        Inr (uint256_from L (magnitude difference))))))) = Inr y"
    using surplus_exists[of U x] loss_exists[of U x "magnitude d"] UT x_le assms(2,3)
    by (cases "negative d") auto
  have "unat y = ?credit"
    using y credited_on_surplus[of x U y] credited_on_loss[of "magnitude d" x U y] x_value U_value
    by (simp add: credited_def split: if_splits)
  then have scale: "unat y * fractional < 2 ^ 128" using assms(4) by (simp add: in_scale_def)
  have last: "\<exists>r'. (if uint256_from L a \<noteq> 0 then
        and_then (uint128_from L y) (\<lambda>numerator.
        and_then (uint128_from L (uint256_from L a)) (\<lambda>denominator.
        decimal_from_ratio L numerator denominator))
      else Inr r) = Inr r'"
  proof (cases "uint256_from L a = 0")
    case False
    have "unat y < 2 ^ 128" using scale by simp
    then obtain n where n: "uint128_from L y = Inr n" using uint128_from_total by blast
    have "unat (uint256_from L a) < 2 ^ 128"
      using unsigned_less[where 'a = nat, of a] by (simp add: uint256_from_value)
    then obtain m where m: "uint128_from L (uint256_from L a) = Inr m" using uint128_from_total by blast
    have "m \<noteq> 0" using False uint128_from_sound[OF m] by (metis unat_0_iff)
    then show ?thesis
      using False n m from_ratio_total[of m n] uint128_from_sound[OF n] scale by simp
  qed simp
  show ?thesis
    unfolding calculate_new_withdraw_rate_def Let_def U w x y and_then.simps using last .
qed

end

text \<open>The first loop succeeds when the sum fits, the second when every batch gets its rate.\<close>

lemma newly_added_exists:
  assumes "bignum_laws L"
  shows "matured_run s time i hs \<Longrightarrow> unat tot + (\<Sum>h \<leftarrow> hs. expected h) < 2 ^ 128 \<Longrightarrow>
    unat c + length hs < 2 ^ 64 \<Longrightarrow> \<exists>tot' c'. newly_added_loop L s time i tot c = Inr (tot', c')"
proof (induction arbitrary: tot c rule: matured_run.induct)
  case (stop i)
  then show ?case by (simp add: newly_added_loop.simps)
next
  case (more i h i' hs)
  let ?x = "uint256_from L (statom_amount h)" and ?w = "decimal256_from L (statom_withdraw_rate h)"
  have vals: "unat ?x = unat (statom_amount h)" "unat (atomics256 ?w) = unat (atomics (statom_withdraw_rate h))"
    by (rule bignum_laws.uint256_from_value[OF assms] bignum_laws.decimal256_from_value[OF assms])+
  have "unat (statom_amount h) * unat (atomics (statom_withdraw_rate h)) < 2 ^ 128 * 2 ^ 128"
    using unsigned_less[where 'a = nat, of "statom_amount h"]
      unsigned_less[where 'a = nat, of "atomics (statom_withdraw_rate h)"]
    by (intro mult_strict_mono') simp_all
  then obtain u where u: "uint256_mul_decimal L ?x ?w = Inr u"
    using bignum_laws.uint256_mul_total[OF assms, of ?x ?w] vals by auto
  have u_value: "unat u = expected h"
    using bignum_laws.uint256_mul_sound[OF assms u] vals by (simp add: expected_def)
  have "unat tot + unat u < 2 ^ 256" using more.prems(1) u_value by simp
  then obtain tot1 where tot1: "uint256_add L tot u = Inr tot1"
    using bignum_laws.uint256_add_total[OF assms] by blast
  have c1: "prim_add c 1 = Inr (c + 1)" using more.prems(2) by (simp add: prim_succ)
  have "unat i + 1 < 2 ^ 64" using more.hyps(2) unsigned_less[where 'a = nat, of i'] by simp
  then have i1: "prim_add i 1 = Inr i'" using more.hyps(2) by (simp add: prim_add_Inr_iff)
  have "\<exists>tot' c'. newly_added_loop L s time i' tot1 (c + 1) = Inr (tot', c')"
  proof (rule more.IH)
    show "unat tot1 + (\<Sum>h \<leftarrow> hs. expected h) < 2 ^ 128"
      using more.prems(1) u_value bignum_laws.uint256_add_sound[OF assms tot1] by simp
    show "unat (c + 1) + length hs < 2 ^ 64" using more.prems(2) by (simp add: next_index)
  qed
  then show ?case
    unfolding newly_added_loop.simps[of L s time i] more.hyps(1)
    by (simp only: option.case u tot1 c1 i1 and_then.simps)
qed

lemma release_loop_exists:
  "matured_run s time i hs \<Longrightarrow> kv_wf (unbond_histories s) \<Longrightarrow>
    (\<And>h. h \<in> set hs \<Longrightarrow>
      \<exists>r. calculate_new_withdraw_rate L (statom_amount h) (statom_withdraw_rate h) T d = Inr r) \<Longrightarrow>
    \<exists>st' s'. release_loop L time T d i st s = Inr (st', s')"
proof (induction hs arbitrary: i st s)
  case Nil
  then show ?case by (simp add: matured_run_Nil_iff release_loop.simps[of L])
next
  case (Cons h hs)
  obtain r where r: "calculate_new_withdraw_rate L (statom_amount h) (statom_withdraw_rate h) T d = Inr r"
    using Cons.prems(3)[of h] by auto
  obtain i' :: u64 where h: "unreleased_history s time i = Some h" and i': "unat i' = unat i + 1"
    using Cons.prems(1) by (cases rule: matured_run.cases) auto
  have i1: "prim_add i 1 = Inr (i + 1)"
    using i' unsigned_less[where 'a = nat, of i'] by (simp add: prim_succ)
  let ?s = "store_unbond_history i (h\<lparr>statom_withdraw_rate := r, released := True\<rparr>) s"
  have "\<exists>st' s'. release_loop L time T d (i + 1) (st\<lparr>last_processed_batch := i\<rparr>) ?s = Inr (st', s')"
    by (rule Cons.IH[OF matured_run_step[OF Cons.prems(1,2)]]) (use Cons.prems in auto)
  then show ?case
    unfolding release_loop.simps[of L time T d i st s] h Let_def by (simp add: r i1)
qed

lemma matured_run_exists:
  assumes "\<And>i h. unreleased_history s time i = Some h \<Longrightarrow> i < n"
  shows "\<exists>hs. matured_run s time i hs"
proof (induction "2 ^ 64 - unat i" arbitrary: i rule: less_induct)
  case less
  show ?case
  proof (cases "unreleased_history s time i")
    case None
    then show ?thesis by (blast intro: matured_run.stop)
  next
    case (Some h)
    have "unat i < unat n" using assms[OF Some] by (simp add: word_less_nat_alt)
    then have fits: "unat i + 1 < 2 ^ 64" using unsigned_less[where 'a = nat, of n] by simp
    then have nxt: "unat (i + 1) = unat i + 1" by (rule next_index)
    then have "2 ^ 64 - unat (i + 1) < 2 ^ 64 - unat i" using fits by linarith
    from less[OF this] obtain hs where "matured_run s time (i + 1) hs" ..
    from matured_run.more[OF Some nxt this] show ?thesis by blast
  qed
qed

lemma covered_total:
  assumes "covered s time balance" and "state_item s = Some st"
    and "matured_run s time (last_processed_batch st + 1) hs"
  shows "(\<Sum>h \<leftarrow> hs. expected h) \<le> unat balance + fractional"
proof (cases "hs = []")
  case False
  let ?T = "\<Sum>h \<leftarrow> hs. expected h" and ?R = "unat balance - unat (prev_hub_balance st)"
  have "length hs * (?T - ?R) \<le> fractional" using assms False unfolding covered_def by auto
  moreover have "?T - ?R \<le> length hs * (?T - ?R)" using False by (cases hs) simp_all
  ultimately show ?thesis by linarith
qed simp

lemma process_withdraw_rate_exists:
  assumes "bignum_laws (numbers D)" and "hub_inv A s" and "covered s time balance"
    and "in_scale (unat balance + fractional + 1)"
  shows "\<exists>s1. process_withdraw_rate D time balance s = Inr s1"
proof -
  let ?L = "numbers D"
  obtain b st where st: "state_item s = Some st" and b: "current_batch_item s = Some b"
    and ok: "books_ok A s b st"
    using assms(2) by (auto simp: hub_inv_def)
  let ?i = "last_processed_batch st + 1"
  have load: "load_state s = Inr st" and wf: "kv_wf (unbond_histories s)"
    and last: "last_processed_batch st < current_id b"
    using st ok by (simp_all add: load_state_def books_ok_def)
  have i: "prim_add (last_processed_batch st) 1 = Inr ?i"
    using last unsigned_less[where 'a = nat, of "current_id b"] by (simp add: prim_succ word_less_nat_alt)
  have "\<exists>hs. matured_run s time ?i hs"
  proof (rule matured_run_exists)
    fix j h
    assume "unreleased_history s time j = Some h"
    then have "history_at s j \<noteq> None" by (simp add: unreleased_history_Some history_at_def)
    then show "j < current_id b" using hub_inv_histories[OF assms(2), of j] b by auto
  qed
  then obtain hs where run: "matured_run s time ?i hs" ..
  let ?T = "\<Sum>h \<leftarrow> hs. expected h" and ?R = "unat balance - unat (prev_hub_balance st)"
  have prev: "prev_hub_balance st < balance" if "hs \<noteq> []"
    using assms(3) st run that unfolding covered_def by auto
  have T: "?T \<le> unat balance + fractional" by (rule covered_total[OF assms(3) st run])
  have small: "in_scale (?T + 1)" "in_scale (unat balance)"
    by (rule in_scale_mono[OF assms(4)]; use T in simp)+
  then have T_fits: "?T + 1 < 2 ^ 128" by (intro in_scale_fits)
  obtain tot cnt where first: "newly_added_loop ?L s time ?i 0 0 = Inr (tot, cnt)"
    using newly_added_exists[OF assms(1) run, of 0 0] T_fits matured_run_bound[OF run] by auto
  then have added: "calculate_newly_added_unbonded_amount ?L s (last_processed_batch st) time = Inr (tot, cnt)"
    by (simp add: calculate_newly_added_unbonded_amount_def i)
  obtain hs' where "matured_run s time ?i hs'" "unat tot = (\<Sum>h \<leftarrow> hs'. expected h)" "unat cnt = length hs'"
    using newly_added_run[OF first assms(1)] by auto
  then have tot: "unat tot = ?T" and cnt: "unat cnt = length hs" using matured_run_unique[OF run] by auto
  show ?thesis
  proof (cases "hs = []")
    case True
    then have "cnt < 1" using cnt by (simp add: word_less_nat_alt)
    then show ?thesis by (simp add: process_withdraw_rate_def load added)
  next
    case False
    note prev = prev[OF False]
    have laws: "uint128_laws ?L" using assms(1) by (simp add: bignum_laws_def decimal_laws_def)
    let ?change = "SignedInt (balance - prev_hub_balance st) False"
    have change: "from_subtraction ?L balance (prev_hub_balance st) = Inr ?change"
      using prev by (simp add: uint128_laws.from_subtraction_eq[OF laws])
    obtain a where a: "uint128_from ?L tot = Inr a"
      using bignum_laws.uint128_from_total[OF assms(1), of tot] T_fits tot by auto
    have R: "unat (uint256_from ?L (magnitude ?change)) = ?R"
      using prev by (simp add: bignum_laws.uint256_from_value[OF assms(1)] unat_sub)
    have "?R < 2 ^ 128" using in_scale_fits[OF small(2)] by simp
    then obtain c where c: "uint128_from ?L (uint256_from ?L (magnitude ?change)) = Inr c"
      using bignum_laws.uint128_from_total[OF assms(1)] R by metis
    obtain d where d: "from_subtraction ?L a c = Inr d"
      by (simp add: uint128_laws.from_subtraction_eq[OF laws])
    have ac: "unat a = ?T" "unat c = ?R"
      using bignum_laws.uint128_from_sound[OF assms(1) a] bignum_laws.uint128_from_sound[OF assms(1) c] tot R
      by simp_all
    have d_value: "unat (magnitude d) = (if ?R \<le> ?T then ?T - ?R else ?R - ?T)" "negative d \<longleftrightarrow> ?T < ?R"
      using uint128_laws.from_subtraction_magnitude[OF laws d] ac
      by (simp_all add: word_le_nat_alt word_less_nat_alt)
    have rates: "\<exists>r. calculate_new_withdraw_rate ?L (statom_amount h) (statom_withdraw_rate h) tot d = Inr r"
      if "h \<in> set hs" for h
    proof (rule bignum_laws.new_rate_exists[OF assms(1), of "statom_amount h" "statom_withdraw_rate h",
          folded expected_def])
      have part: "expected h \<le> ?T" using that by (intro member_le_sum_list) auto
      then show "expected h \<le> unat tot" by (simp add: tot)
      show "unat tot < 2 ^ 128" using T_fits tot by simp
      show "unat (magnitude d) + 1 < 2 ^ 128"
        using T_fits in_scale_fits[OF assms(4)] unfolding d_value by (auto intro: le_less_trans)
      have "credited (expected h) (unat tot) (unat (magnitude d)) (negative d) = credit_for (expected h) ?T ?R"
        by (simp add: credit_for_def d_value tot)
      also have "\<dots> \<le> max (?T + 1) ?R" by (rule credit_le[OF part])
      finally show "in_scale (credited (expected h) (unat tot) (unat (magnitude d)) (negative d))"
        by (rule in_scale_mono[rotated]) (use T in_scale_mono[OF assms(4)] in \<open>auto simp: max_def\<close>)
    qed
    from release_loop_exists[OF run wf rates] obtain st' s'
      where loop: "release_loop ?L time tot d ?i st s = Inr (st', s')" by blast
    have "\<not> cnt < 1" using False cnt by (simp add: word_less_nat_alt)
    then show ?thesis
      unfolding process_withdraw_rate_def load added and_then.simps prod.case
      by (simp only: if_False change a c d i loop and_then.simps prod.case) blast
  qed
qed

section \<open>The amount of a user\<close>

text \<open>The whole amount of a released batch, times its rate, fits the product of the library.\<close>

definition payouts_fit :: "hub_store \<Rightarrow> bool" where
  "payouts_fit s \<longleftrightarrow> (\<forall>i h. history_at s i = Some h \<and> released h \<longrightarrow>
     unat (statom_amount h) * unat (atomics (statom_withdraw_rate h)) < 2 ^ 128)"

lemma request_le_claimed:
  assumes "((user, batch_to_vec A i), w) \<in> set (wait_list s)"
  shows "unat (wait_amount w) \<le> claimed A s i"
proof -
  have "(\<lambda>e. if snd (fst e) = batch_to_vec A i then unat (wait_amount (snd e)) else 0)
      ((user, batch_to_vec A i), w) \<le> claimed A s i"
    unfolding claimed_def weight_def by (rule member_le_sum_list) (use assms in force, simp)
  then show ?thesis by simp
qed

lemma request_payout_fits:
  assumes "codec_laws A" and "hub_inv A s" and "payouts_fit s"
    and "((user, k), w) \<in> set (wait_list s)" and "released_history A s k = Some h"
  shows "unat (wait_amount w) * unat (atomics (statom_withdraw_rate h)) < 2 ^ 128"
proof -
  obtain i where k: "k = batch_to_vec A i"
    using hub_inv_batch_keys[OF assms(2)] assms(4) unfolding batch_keys_def by (metis fst_conv snd_conv)
  have at: "history_at s i = Some h" "released h"
    using assms(5) codec_laws.batch_roundtrip[OF assms(1), of i]
    by (auto simp: released_history_def k split: option.splits if_splits)
  obtain b st where "books_ok A s b st" using assms(2) by (auto simp: hub_inv_def)
  then have "claimed A s i \<le> unat (statom_amount h)"
    using at by (auto simp: books_ok_def claims_ok_def)
  then have "unat (wait_amount w) \<le> unat (statom_amount h)"
    using request_le_claimed[of user A i w s] assms(4) k by simp
  then have "unat (wait_amount w) * unat (atomics (statom_withdraw_rate h))
      \<le> unat (statom_amount h) * unat (atomics (statom_withdraw_rate h))" by (rule mult_right_mono) simp
  also have "\<dots> < 2 ^ 128" using assms(3) at unfolding payouts_fit_def by blast
  finally show ?thesis .
qed

lemma finished_amount_loop_exists:
  assumes "decimal_laws (numbers D)"
  shows "(\<And>k w. (k, w) \<in> set items \<Longrightarrow> \<exists>i. batch_from_slice (api D) k = Inr i) \<Longrightarrow>
    (\<And>k w h. (k, w) \<in> set items \<Longrightarrow> released_history (api D) s k = Some h \<Longrightarrow>
      unat (wait_amount w) * unat (atomics (statom_withdraw_rate h)) < 2 ^ 128) \<Longrightarrow>
    unat acc + (\<Sum>e \<leftarrow> items. payable (api D) s (fst e) (snd e)) < 2 ^ 128 \<Longrightarrow>
    \<exists>amount bs'. finished_amount_loop D s items acc bs = Inr (amount, bs')"
proof (induction items arbitrary: acc bs)
  case (Cons e items)
  obtain k v where e: "e = (k, v)" by (cases e)
  obtain b where b: "batch_from_slice (api D) k = Inr b" using Cons.prems(1)[of k v] by (auto simp: e)
  have IH: "\<exists>amount bs'. finished_amount_loop D s items acc' bs'' = Inr (amount, bs')"
    if "unat acc' + (\<Sum>e \<leftarrow> items. payable (api D) s (fst e) (snd e)) < 2 ^ 128" for acc' bs''
  proof (rule Cons.IH[OF _ _ that])
    fix k' w'
    assume "(k', w') \<in> set items"
    then have listed: "(k', w') \<in> set (e # items)" by simp
    show "\<exists>i. batch_from_slice (api D) k' = Inr i" by (rule Cons.prems(1)[OF listed])
    show "unat (wait_amount w') * unat (atomics (statom_withdraw_rate h)) < 2 ^ 128"
      if "released_history (api D) s k' = Some h" for h by (rule Cons.prems(2)[OF listed that])
  qed
  show ?case
  proof (cases "released_history (api D) s k")
    case None
    then show ?thesis using IH[of acc bs] Cons.prems(3) b
      by (auto simp: e payable_def released_history_def read_history_cases split: option.splits if_splits)
  next
    case (Some h)
    then have h: "history_at s b = Some h" "released h"
      using b by (auto simp: released_history_def split: option.splits if_splits)
    obtain x where x: "uint_mul_decimal (numbers D) (wait_amount v) (statom_withdraw_rate h) = Inr x"
      using decimal_laws.mul_decimal_total[OF assms Cons.prems(2)[OF _ Some]] by (auto simp: e)
    have x_value: "unat x = payable (api D) s k v"
      using decimal_laws.mul_decimal_sound[OF assms x] by (simp add: payable_def Some share_value_def)
    have "unat acc + unat x < 2 ^ 128" using Cons.prems(3) by (simp add: e x_value)
    from uint128_laws.uint_add_ok[OF _ this] have add: "uint_add (numbers D) acc x = Inr (acc + x)"
      using assms by (simp add: decimal_laws_def)
    then have "unat (acc + x) = unat acc + unat x"
      using assms by (simp add: uint128_laws.uint_add_Inr decimal_laws_def)
    then have "\<exists>amount bs'. finished_amount_loop D s items (acc + x) (bs @ [b]) = Inr (amount, bs')"
      using IH[of "acc + x"] Cons.prems(3) by (simp add: e x_value)
    then show ?thesis using b h x add by (simp add: e read_history_cases)
  qed
qed simp

lemma get_finished_amount_exists:
  assumes "decimal_laws (numbers D)" and "codec_laws (api D)" and "hub_inv (api D) s"
    and "payouts_fit s" and "owed (api D) s user < 2 ^ 128"
  shows "\<exists>amount bs. get_finished_amount D user s = Inr (amount, bs) \<and> unat amount = owed (api D) s user"
proof -
  have "\<exists>amount bs. finished_amount_loop D s (wait_bucket s user) 0 [] = Inr (amount, bs)"
  proof (rule finished_amount_loop_exists[OF assms(1)])
    fix k w
    assume in_bucket: "(k, w) \<in> set (wait_bucket s user)"
    then have listed: "((user, k), w) \<in> set (wait_list s)" by (simp add: set_wait_bucket)
    then show "\<exists>i. batch_from_slice (api D) k = Inr i"
      using hub_inv_batch_keys[OF assms(3)] codec_laws.batch_roundtrip[OF assms(2)]
      unfolding batch_keys_def by fastforce
    show "unat (wait_amount w) * unat (atomics (statom_withdraw_rate h)) < 2 ^ 128"
      if "released_history (api D) s k = Some h" for h
      by (rule request_payout_fits[OF assms(2-4) listed that])
  next
    show "unat (0 :: u128) + (\<Sum>e \<leftarrow> wait_bucket s user. payable (api D) s (fst e) (snd e)) < 2 ^ 128"
      using assms(5) unfolding owed_def wait_bucket_def weight_bucket by simp
  qed
  then obtain amount bs where "get_finished_amount D user s = Inr (amount, bs)"
    by (auto simp: get_finished_amount_def)
  then show ?thesis using get_finished_amount_value(1)[OF assms(1)] by blast
qed

text \<open>A release in scale keeps the payouts of all released batches within the product.\<close>

lemma payouts_fit_released:
  assumes "bignum_laws (numbers D)" and "hub_inv A s" and "covered s time balance"
    and "in_scale (unat balance + fractional + 2)" and "payouts_fit s"
    and "process_withdraw_rate D time balance s = Inr s1"
  shows "payouts_fit s1"
proof -
  obtain b st where st: "state_item s = Some st" and ok: "books_ok A s b st"
    using assms(2) by (auto simp: hub_inv_def)
  then have load: "load_state s = Inr st" and wf: "kv_wf (unbond_histories s)"
    by (simp_all add: load_state_def books_ok_def)
  show ?thesis
  proof (rule process_withdraw_rate_run[OF assms(1,6) load wf])
    fix hs rs p
    let ?i = "last_processed_batch st + 1"
    let ?T = "\<Sum>h \<leftarrow> hs. expected h" and ?R = "arrived balance (prev_hub_balance st)"
    assume run: "matured_run s time ?i hs" and len: "length rs = length hs"
      and credit: "\<And>j. j < length hs \<Longrightarrow>
        expected (release (hs ! j) (rs ! j)) \<le> credit_for (expected (hs ! j)) ?T ?R"
      and s1: "s1 = (if hs = [] then s else save_state (st\<lparr>last_processed_batch := p\<rparr>)
        (store_released ?i (map2 release hs rs) s))"
    have T: "?T \<le> unat balance + fractional" by (rule covered_total[OF assms(3) st run])
    have R: "?R \<le> unat balance" using assms(3) st by (auto simp: covered_def arrived_def)
    have new: "unat (statom_amount h) * unat (atomics (statom_withdraw_rate h)) < 2 ^ 128"
      if j: "j < length hs" and h: "h = release (hs ! j) (rs ! j)" for j h
    proof -
      let ?x = "unat (statom_amount h) * unat (atomics (statom_withdraw_rate h))"
      have "expected (hs ! j) \<le> ?T" using j by (intro member_le_sum_list) auto
      then have "expected h \<le> max (?T + 1) ?R" using credit[OF j] credit_le h by (meson le_trans)
      then have "expected h + 1 \<le> unat balance + fractional + 2" using T R by linarith
      then have "(expected h + 1) * fractional < 2 ^ 128"
        using assms(4) in_scale_mono unfolding in_scale_def by blast
      moreover have "?x < (expected h + 1) * fractional"
        using dividend_less_div_times[of fractional ?x] by (simp add: expected_def ac_simps)
      ultimately show ?thesis by simp
    qed
    show ?thesis
      unfolding payouts_fit_def
    proof (intro allI impI)
      fix i h
      assume "history_at s1 i = Some h \<and> released h"
      then have at: "history_at s1 i = Some h" and "released h" by simp_all
      have "history_at s1 i = (if ?i \<le> i \<and> unat i < unat ?i + length hs
          then Some (release (hs ! (unat i - unat ?i)) (rs ! (unat i - unat ?i))) else history_at s i)"
      proof (cases "hs = []")
        case False
        have "unat i - unat ?i < length hs" if "unat ?i \<le> unat i" "unat i < unat ?i + length hs"
          using that by linarith
        then show ?thesis
          using False store_released_get[OF wf, of ?i "map2 release hs rs" i] matured_run_bound[OF run] len
          by (simp add: s1 history_at_def word_le_nat_alt)
      qed (auto simp: s1 word_le_nat_alt)
      then show "unat (statom_amount h) * unat (atomics (statom_withdraw_rate h)) < 2 ^ 128"
        using new[of "unat i - unat ?i" h] at \<open>released h\<close> assms(5)
        by (auto simp: payouts_fit_def word_le_nat_alt split: if_splits)
    qed
  qed
qed

section \<open>The payment\<close>

text \<open>Once the due batches are released and covered, only the amount decides.\<close>

lemma withdraw_after_release:
  assumes "bignum_laws (numbers D)" and "codec_laws (api D)" and "hub_inv (api D) s"
    and "load_parameters s = Inr p" and "\<not> is_hub_paused p"
    and "unat time + unat (unbonding_period p) = unat (block_seconds env)"
    and "query_balance (querier D) (contract_address env) (underlying_coin_denom p) = Inr balance"
    and "process_withdraw_rate D time (coin_amount balance) s = Inr s1"
    and "liability (api D) s1 \<le> unat (coin_amount balance)" and "payouts_fit s1"
  obtains amount where "unat amount = owed (api D) s1 (info_sender info)"
    and "if amount = 0
      then hub_execute D env info WithdrawUnbonded s = generic_err (''No withdrawable ''
         @ underlying_coin_denom p @ '' assets are available yet'')
      else \<exists>r s'. hub_execute D env info WithdrawUnbonded s = Inr (r, s')
         \<and> messages r = [BankSend (info_sender info)
             [\<lparr>coin_denom = underlying_coin_denom p, coin_amount = amount\<rparr>]]"
proof -
  let ?user = "info_sender info" and ?balance = "coin_amount balance"
  have laws: "decimal_laws (numbers D)" "uint128_laws (numbers D)"
    using assms(1) by (simp_all add: bignum_laws_def decimal_laws_def)
  note inv = process_withdraw_rate_inv[OF assms(1,8,3)]
  have "owed (api D) s1 ?user \<le> liability (api D) s1"
    using liability_settled[of "api D" s1 ?user] by simp
  then have le: "owed (api D) s1 ?user \<le> unat ?balance" using assms(9) by simp
  then have fits: "owed (api D) s1 ?user < 2 ^ 128"
    using unsigned_less[where 'a = nat, of ?balance] by simp
  from get_finished_amount_exists[OF laws(1) assms(2) inv(1) assms(10) fits] obtain amount bs
    where fin: "get_finished_amount D ?user s1 = Inr (amount, bs)"
      and amount: "unat amount = owed (api D) s1 ?user" by blast
  let ?s2 = "remove_unbond_wait_list D bs ?user s1"
  have sub: "uint_checked_sub (numbers D) ?balance amount = Inr (?balance - amount)"
    using le amount by (intro uint128_laws.uint_checked_sub_ok[OF laws(2)]) (simp add: word_le_nat_alt)
  have "state_item ?s2 = state_item s1" by (simp add: remove_wait_list_shape)
  then obtain st where st: "load_state ?s2 = Inr st"
    using inv(1) by (auto simp: hub_inv_def load_state_def)
  have time: "prim_sub (block_seconds env) (unbonding_period p) = Inr time"
    using assms(6) by (simp add: prim_sub_Inr_iff add.commute)
  show thesis
    by (rule that[OF amount])
      (auto simp: hub_execute_def execute_withdraw_unbonded_def assms(4,5,7,8) time fin sub st Let_def)
qed

section \<open>The query\<close>

text \<open>
  At a quiet moment the released batches are exactly those past their unbonding period. (A batch
  that is due to the second is released by a withdrawal and not yet counted by the query: the
  first compares with \<open>>\<close>, the second with \<open><\<close>.)
\<close>

definition quiet_at :: "hub_store \<Rightarrow> u64 \<Rightarrow> bool" where
  "quiet_at s time \<longleftrightarrow> (\<forall>i h. history_at s i = Some h \<longrightarrow>
     (if released h then history_time h < time else time < history_time h))"

lemma query_loop_eq:
  assumes "quiet_at s time"
  shows "query_finished_loop D s time items acc
    = and_then (finished_amount_loop D s items acc bs) (\<lambda>(amount, _). Inr amount)"
proof (induction items arbitrary: acc bs)
  case (Cons e items)
  have same: "history_time h < time \<longleftrightarrow> released h" if "history_at s i = Some h" for i h
    using assms that unfolding quiet_at_def by (metis less_asym)
  obtain k v where e: "e = (k, v)" by (cases e)
  show ?case
    by (auto simp: e and_then_assoc read_history_cases same Cons[symmetric]
        intro!: and_then_cong split: option.splits)
qed simp

lemma quiet_release:
  assumes "quiet_at s time" and "load_state s = Inr st" and "unat (last_processed_batch st) + 1 < 2 ^ 64"
  shows "process_withdraw_rate D time balance s = Inr s"
proof -
  have "unreleased_history s time i = None" for i
    using assms(1) unfolding unreleased_history_None quiet_at_def history_at_def by metis
  then show ?thesis
    using assms(2,3) by (simp add: process_withdraw_rate_def calculate_newly_added_unbonded_amount_def
        newly_added_loop.simps[of "numbers D"] prim_succ[THEN iffD2])
qed

section \<open>A paid sample\<close>

text \<open>
  Another run: bob and cal share batch 1 (10 and 6 stAtom); 16 uatom arrive for it, bob withdraws
  and the hub still owes cal 5 (6 at the released rate, rounded down).
\<close>

definition run_shared :: hub_store where
  "run_shared = run_step (run_deps 110) 120 (call_from ''tok'' [])
     (Receive \<lparr>cw20_sender = ''cal'', cw20_amount = 6, cw20_msg = [1]\<rparr>) run_bonded"

definition run_due :: hub_store where
  "run_due = run_step (run_deps 110) 140 (call_from ''tok'' [])
     (Receive \<lparr>cw20_sender = ''bob'', cw20_amount = 10, cw20_msg = [1]\<rparr>) run_shared"

definition run_paid :: hub_store where
  "run_paid = run_step (sample_deps 16) 151 (call_from ''bob'' []) WithdrawUnbonded run_due"

definition paid_history :: unbond_history where
  "paid_history = \<lparr>batch_id = 1, history_time = 140, statom_amount = 16,
     statom_applied_exchange_rate = Decimal 948275862068965517,
     statom_withdraw_rate = Decimal 937500000000000000, released = True\<rparr>"

definition paid_hub :: hub_store where
  "paid_hub = sample_hub\<lparr>
     current_batch_item := Some \<lparr>current_id = 2, requested_statom = 0\<rparr>,
     state_item := Some \<lparr>total_statom_issued = 0, statom_exchange_rate = Decimal 948275862068965517,
       total_bond_statom_amount = 95, prev_hub_balance = 7, last_unbonded_time = 140,
       last_processed_batch = 1\<rparr>,
     wait_list := [((''cal'', decimal_digits 20 1), \<lparr>wait_amount = 6\<rparr>)],
     unbond_histories := [(u64_be_bytes 1, paid_history)]\<rparr>"

lemma run_paid_is: "run_paid = paid_hub"
  by code_simp

lemma paid_hub_reachable: "hub_reachable reference_num reference_api paid_hub"
  unfolding run_paid_is[symmetric] run_paid_def run_due_def run_shared_def run_bonded_def run_guarded_def
    run_configured_def
  by (intro run_step_reachable run_start_reachable run_deps_simps sample_deps_simps; code_simp)

lemma paid_hub_history: "history_at paid_hub i = Some h \<Longrightarrow> h = paid_history"
  by (auto simp: history_at_def paid_hub_def kv_get_def split: if_splits)

lemma paid_hub_payable: "payable reference_api paid_hub (decimal_digits 20 1) \<lparr>wait_amount = 6\<rparr> = 5"
proof -
  have key: "batch_from_slice reference_api (decimal_digits 20 1) = Inr 1" by code_simp
  have "history_at paid_hub 1 = Some paid_history" by (simp add: history_at_def paid_hub_def kv_get_def)
  then show ?thesis
    by (simp add: payable_def released_history_def key share_value_def paid_history_def)
qed

lemma paid_hub_owes: "liability reference_api paid_hub = 5" "owed reference_api paid_hub ''cal'' = 5"
  using paid_hub_payable by (simp_all add: liability_def owed_def weight_def paid_hub_def)
section \<open>Properties\<close>

text \<open>
  C4: A withdrawal is decided by what is owed. In every reachable state that is solvent, with the
  hub running, the clock past an unbonding period and the chain answering, a covered release of
  amounts in scale always succeeds; the withdrawal then pays the sender exactly what its
  released requests are worth, and is refused only when that is nothing. No overflow, missing
  record or failing division can lock a user's money in.
\<close>

theorem withdrawal_goes_through:
  assumes "hub_reachable L A s" and "bignum_laws L" and "codec_laws A"
    and "numbers D = L" and "api D = A" and "solvent A s"
    and "load_parameters s = Inr p" and "\<not> is_hub_paused p"
    and "unat time + unat (unbonding_period p) = unat (block_seconds env)"
    and "query_balance (querier D) (contract_address env) (underlying_coin_denom p) = Inr balance"
    and "covered s time (coin_amount balance)" and "in_scale (unat (coin_amount balance) + fractional + 2)"
    and "payouts_fit s"
  shows "\<exists>s1. process_withdraw_rate D time (coin_amount balance) s = Inr s1
    \<and> (if owed A s1 (info_sender info) = 0
       then hub_execute D env info WithdrawUnbonded s = generic_err (''No withdrawable ''
         @ underlying_coin_denom p @ '' assets are available yet'')
       else \<exists>r s' amount. hub_execute D env info WithdrawUnbonded s = Inr (r, s')
         \<and> unat amount = owed A s1 (info_sender info)
         \<and> messages r = [BankSend (info_sender info)
             [\<lparr>coin_denom = underlying_coin_denom p, coin_amount = amount\<rparr>]])"
proof -
  have laws: "bignum_laws (numbers D)" "codec_laws (api D)" "hub_inv (api D) s"
    using assms(2-5) reachable_inv[OF assms(1-3)] by simp_all
  obtain s1 where rate: "process_withdraw_rate D time (coin_amount balance) s = Inr s1"
    using process_withdraw_rate_exists[OF laws(1,3) assms(11)] in_scale_mono[OF assms(12)] by auto
  have "liability (api D) s1 \<le> unat (coin_amount balance)"
    using covered_release[OF laws(1-3) rate _ assms(11)] assms(5,6) by simp
  moreover have "payouts_fit s1" by (rule payouts_fit_released[OF laws(1,3) assms(11-13) rate])
  ultimately show ?thesis
  proof (rule withdraw_after_release[OF laws assms(7-10) rate])
    fix amount :: u128
    assume "unat amount = owed (api D) s1 (info_sender info)"
      and "if amount = 0
        then hub_execute D env info WithdrawUnbonded s = generic_err (''No withdrawable ''
          @ underlying_coin_denom p @ '' assets are available yet'')
        else \<exists>r s'. hub_execute D env info WithdrawUnbonded s = Inr (r, s')
          \<and> messages r = [BankSend (info_sender info)
              [\<lparr>coin_denom = underlying_coin_denom p, coin_amount = amount\<rparr>]]"
    moreover from this(1) have "amount = 0 \<longleftrightarrow> owed A s1 (info_sender info) = 0"
      using unsigned_eq_0_iff[of amount, where 'a = nat] assms(5) by simp
    ultimately show ?thesis using rate assms(5) by (auto split: if_splits)
  qed
qed

lemma withdrawal_goes_through_witness:
  "\<exists>r s' amount. hub_execute (sample_deps 9) (at_time 151) (call_from ''bob'' []) WithdrawUnbonded sample_hub
      = Inr (r, s') \<and> messages r = [BankSend ''bob'' [\<lparr>coin_denom = ''uatom'', coin_amount = amount\<rparr>]]"
proof -
  let ?D = "sample_deps 9" and ?info = "call_from ''bob'' []"
  let ?run = "hub_execute ?D (at_time 151) ?info WithdrawUnbonded sample_hub"
  have params: "load_parameters sample_hub = Inr sample_parameters" "\<not> is_hub_paused sample_parameters"
    by (simp_all add: load_parameters_def sample_hub_def is_hub_paused_def sample_parameters_def)
  have time: "unat (141 :: u64) + unat (unbonding_period sample_parameters) = unat (block_seconds (at_time 151))"
    by (simp add: sample_parameters_def at_time_def)
  have bal: "query_balance (querier ?D) (contract_address (at_time 151)) (underlying_coin_denom sample_parameters)
      = Inr (uatom 9)"
    by (simp add: sample_deps_def fixed_querier_def)
  have cov: "covered sample_hub 141 (coin_amount (uatom 9))"
    using sample_covered[of 141] by (simp add: uatom_def)
  have scale: "in_scale (unat (coin_amount (uatom 9)) + fractional + 2)"
    by (simp add: in_scale_def uatom_def)
  have fit: "payouts_fit sample_hub"
    by (auto simp: payouts_fit_def history_at_def sample_hub_def sample_history_def kv_get_def split: if_splits)
  have "isl ?run = False" by code_simp
  then have accepted: "?run \<noteq> Inl e" for e by (cases ?run) auto
  have "liability reference_api sample_hub = 0" by code_simp
  then have start: "solvent reference_api sample_hub" by (simp add: solvent_def sample_hub_def)
  show ?thesis
    using withdrawal_goes_through[OF sample_hub_reachable reference.bignum_laws_axioms
        reference_codec.codec_laws_axioms _ _ start params time bal cov scale fit, of ?info] accepted
    by (auto simp: call_from_def sample_parameters_def split: if_splits)
qed

text \<open>
  C34: What the hub answers is what it pays. At a quiet moment (the released batches are exactly
  those past their unbonding period) the query of a user's withdrawable amount gives the worth
  of the user's released requests, and a withdrawal by that user pays exactly the answered amount,
  or is refused when the answer is zero.
\<close>

theorem withdrawable_query_agrees:
  assumes "hub_reachable L A s" and "bignum_laws L" and "codec_laws A"
    and "numbers D = L" and "api D = A" and "liability A s \<le> unat (coin_amount balance)"
    and "load_parameters s = Inr p" and "\<not> is_hub_paused p"
    and "unat time + unat (unbonding_period p) = unat (block_seconds env)"
    and "query_balance (querier D) (contract_address env) (underlying_coin_denom p) = Inr balance"
    and "quiet_at s time" and "payouts_fit s"
  shows "\<exists>n. hub_query D env (QueryWithdrawableUnbonded (info_sender info)) s = Inr (WithdrawableAnswer n)
    \<and> unat n = owed A s (info_sender info)
    \<and> (if n = 0
       then hub_execute D env info WithdrawUnbonded s = generic_err (''No withdrawable ''
         @ underlying_coin_denom p @ '' assets are available yet'')
       else \<exists>r s'. hub_execute D env info WithdrawUnbonded s = Inr (r, s')
         \<and> messages r = [BankSend (info_sender info)
             [\<lparr>coin_denom = underlying_coin_denom p, coin_amount = n\<rparr>]])"
proof -
  let ?user = "info_sender info"
  have laws: "bignum_laws (numbers D)" "codec_laws (api D)" "hub_inv (api D) s" "decimal_laws (numbers D)"
    using assms(2-5) reachable_inv[OF assms(1-3)] by (simp_all add: bignum_laws_def)
  obtain b st where st: "load_state s = Inr st" and "books_ok (api D) s b st"
    using laws(3) by (auto simp: hub_inv_def load_state_def)
  then have "unat (last_processed_batch st) + 1 < 2 ^ 64"
    using unsigned_less[where 'a = nat, of "current_id b"] by (simp add: books_ok_def word_less_nat_alt)
  with assms(11) st have rate: "process_withdraw_rate D time (coin_amount balance) s = Inr s"
    by (rule quiet_release)
  have "owed (api D) s ?user \<le> liability (api D) s"
    using liability_settled[of "api D" s ?user] by simp
  then have fits: "owed (api D) s ?user < 2 ^ 128"
    using assms(5,6) unsigned_less[where 'a = nat, of "coin_amount balance"] by simp
  from get_finished_amount_exists[OF laws(4,2,3) assms(12) fits] obtain n bs
    where fin: "get_finished_amount D ?user s = Inr (n, bs)" and n: "unat n = owed (api D) s ?user"
    by blast
  have time: "prim_sub (block_seconds env) (unbonding_period p) = Inr time"
    using assms(9) by (simp add: prim_sub_Inr_iff add.commute)
  have answer: "hub_query D env (QueryWithdrawableUnbonded ?user) s = Inr (WithdrawableAnswer n)"
    using fin query_loop_eq[OF assms(11), of D "wait_bucket s ?user" 0 "[]"]
    by (simp add: hub_query_def query_withdrawable_unbonded_def assms(7) time
        query_get_finished_amount_def get_finished_amount_def)
  from assms(6) have "liability (api D) s \<le> unat (coin_amount balance)" by (simp add: assms(5))
  from laws(1-3) assms(7-10) rate this assms(12) show ?thesis
  proof (rule withdraw_after_release)
    fix amount :: u128
    assume "unat amount = owed (api D) s ?user"
      and "if amount = 0
        then hub_execute D env info WithdrawUnbonded s = generic_err (''No withdrawable ''
          @ underlying_coin_denom p @ '' assets are available yet'')
        else \<exists>r s'. hub_execute D env info WithdrawUnbonded s = Inr (r, s')
          \<and> messages r = [BankSend ?user
              [\<lparr>coin_denom = underlying_coin_denom p, coin_amount = amount\<rparr>]]"
    moreover from this(1) have "amount = n" using n by (simp add: word_unat_eq_iff)
    ultimately show ?thesis using answer assms(5) by blast
  qed
qed

lemma withdrawable_query_agrees_witness:
  "hub_query (sample_deps 7) (at_time 152) (QueryWithdrawableUnbonded ''cal'') paid_hub
      = Inr (WithdrawableAnswer 5)
    \<and> (\<exists>r s'. hub_execute (sample_deps 7) (at_time 152) (call_from ''cal'' []) WithdrawUnbonded paid_hub
        = Inr (r, s') \<and> messages r = [BankSend ''cal'' [uatom 5]])"
proof -
  let ?D = "sample_deps 7" and ?info = "call_from ''cal'' []"
  have sender: "info_sender ?info = ''cal''" by (simp add: call_from_def)
  have le: "liability reference_api paid_hub \<le> unat (coin_amount (uatom 7))"
    by (simp add: paid_hub_owes uatom_def)
  have params: "load_parameters paid_hub = Inr sample_parameters" "\<not> is_hub_paused sample_parameters"
    by (simp_all add: load_parameters_def paid_hub_def sample_hub_def is_hub_paused_def sample_parameters_def)
  have time: "unat (142 :: u64) + unat (unbonding_period sample_parameters) = unat (block_seconds (at_time 152))"
    by (simp add: sample_parameters_def at_time_def)
  have bal: "query_balance (querier ?D) (contract_address (at_time 152)) (underlying_coin_denom sample_parameters)
      = Inr (uatom 7)"
    by (simp add: sample_deps_def fixed_querier_def)
  have quiet: "quiet_at paid_hub 142"
    by (auto simp: quiet_at_def paid_history_def dest!: paid_hub_history)
  have fit: "payouts_fit paid_hub"
    by (auto simp: payouts_fit_def paid_history_def dest!: paid_hub_history)
  obtain n where n: "hub_query ?D (at_time 152) (QueryWithdrawableUnbonded ''cal'') paid_hub
      = Inr (WithdrawableAnswer n)" "unat n = 5"
    and paid: "if n = 0 then hub_execute ?D (at_time 152) ?info WithdrawUnbonded paid_hub
        = generic_err (''No withdrawable '' @ underlying_coin_denom sample_parameters
          @ '' assets are available yet'')
      else \<exists>r s'. hub_execute ?D (at_time 152) ?info WithdrawUnbonded paid_hub = Inr (r, s')
        \<and> messages r = [BankSend ''cal''
          [\<lparr>coin_denom = underlying_coin_denom sample_parameters, coin_amount = n\<rparr>]]"
    using withdrawable_query_agrees[OF paid_hub_reachable reference.bignum_laws_axioms
        reference_codec.codec_laws_axioms _ _ le params time bal quiet fit, of ?info]
    unfolding sender paid_hub_owes by auto
  have "n = 5" using n(2) by (simp add: word_unat_eq_iff)
  with n(1) paid show ?thesis by (simp add: uatom_def sample_parameters_def)
qed

text \<open>
  Away from a quiet moment they differ: in the very second batch 1 of the sample becomes due (150,
  as it was undelegated at 140), the query lists nothing for bob, and a withdrawal pays him.
\<close>

lemma query_misses_due_second:
  "hub_query (sample_deps 9) (at_time 150) (QueryWithdrawableUnbonded ''bob'') sample_hub
      = Inr (WithdrawableAnswer 0)
    \<and> messages (fst (projr (hub_execute (sample_deps 9) (at_time 150) (call_from ''bob'' [])
        WithdrawUnbonded sample_hub))) = [BankSend ''bob'' [uatom 8]]"
  by (rule conjI) code_simp+

end
