(* ===== verification/Spec2Isabelle.thy ===== *)
theory Spec2Isabelle
  imports Deposits Hub_Refinement Hub_Payout
begin

text \<open>
  \<^bold>\<open>Liquid staking contracts for Cosmos: a verification development.\<close>

  The repository holds four CosmWasm contracts (Rust, \<^verbatim>\<open>src/contracts\<close>) and two packages
  (\<^verbatim>\<open>src/packages\<close>). Users bond the staked coin with the \<^emph>\<open>hub\<close> and get stAtom, a cw20 \<^emph>\<open>token\<close>, at the
  exchange rate bonded / issued. The hub delegates over the validators of the \<^emph>\<open>registry\<close>. To get
  out, a user sends stAtom to the hub through the token; requests are collected in a batch, a
  batch is undelegated when an epoch has passed, released when its unbonding period is over, and
  then withdrawn by its users. Rewards go through the \<^emph>\<open>rewards dispatcher\<close>, which keeps a fee and
  sends the rest back to be bonded. The hub's owner and its guardians can pause hub and token.

  \<^bold>\<open>Theories and sources\<close>

  \<^descr> \<^emph>\<open>Prelude, Cosmwasm, Numbers.\<close> Errors as values (\<open>'a result = failure + 'a\<close>, \<open>and_then\<close> is Rust's
    \<open>?\<close>, \<open>Panic\<close> a panic), checked primitive arithmetic, big-endian keys, ordered key-value lists
    with the locale \<open>ordered_store\<close>; coins, messages and responses of \<^verbatim>\<open>cosmwasm_std\<close>; the number
    types of \<^verbatim>\<open>cosmwasm_std\<close> and \<^verbatim>\<open>cosmwasm_bignumber\<close> as a parameter \<open>num_lib\<close> with the locales
    \<open>uint128_laws\<close>, \<open>decimal_laws\<close> and \<open>bignum_laws\<close>.
  \<^descr> \<^emph>\<open>Basset, Signed_Int.\<close> \<^verbatim>\<open>packages/basset/src/hub.rs\<close> (the hub's stored types, messages and queries,
    \<open>update_statom_exchange_rate\<close>, \<open>is_paused\<close>) and \<^verbatim>\<open>packages/signed_integers\<close>. Basset also has the
    payloads of all contracts, and the parameters \<open>api_lib\<close> (address validation and the JSON
    forms, locale \<open>codec_laws\<close>) and \<open>querier_lib\<close>, which \<open>deps\<close> bundles.
  \<^descr> \<^emph>\<open>Hub_State, Hub_Slashing, Hub_Admin, Hub_Bond, Hub_Unbond, Hub_Contract.\<close> The hub:
    \<^verbatim>\<open>lido_cosmos_hub/src/state.rs\<close> (\<open>hub_store\<close> and its access functions), \<^verbatim>\<open>contract.rs\<close> (the slashing
    check, administration, dispatch of messages and queries), \<^verbatim>\<open>config.rs\<close>, \<^verbatim>\<open>bond.rs\<close>, \<^verbatim>\<open>math.rs\<close>
    and \<^verbatim>\<open>unbond.rs\<close>, one definition per function and a named one per loop.
  \<^descr> \<^emph>\<open>Registry_Common, Registry.\<close> \<^verbatim>\<open>lido_cosmos_validators_registry/src\<close>: the routines that spread a
    delegation or an undelegation over the validators (\<^verbatim>\<open>common.rs\<close>) and the contract.
  \<^descr> \<^emph>\<open>Dispatcher.\<close> \<^verbatim>\<open>lido_cosmos_rewards_dispatcher/src\<close>.
  \<^descr> \<^emph>\<open>Cw20, Token.\<close> \<^verbatim>\<open>lido_cosmos_token_statom/src\<close> over the crate \<^verbatim>\<open>cw20_base\<close>, a parameter \<open>cw20_base\<close>
    with the locale \<open>cw20_laws\<close>.
  \<^descr> \<^emph>\<open>World.\<close> The four contracts together with a chain: \<open>connected\<close> answers the queries that a
    contract makes of another one from the other's storage, \<open>read_at\<close> is what a contract reads in the
    JSON form of a message, \<open>deliver\<close> carries out one message, \<open>settles\<close> is a whole transaction
    (\<open>settled_by\<close> with the list of what was delivered).

  A storage item is a field of the contract's record of type \<open>option\<close> (absent before it is saved), a
  namespace an ordered key-value list. A handler takes the storage and returns either a
  failure or the response with the new storage: a failing handler changes nothing, as the chain
  takes the transaction back. The names are those of the code; a few differ where the name is
  taken (\<open>statom_amount\<close> of the wait entity is \<open>wait_amount\<close>, \<open>time\<close> of a history \<open>history_time\<close>) or is
  shared by several contracts (\<open>execute_update_config\<close> of the registry is
  \<open>registry_update_config\<close>).

  \<^bold>\<open>Messages between contracts\<close>

  A response's messages are delivered later in the same transaction. The chain does so depth
  first; the development does not rely on it: \<open>settles\<close> allows any order, so what is shown of
transactions holds for each. Sub-messages with replies are not used by the contracts.
  Messages are JSON: where two contracts have a variant of the same name (\<open>dispatch_rewards\<close>,
  \<open>update_config\<close>), each reads the other's message as its own (\<open>hub_reads\<close>, \<open>registry_reads\<close>,
  \<open>dispatcher_reads\<close>). So a hub registered as its own rewards dispatcher calls itself for ever.

  \<^bold>\<open>What is shown\<close>

  \<^descr> \<^emph>\<open>Splitting, Registry_Common:\<close> both routines compute reference functions over natural numbers on
    every input (errors included), distribute exactly the amount and respect the even shares; the
    \<open>while\<close> loop of the undelegation ends after one pass.
  \<^descr> \<^emph>\<open>Release_Math, Hub_Release:\<close> the two loops over the matured batches (\<open>matured_run\<close>), the rate a batch
    is released with, and bounds on what a release credits.
  \<^descr> \<^emph>\<open>Hub_Withdraw, Hub_Ledger, Hub_Run, Hub_Books:\<close> the invariant \<open>hub_inv\<close> of the hub's books over all
    messages, \<open>hub_reachable\<close>, and what a withdrawal releases, pays and removes.
  \<^descr> \<^emph>\<open>Hub_Requests:\<close> unbond requests, and the queries that list requests and batches.
  \<^descr> \<^emph>\<open>Hub_Solvency, Hub_Payout:\<close> the liability of released batches stays covered by covered
    releases, and what happens when nothing has arrived for a batch; a covered withdrawal is
    then never refused for any other reason than that nothing is owed; the query of the
    withdrawable amount agrees with what is paid.
  \<^descr> \<^emph>\<open>Hub_Refinement:\<close> the hub implements an abstract ledger of requests, totals and rates
    (\<open>ledger_step\<close>) by a simulation over all messages.
  \<^descr> \<^emph>\<open>Hub_Slashing, Hub_Bond:\<close> the slashing check, deposits at the exchange rate, rewards that never
    lower it, \<open>decimal_division\<close>.
  \<^descr> \<^emph>\<open>Exchange_Rate:\<close> whatever message the hub accepts, the bonded amount per token issued and requested
    does not fall; only slashing lowers what a stAtom is worth.
  \<^descr> \<^emph>\<open>Hub_Access, Hub_Admin:\<close> rights, pausing, and how the administration can change.
  \<^descr> \<^emph>\<open>Registry, Dispatcher, Token:\<close> the registry's invariant, rights, queries and the removal of a
    validator; the split of rewards; the token as \<^verbatim>\<open>cw20_base\<close> plus slashing checks.
  \<^descr> \<^emph>\<open>Transactions, Flows, Deposits:\<close> every transaction ends in whatever order its messages are delivered,
    if outside contracts send nothing in reply and the hub is not its own rewards dispatcher;
    the invariants of all contracts hold in every reachable world; a paused system is
    frozen; the transactions that deposit, unbond, dispatch rewards and remove a validator, from the
    user's message to the end.

  \<open>Hub_Samples\<close> and \<open>World_Samples\<close> hold the concrete states and chains on which properties with
  hypotheses are applied; \<open>sample_hub\<close> and \<open>paid_hub\<close> are shown reachable by running the contract.

  \<^bold>\<open>Loops, bounds and fuel\<close>

  The loops over lists are structural recursion. The two \<open>loop\<close>s over batch numbers recurse on a
  number that a checked increment bounds by \<open>u64::MAX\<close>; their measure is \<open>2\<^sup>6\<^sup>4 - i\<close>. The \<open>while\<close> loop of
  \<open>calculate_undelegations\<close> (\<open>undelegations_while\<close>) has no such bound in the code; it is a
  \<open>partial_function\<close> in the option type, a run that does not end being \<open>OutOfGas\<close>, and is shown to end.
  \<open>run_all\<close> of \<open>World_Samples\<close>, which computes sample transactions, has fuel 20: none of them takes
  more messages, and the results are checked to be complete.
  Integers have the width of the code. The build has \<open>overflow-checks = true\<close>, so \<open>+\<close> and \<open>-\<close> on
  primitive integers panic out of range. What \<open>Uint128\<close> and \<open>Decimal\<close> do is stated by the locales of
  \<open>Numbers\<close>: results are exact or rounded down, and an operation succeeds when its exact
  intermediate product fits the type (for all versions of the library; some succeed more often).

  \<^bold>\<open>Parameters\<close>

  Code outside the repository is an argument of the definitions that use it: the number library,
  address validation and JSON forms, the queries of the chain and of other contracts
  (\<open>querier_lib\<close>), \<^verbatim>\<open>cw20_base\<close>, the bank and staking modules. What the proofs rely on is stated by the
  locales \<open>uint128_laws\<close>, \<open>decimal_laws\<close>, \<open>bignum_laws\<close>, \<open>codec_laws\<close> and \<open>cw20_laws\<close>, each interpreted on a
  reference implementation; \<open>ordered_store\<close> and \<open>splitter\<close> are interfaces inside the model,
  interpreted on its own definitions.

  \<^bold>\<open>Not modelled\<close>

  \<^descr> The JSON schema generators (\<^verbatim>\<open>examples/schema.rs\<close>) only write files.
  \<^descr> \<open>basset::ContractError\<close> is an error type that no contract uses.
  \<^descr> Unit tests, mock queriers and crate roots.
  \<^descr> Error texts that Rust formats from other errors are kept only as the kind of error; event
    attributes are kept, gas is not.
\<close>

end
